(* ===== verification/Prelude.thy ===== *)
theory Prelude
  imports Main "HOL-Library.Word"
begin

text \<open>
  Shared vocabulary of the development: the operations of \<^verbatim>\<open>std::string\<close>,
  \<^verbatim>\<open>std::istream\<close> and the C conversion functions that the sources call, with the
  lemmas that the component theories use. A byte string is a \<^typ>\<open>string\<close> (a list of
  8-bit characters), a position is a \<^typ>\<open>nat\<close> and \<^verbatim>\<open>npos\<close> is \<^term>\<open>None\<close>. The
  character classification functions are those of the C locale.
\<close>

named_theorems str_simps \<open>rewrite rules for the std::string operations\<close>
named_theorems show_simps \<open>facts on decimal rendering and reading\<close>

type_synonym u8 = "8 word"
type_synonym u16 = "16 word"
type_synonym u32 = "32 word"
type_synonym u64 = "64 word"

abbreviation QUOTE :: char where "QUOTE \<equiv> CHR 0x22"
abbreviation APOS :: char where "APOS \<equiv> CHR 0x27"
abbreviation BSLASH :: char where "BSLASH \<equiv> CHR 0x5C"
abbreviation LF :: char where "LF \<equiv> CHR 0x0A"
abbreviation CR :: char where "CR \<equiv> CHR 0x0D"
abbreviation TAB :: char where "TAB \<equiv> CHR 0x09"
abbreviation NUL :: char where "NUL \<equiv> CHR 0x00"

abbreviation code :: "char \<Rightarrow> nat" where "code c \<equiv> of_char c"


section \<open>Searching and slicing\<close>

fun find_char :: "char \<Rightarrow> string \<Rightarrow> nat option" where
  "find_char c [] = None"
| "find_char c (x # xs) = (if x = c then Some 0 else map_option Suc (find_char c xs))"

definition find_from :: "string \<Rightarrow> char \<Rightarrow> nat \<Rightarrow> nat option" where
  "find_from s c p = map_option (\<lambda>i. p + i) (find_char c (drop p s))"

definition starts_with :: "string \<Rightarrow> string \<Rightarrow> bool" where
  "starts_with p s = (take (length p) s = p)"

fun find_sub :: "string \<Rightarrow> string \<Rightarrow> nat option" where
  "find_sub p [] = (if p = [] then Some 0 else None)"
| "find_sub p (x # xs) =
     (if starts_with p (x # xs) then Some 0 else map_option Suc (find_sub p xs))"

definition substr :: "string \<Rightarrow> nat \<Rightarrow> nat \<Rightarrow> string" where
  "substr s pos n = take n (drop pos s)"

fun find_first_not_of :: "string \<Rightarrow> string \<Rightarrow> nat option" where
  "find_first_not_of cs [] = None"
| "find_first_not_of cs (x # xs) =
     (if x \<in> set cs then map_option Suc (find_first_not_of cs xs) else Some 0)"

fun find_last_not_of :: "string \<Rightarrow> string \<Rightarrow> nat option" where
  "find_last_not_of cs [] = None"
| "find_last_not_of cs (x # xs) =
     (case find_last_not_of cs xs of
        Some i \<Rightarrow> Some (Suc i)
      | None \<Rightarrow> (if x \<in> set cs then None else Some 0))"

text \<open>
  \<^verbatim>\<open>s.erase(0, n)\<close> where \<^verbatim>\<open>npos\<close> erases everything, and the idiom
  \<^verbatim>\<open>(last == npos) ? "" : s.substr(0, last + 1)\<close>.
\<close>

definition erase_front :: "string \<Rightarrow> nat option \<Rightarrow> string" where
  "erase_front s n = (case n of None \<Rightarrow> [] | Some k \<Rightarrow> drop k s)"

definition keep_upto :: "string \<Rightarrow> nat option \<Rightarrow> string" where
  "keep_upto s n = (case n of None \<Rightarrow> [] | Some k \<Rightarrow> take (Suc k) s)"

definition trim :: "string \<Rightarrow> string" where
  "trim s = (let t = erase_front s (find_first_not_of [CHR '' '', TAB] s)
             in keep_upto t (find_last_not_of [CHR '' '', TAB] t))"


section \<open>Characters\<close>

definition to_lower :: "char \<Rightarrow> char" where
  "to_lower c = (if 65 \<le> code c \<and> code c \<le> 90 then char_of (code c + 32) else c)"

definition Lower :: "string \<Rightarrow> string" where
  "Lower s = map to_lower s"

definition is_space :: "char \<Rightarrow> bool" where
  "is_space c = (code c = 32 \<or> 9 \<le> code c \<and> code c \<le> 13)"

definition is_digit :: "char \<Rightarrow> bool" where
  "is_digit c = (48 \<le> code c \<and> code c \<le> 57)"

definition digit_val :: "char \<Rightarrow> nat" where
  "digit_val c = code c - 48"

definition digit_char :: "nat \<Rightarrow> char" where
  "digit_char d = char_of (48 + d)"


section \<open>Streams: operator\<open>>>\<close> on strings and getline\<close>

text \<open>The words a loop \<^verbatim>\<open>while (stream >> word)\<close> extracts.\<close>

fun tokens_acc :: "string \<Rightarrow> string \<Rightarrow> string list" where
  "tokens_acc w [] = (if w = [] then [] else [rev w])"
| "tokens_acc w (c # cs) =
     (if is_space c then (if w = [] then tokens_acc [] cs else rev w # tokens_acc [] cs)
      else tokens_acc (c # w) cs)"

definition tokens :: "string \<Rightarrow> string list" where
  "tokens s = tokens_acc [] s"

text \<open>
  The lines a loop \<^verbatim>\<open>while (std::getline(stream, line))\<close> sees: a line feed ends a
  line; the text after the last one is a line only when it is not empty.
\<close>

fun getlines_acc :: "string \<Rightarrow> string \<Rightarrow> string list" where
  "getlines_acc w [] = (if w = [] then [] else [rev w])"
| "getlines_acc w (c # cs) =
     (if c = LF then rev w # getlines_acc [] cs else getlines_acc (c # w) cs)"

definition getlines :: "string \<Rightarrow> string list" where
  "getlines s = getlines_acc [] s"


section \<open>Decimal rendering and reading\<close>

fun show_nat :: "nat \<Rightarrow> string" where
  "show_nat n = (if n < 10 then [digit_char n]
                 else show_nat (n div 10) @ [digit_char (n mod 10)])"

declare show_nat.simps [simp del]

text \<open>\<^verbatim>\<open>std::to_string\<close> of a signed integer, and the decimal output of streams.\<close>

definition to_string :: "int \<Rightarrow> string" where
  "to_string i = (if i < 0 then CHR ''-'' # show_nat (nat (- i)) else show_nat (nat i))"

definition read_digits :: "string \<Rightarrow> nat" where
  "read_digits ds = foldl (\<lambda>a c. 10 * a + digit_val c) 0 ds"

text \<open>
  \<^verbatim>\<open>strtol(s, &end, 10)\<close>: leading white space, an optional sign, then digits. The
  result is \<^term>\<open>None\<close> when there is no digit to convert; a value out of the range of a
  64-bit \<^verbatim>\<open>long\<close> is clamped.
\<close>

definition clamp64 :: "int \<Rightarrow> int" where
  "clamp64 i = max (- (2 ^ 63)) (min (2 ^ 63 - 1) i)"

definition strtol_raw :: "string \<Rightarrow> int option" where
  "strtol_raw s =
     (let t = dropWhile is_space s;
          neg = (case t of c # _ \<Rightarrow> c = CHR ''-'' | [] \<Rightarrow> False);
          u = (case t of c # r \<Rightarrow> if c = CHR ''-'' \<or> c = CHR ''+'' then r else t | [] \<Rightarrow> []);
          ds = takeWhile is_digit u
      in if ds = [] then None
         else Some (if neg then - int (read_digits ds) else int (read_digits ds)))"

definition strtol :: "string \<Rightarrow> int option" where
  "strtol s = map_option clamp64 (strtol_raw s)"

text \<open>Two's complement truncation of an integer to 32 bits.\<close>

definition wrap32 :: "int \<Rightarrow> int" where
  "wrap32 i = (i + 2 ^ 31) mod 2 ^ 32 - 2 ^ 31"

text \<open>
  The C library's \<^verbatim>\<open>atol\<close> is \<^verbatim>\<open>strtol(s, NULL, 10)\<close> and \<^verbatim>\<open>atoi\<close> its truncation to
  \<^verbatim>\<open>int\<close>; both are 0 when nothing converts.
\<close>

definition atol :: "string \<Rightarrow> int" where
  "atol s = (case strtol s of None \<Rightarrow> 0 | Some i \<Rightarrow> i)"

definition atoi :: "string \<Rightarrow> int" where
  "atoi s = wrap32 (atol s)"

text \<open>\<^verbatim>\<open>std::stoi\<close> throws when nothing converts or the value is no \<^verbatim>\<open>int\<close>.\<close>

definition in_int32 :: "int \<Rightarrow> bool" where
  "in_int32 i = (- (2 ^ 31) \<le> i \<and> i < 2 ^ 31)"

datatype stoi_error = InvalidArgument | OutOfRange

definition stoi :: "string \<Rightarrow> stoi_error + int" where
  "stoi s = (case strtol_raw s of
               None \<Rightarrow> Inl InvalidArgument
             | Some i \<Rightarrow> (if in_int32 i then Inr i else Inl OutOfRange))"


section \<open>Lemmas on searching\<close>

lemma drop_past: "drop (length p + 1) (p @ c # v) = v"
  by simp

lemma find_char_None_iff [simp]: "find_char c s = None \<longleftrightarrow> c \<notin> set s"
  by (induction s) auto

lemma find_char_SomeD:
  "find_char c s = Some i \<Longrightarrow> i < length s \<and> s ! i = c \<and> c \<notin> set (take i s)"
  by (induction s arbitrary: i) (auto split: if_splits)

lemma find_char_split:
  assumes "find_char c s = Some i"
  shows "s = take i s @ c # drop (Suc i) s" "c \<notin> set (take i s)" "i < length s"
  using find_char_SomeD [OF assms] id_take_nth_drop [of i s] by auto

lemma find_char_append [simp]:
  "c \<notin> set xs \<Longrightarrow> find_char c (xs @ c # ys) = Some (length xs)"
  by (induction xs) auto

lemma find_char_append_notin:
  "c \<notin> set xs \<Longrightarrow> find_char c (xs @ ys) = map_option (\<lambda>i. length xs + i) (find_char c ys)"
proof (induction xs)
  case Nil
  show ?case by (simp add: option.map_ident)
next
  case (Cons x xs)
  then show ?case by (auto simp: option.map_comp o_def)
qed

lemma find_from_bounds: "find_from s c p = Some i \<Longrightarrow> p \<le> i \<and> i < length s"
  by (auto simp: find_from_def dest: find_char_SomeD)

lemma starts_with_append [simp]: "starts_with p (p @ s)"
  by (simp add: starts_with_def)

lemma starts_with_Nil [simp]: "starts_with [] s"
  by (simp add: starts_with_def)

lemma starts_with_Cons [simp]: "starts_with (a # p) (b # s) \<longleftrightarrow> a = b \<and> starts_with p s"
  by (auto simp: starts_with_def)

lemma starts_with_Nil2 [simp]: "starts_with p [] \<longleftrightarrow> p = []"
  by (auto simp: starts_with_def)

lemma starts_with_iff: "starts_with p s \<longleftrightarrow> (\<exists>r. s = p @ r)"
  by (metis append_take_drop_id starts_with_append starts_with_def)

lemma find_sub_SomeD:
  "find_sub p s = Some i \<Longrightarrow> i \<le> length s \<and> starts_with p (drop i s)"
  by (induction s arbitrary: i) (auto split: if_splits)

lemma find_sub_None_iff: "find_sub p s = None \<longleftrightarrow> (\<nexists>a b. s = a @ p @ b)"
proof (induction s)
  case (Cons x xs)
  have "(\<exists>a b. x # xs = a @ p @ b) \<longleftrightarrow> starts_with p (x # xs) \<or> (\<exists>a b. xs = a @ p @ b)"
    by (metis append_Cons append_Nil list.inject neq_Nil_conv starts_with_iff)
  with Cons show ?case by simp
qed auto

lemma find_sub_here [simp]: "find_sub p (p @ s) = Some 0"
  by (cases "p @ s") (auto, metis starts_with_append)

text \<open>No occurrence of \<open>p\<close> starts inside \<open>pre\<close> when \<open>rest\<close> follows it.\<close>

definition no_start :: "string \<Rightarrow> string \<Rightarrow> string \<Rightarrow> bool" where
  "no_start p pre rest = (\<forall>i < length pre. \<not> starts_with p (drop i pre @ rest))"

lemma no_start_Nil [simp]: "no_start p [] rest"
  by (simp add: no_start_def)

lemma no_start_Cons [simp]:
  "no_start p (c # pre) rest \<longleftrightarrow> \<not> starts_with p (c # pre @ rest) \<and> no_start p pre rest"
  unfolding no_start_def by (auto simp: less_Suc_eq_0_disj)

lemma no_start_append [simp]:
  "no_start p (a @ b) rest \<longleftrightarrow> no_start p a (b @ rest) \<and> no_start p b rest"
  by (induction a) auto

lemma no_start_notin: "p \<noteq> [] \<Longrightarrow> hd p \<notin> set pre \<Longrightarrow> no_start p pre rest"
  by (induction pre) (auto simp: neq_Nil_conv)

lemma find_sub_no_start:
  "no_start p pre rest \<Longrightarrow>
     find_sub p (pre @ rest) = map_option (\<lambda>i. length pre + i) (find_sub p rest)"
proof (induction pre)
  case Nil
  show ?case by (simp add: option.map_ident)
next
  case (Cons x xs)
  then show ?case by (auto simp: option.map_comp o_def)
qed

lemma find_sub_at: "no_start p pre (p @ s) \<Longrightarrow> find_sub p (pre @ p @ s) = Some (length pre)"
  by (simp add: find_sub_no_start)


section \<open>Lemmas on trimming\<close>

abbreviation blank :: "char \<Rightarrow> bool" where
  "blank c \<equiv> c = CHR '' '' \<or> c = TAB"

lemma erase_front_dropWhile:
  "erase_front s (find_first_not_of cs s) = dropWhile (\<lambda>c. c \<in> set cs) s"
  by (induction s) (auto simp: erase_front_def split: option.splits)

lemma find_last_not_of_None: "find_last_not_of cs s = None \<longleftrightarrow> set s \<subseteq> set cs"
  by (induction s) (auto split: option.splits)

lemma find_last_not_of_SomeD: "find_last_not_of cs s = Some i \<Longrightarrow> \<not> set s \<subseteq> set cs"
  by (metis find_last_not_of_None option.distinct(1))

lemma keep_upto_Cons:
  "keep_upto (x # xs) (find_last_not_of cs (x # xs)) =
     (if set (x # xs) \<subseteq> set cs then [] else x # keep_upto xs (find_last_not_of cs xs))"
proof (cases "find_last_not_of cs xs")
  case None
  moreover from None have "set xs \<subseteq> set cs" by (simp add: find_last_not_of_None)
  ultimately show ?thesis by (auto simp: keep_upto_def)
next
  case (Some i)
  then show ?thesis by (auto simp: keep_upto_def dest: find_last_not_of_SomeD)
qed

lemma dropWhile_rev_snoc:
  "rev (dropWhile P (rev xs @ [x])) =
     (if list_all P (x # xs) then [] else x # rev (dropWhile P (rev xs)))"
proof (cases "list_all P xs")
  case True
  then have "dropWhile P (rev xs) = []" by (simp add: list_all_iff)
  with True show ?thesis by (simp add: dropWhile_append list_all_iff)
next
  case False
  then obtain y where "y \<in> set (rev xs)" "\<not> P y" by (auto simp: list_all_iff)
  then have "dropWhile P (rev xs @ [x]) = dropWhile P (rev xs) @ [x]"
    by (rule dropWhile_append1)
  with False show ?thesis by simp
qed

lemma keep_upto_rev:
  "keep_upto s (find_last_not_of cs s) = rev (dropWhile (\<lambda>c. c \<in> set cs) (rev s))"
proof (induction s)
  case Nil
  show ?case by (simp add: keep_upto_def)
next
  case (Cons x xs)
  have "list_all (\<lambda>c. c \<in> set cs) (x # xs) \<longleftrightarrow> set (x # xs) \<subseteq> set cs"
    by (auto simp: list_all_iff)
  then show ?case
    by (simp only: keep_upto_Cons Cons.IH rev.simps dropWhile_rev_snoc split: if_splits)
qed

lemma trim_eq: "trim s = rev (dropWhile blank (rev (dropWhile blank s)))"
  by (simp add: trim_def Let_def erase_front_dropWhile keep_upto_rev)

text \<open>A string that starts and ends with a non-blank character is left as it is.\<close>

definition trimmed :: "string \<Rightarrow> bool" where
  "trimmed s = (s = [] \<or> \<not> blank (hd s) \<and> \<not> blank (last s))"

lemma dropWhile_hd: "s = [] \<or> \<not> P (hd s) \<Longrightarrow> dropWhile P s = s"
  by (cases s) auto

lemma hd_dropWhile_neg: "dropWhile P s = [] \<or> \<not> P (hd (dropWhile P s))"
  by (meson hd_dropWhile)

lemma trim_trimmed [simp]:
  assumes "trimmed s"
  shows "trim s = s"
proof -
  from assms have "dropWhile blank s = s" by (intro dropWhile_hd) (auto simp: trimmed_def)
  moreover from assms have "dropWhile blank (rev s) = rev s"
    by (intro dropWhile_hd) (auto simp: trimmed_def hd_rev)
  ultimately show ?thesis by (simp add: trim_eq)
qed

lemma trimmed_trim [simp]: "trimmed (trim s)"
proof -
  define t where "t = dropWhile blank s"
  define u where "u = dropWhile blank (rev t)"
  have eq: "trim s = rev u" by (simp add: trim_eq t_def u_def)
  show ?thesis
  proof (cases "u = []")
    case True
    then show ?thesis by (simp add: eq trimmed_def)
  next
    case False
    obtain w where w: "rev t = w @ u"
      by (metis u_def takeWhile_dropWhile_id)
    then have t: "t = rev u @ rev w" by (metis rev_append rev_rev_ident)
    with False have "t \<noteq> []" "hd t = hd (rev u)" by auto
    then have "\<not> blank (hd (rev u))" using hd_dropWhile_neg [of blank s] t_def by metis
    moreover have "\<not> blank (last (rev u))"
      using False hd_dropWhile_neg [of blank "rev t"] u_def by (metis last_rev)
    ultimately show ?thesis by (simp add: eq trimmed_def)
  qed
qed

lemma trim_idem [simp]: "trim (trim s) = trim s"
  by simp

lemma set_trim: "set (trim s) \<subseteq> set s"
  by (auto simp: trim_eq dest!: set_dropWhileD)


section \<open>Lemmas on decimal numbers\<close>

lemma code_digit_char: "d < 10 \<Longrightarrow> code (digit_char d) = 48 + d"
  by (simp add: digit_char_def)

lemma is_digit_digit_char [simp]: "d < 10 \<Longrightarrow> is_digit (digit_char d)"
  by (simp add: is_digit_def code_digit_char)

lemma digit_val_digit_char [simp]: "d < 10 \<Longrightarrow> digit_val (digit_char d) = d"
  by (simp add: digit_val_def code_digit_char)

lemma show_nat_digits [show_simps]: "c \<in> set (show_nat n) \<Longrightarrow> is_digit c"
proof (induction n rule: show_nat.induct)
  case (1 n)
  then show ?case by (subst (asm) show_nat.simps) (auto split: if_splits)
qed

lemma show_nat_not_Nil [simp]: "show_nat n \<noteq> []"
  by (subst show_nat.simps) simp

lemma length_show_nat: "n < 10 ^ Suc k \<Longrightarrow> length (show_nat n) \<le> Suc k"
proof (induction k arbitrary: n)
  case 0
  then show ?case by (subst show_nat.simps) simp
next
  case (Suc k)
  show ?case
  proof (cases "n < 10")
    case True
    then show ?thesis by (subst show_nat.simps) simp
  next
    case False
    have "n div 10 < 10 ^ Suc k" using Suc.prems by (intro less_mult_imp_div_less) simp
    from Suc.IH [OF this] False show ?thesis by (subst show_nat.simps) simp
  qed
qed

lemma read_digits_snoc: "read_digits (ds @ [d]) = 10 * read_digits ds + digit_val d"
  by (simp add: read_digits_def)

lemma read_digits_show_nat [simp]: "read_digits (show_nat n) = n"
proof (induction n rule: show_nat.induct)
  case (1 n)
  show ?case
  proof (cases "n < 10")
    case True
    then show ?thesis by (subst show_nat.simps) (simp add: read_digits_def)
  next
    case False
    with 1 show ?thesis by (subst show_nat.simps) (simp add: read_digits_snoc)
  qed
qed

lemma show_nat_inject [simp]: "show_nat m = show_nat n \<longleftrightarrow> m = n"
  by (metis read_digits_show_nat)

lemma digit_not_space: "is_digit c \<Longrightarrow> \<not> is_space c"
  by (auto simp: is_digit_def is_space_def)

lemma digit_not_sign: "is_digit c \<Longrightarrow> c \<noteq> CHR ''-'' \<and> c \<noteq> CHR ''+''"
  by (auto simp: is_digit_def)

lemma takeWhile_show_nat [simp]: "takeWhile is_digit (show_nat n) = show_nat n"
  by (simp add: takeWhile_eq_all_conv show_nat_digits)

lemma strtol_raw_show_nat: "strtol_raw (show_nat n) = Some (int n)"
proof -
  obtain c cs where eq: "show_nat n = c # cs" by (metis list.exhaust show_nat_not_Nil)
  then have c: "is_digit c" by (metis list.set_intros(1) show_nat_digits)
  have "dropWhile is_space (show_nat n) = show_nat n" using c eq digit_not_space by simp
  moreover have "(case show_nat n of [] \<Rightarrow> [] | d # r \<Rightarrow>
      if d = CHR ''-'' \<or> d = CHR ''+'' then r else show_nat n) = show_nat n"
    "(case show_nat n of d # _ \<Rightarrow> d = CHR ''-'' | [] \<Rightarrow> False) = False"
    using eq digit_not_sign [OF c] by simp_all
  ultimately show ?thesis by (simp only: strtol_raw_def Let_def takeWhile_show_nat) simp
qed

lemma strtol_raw_to_string [show_simps]: "strtol_raw (to_string i) = Some i"
proof (cases "i < 0")
  case True
  have "\<not> is_space (CHR ''-'')" by (simp add: is_space_def)
  with True show ?thesis by (simp add: to_string_def strtol_raw_def Let_def)
next
  case False
  then show ?thesis by (simp add: to_string_def strtol_raw_show_nat)
qed

lemma wrap32_id [simp]: "in_int32 i \<Longrightarrow> wrap32 i = i"
  by (simp add: wrap32_def in_int32_def)

lemma in_int32_wrap32 [simp]: "in_int32 (wrap32 i)"
proof -
  have "0 \<le> (i + 2 ^ 31) mod (2 ^ 32 :: int)" "(i + 2 ^ 31) mod (2 ^ 32 :: int) < 2 ^ 32"
    by simp_all
  then show ?thesis by (simp add: wrap32_def in_int32_def)
qed

lemma clamp64_id: "in_int32 i \<Longrightarrow> clamp64 i = i"
  by (simp add: clamp64_def in_int32_def)

lemma atoi_to_string [show_simps]: "in_int32 i \<Longrightarrow> atoi (to_string i) = i"
  by (simp add: atoi_def atol_def strtol_def strtol_raw_to_string clamp64_id)

lemma stoi_to_string [show_simps]: "in_int32 i \<Longrightarrow> stoi (to_string i) = Inr i"
  by (simp add: stoi_def strtol_raw_to_string)

lemma in_int32_atoi [simp]: "in_int32 (atoi s)"
  by (simp add: atoi_def)

lemma to_string_inject [simp]: "to_string i = to_string j \<longleftrightarrow> i = j"
  by (metis option.inject strtol_raw_to_string)

lemma to_string_chars: "c \<in> set (to_string i) \<Longrightarrow> is_digit c \<or> c = CHR ''-''"
  by (auto simp: to_string_def show_nat_digits split: if_splits)

lemma to_string_not_Nil [simp]: "to_string i \<noteq> []"
  by (simp add: to_string_def)


section \<open>Lemmas on case folding and words\<close>

lemma to_lower_idem [simp]: "to_lower (to_lower c) = to_lower c"
  by (auto simp: to_lower_def)

lemma Lower_idem [simp]: "Lower (Lower s) = Lower s"
  by (simp add: Lower_def)

lemma length_Lower [simp]: "length (Lower s) = length s"
  by (simp add: Lower_def)

lemma Lower_Nil_iff [simp]: "Lower s = [] \<longleftrightarrow> s = []"
  by (simp add: Lower_def)

lemma tokens_acc_word:
  "list_all (\<lambda>c. \<not> is_space c) w \<Longrightarrow> tokens_acc v (w @ r) = tokens_acc (rev w @ v) r"
  by (induction w arbitrary: v) auto

lemma tokens_acc_wf:
  "list_all (\<lambda>c. \<not> is_space c) w \<Longrightarrow> t \<in> set (tokens_acc w s) \<Longrightarrow>
     t \<noteq> [] \<and> list_all (\<lambda>c. \<not> is_space c) t"
  by (induction w s rule: tokens_acc.induct) (auto split: if_splits)

text \<open>A word is not empty and has no white space in it.\<close>

definition is_word :: "string \<Rightarrow> bool" where
  "is_word w = (w \<noteq> [] \<and> list_all (\<lambda>c. \<not> is_space c) w)"

lemma tokens_words: "w \<in> set (tokens s) \<Longrightarrow> is_word w"
  using tokens_acc_wf [of "[]" w s] by (auto simp: tokens_def is_word_def)

lemma tokens_Nil [simp]: "tokens [] = []"
  by (simp add: tokens_def)

lemma is_space_blank [simp]: "is_space (CHR '' '')"
  by (simp add: is_space_def)

lemma tokens_word [simp]: "is_word w \<Longrightarrow> tokens w = [w]"
  using tokens_acc_word [of w "[]" "[]"] by (simp add: tokens_def is_word_def)

lemma tokens_word_space [simp]:
  "is_word w \<Longrightarrow> tokens (w @ CHR '' '' # s) = w # tokens s"
  using tokens_acc_word [of w "[]" "CHR '' '' # s"] by (simp add: tokens_def is_word_def)

text \<open>The words joined by single blanks, as the command handlers rebuild them.\<close>

fun join_words :: "string list \<Rightarrow> string" where
  "join_words [] = []"
| "join_words [w] = w"
| "join_words (w # v # ws) = w @ CHR '' '' # join_words (v # ws)"

lemma tokens_join_words: "list_all is_word ws \<Longrightarrow> tokens (join_words ws) = ws"
  by (induction ws rule: join_words.induct) auto

lemma getlines_acc_line:
  "LF \<notin> set l \<Longrightarrow> getlines_acc v (l @ r) = getlines_acc (rev l @ v) r"
  by (induction l arbitrary: v) auto

lemma getlines_Nil [simp]: "getlines [] = []"
  by (simp add: getlines_def)

lemma getlines_line [simp]: "LF \<notin> set l \<Longrightarrow> getlines (l @ LF # s) = l # getlines s"
  using getlines_acc_line [of l "[]" "LF # s"] by (simp add: getlines_def)

lemma getlines_acc_no_LF: "LF \<notin> set w \<Longrightarrow> l \<in> set (getlines_acc w s) \<Longrightarrow> LF \<notin> set l"
  by (induction w s rule: getlines_acc.induct) (auto split: if_splits)

lemma getlines_no_LF: "l \<in> set (getlines s) \<Longrightarrow> LF \<notin> set l"
  using getlines_acc_no_LF [of "[]"] by (simp add: getlines_def)

end
