(* ===== verification/Json.thy ===== *)
theory Json
  imports Prelude
begin

text \<open>
  The JSON helpers of \<^verbatim>\<open>src/src/utils/json.h\<close>: \<^verbatim>\<open>Escape\<close> prints a string literal's
  contents, \<^verbatim>\<open>FindValue\<close> locates the value of a key by a textual search, and
  \<^verbatim>\<open>GetString\<close>, \<^verbatim>\<open>GetNumber\<close>, \<^verbatim>\<open>GetInt\<close> and \<^verbatim>\<open>GetBool\<close> read it. A getter that returns
  \<^verbatim>\<open>false\<close> and leaves its out-parameter alone is \<^term>\<open>None\<close>. The main result is the round
  trip of \<open>Escape\<close> and \<open>GetString\<close>; the search lemmas say when \<open>FindValue\<close> finds the
  intended key.
\<close>

section \<open>Printing\<close>

fun Escape_char :: "char \<Rightarrow> string" where
  "Escape_char c =
     (if c = QUOTE then [BSLASH, QUOTE]
      else if c = BSLASH then [BSLASH, BSLASH]
      else if c = LF then [BSLASH, CHR ''n'']
      else if c = CR then [BSLASH, CHR ''r'']
      else if c = TAB then [BSLASH, CHR ''t'']
      else if code c < 32 then []
      else [c])"

fun Escape :: "string \<Rightarrow> string" where
  "Escape [] = []"
| "Escape (c # s) = Escape_char c @ Escape s"


section \<open>Reading\<close>

definition skip_blank :: "string \<Rightarrow> nat \<Rightarrow> nat" where
  "skip_blank body i = i + length (takeWhile (\<lambda>c. blank c) (drop i body))"

definition FindValue :: "string \<Rightarrow> string \<Rightarrow> nat option" where
  "FindValue body key =
     (let quoted = [QUOTE] @ key @ [QUOTE]
      in case find_sub quoted body of
           None \<Rightarrow> None
         | Some keyPos \<Rightarrow>
             (case find_from body (CHR '':'') (keyPos + length quoted) of
                None \<Rightarrow> None
              | Some colon \<Rightarrow> Some (skip_blank body (colon + 1))))"

fun Unescape_char :: "char \<Rightarrow> char" where
  "Unescape_char c =
     (if c = CHR ''n'' then LF
      else if c = CHR ''r'' then CR
      else if c = CHR ''t'' then TAB
      else if c = CHR ''b'' then CHR 0x08
      else if c = CHR ''f'' then CHR 0x0C
      else c)"

text \<open>The loop of \<^verbatim>\<open>GetString\<close> on the text after the opening quote.\<close>

fun scan_string :: "string \<Rightarrow> string" where
  "scan_string [] = []"
| "scan_string [c] = (if c = QUOTE then [] else [c])"
| "scan_string (c # d # s) =
     (if c = QUOTE then []
      else if c = BSLASH then Unescape_char d # scan_string s
      else c # scan_string (d # s))"

definition GetString :: "string \<Rightarrow> string \<Rightarrow> string option" where
  "GetString body key =
     (case FindValue body key of
        None \<Rightarrow> None
      | Some i \<Rightarrow> (if i \<ge> length body \<or> body ! i \<noteq> QUOTE then None
                  else Some (scan_string (drop (i + 1) body))))"

definition num_char :: "char \<Rightarrow> bool" where
  "num_char c = (is_digit c \<or> c = CHR ''.'' \<or> c = CHR ''-'')"

definition GetNumber :: "string \<Rightarrow> string \<Rightarrow> string option" where
  "GetNumber body key =
     (case FindValue body key of
        None \<Rightarrow> None
      | Some i \<Rightarrow> (let num = takeWhile num_char (drop i body)
                  in if num = [] then None else Some num))"

definition GetInt :: "string \<Rightarrow> string \<Rightarrow> int option" where
  "GetInt body key =
     (case GetNumber body key of
        None \<Rightarrow> None
      | Some num \<Rightarrow> (case stoi num of Inl _ \<Rightarrow> None | Inr i \<Rightarrow> Some i))"

definition GetBool :: "string \<Rightarrow> string \<Rightarrow> bool option" where
  "GetBool body key =
     (case FindValue body key of
        None \<Rightarrow> None
      | Some i \<Rightarrow> (if substr body i 4 = ''true'' then Some True
                  else if substr body i 5 = ''false'' then Some False
                  else None))"

text \<open>
  A getter called with a default in its out-parameter, as in
  \<^verbatim>\<open>std::string reason = "..."; Json::GetString(body, "reason", reason);\<close>.
\<close>

definition GetString_or :: "string \<Rightarrow> string \<Rightarrow> string \<Rightarrow> string" where
  "GetString_or body key dflt = (case GetString body key of None \<Rightarrow> dflt | Some v \<Rightarrow> v)"

definition GetInt_or :: "string \<Rightarrow> string \<Rightarrow> int \<Rightarrow> int" where
  "GetInt_or body key dflt = (case GetInt body key of None \<Rightarrow> dflt | Some v \<Rightarrow> v)"


section \<open>Escape and scan\<close>

declare Escape_char.simps [simp del]

text \<open>The characters that survive printing: no control character but LF, CR and TAB.\<close>

definition printable :: "char \<Rightarrow> bool" where
  "printable c = (code c \<ge> 32 \<or> c = LF \<or> c = CR \<or> c = TAB)"

lemma Escape_append [simp]: "Escape (s @ t) = Escape s @ Escape t"
  by (induction s) auto

lemma scan_string_plain:
  "c \<noteq> QUOTE \<Longrightarrow> c \<noteq> BSLASH \<Longrightarrow> scan_string (c # s) = c # scan_string s"
  by (cases s) auto

lemma scan_string_quote [simp]: "scan_string (QUOTE # s) = []"
  by (cases s) auto

lemma scan_Escape_char:
  "scan_string (Escape_char c @ s) = (if printable c then c # scan_string s else scan_string s)"
  by (auto simp: Escape_char.simps printable_def scan_string_plain)

lemma scan_Escape: "scan_string (Escape v @ QUOTE # s) = filter printable v"
  by (induction v) (simp_all only: Escape.simps append_assoc scan_Escape_char append_Nil
      scan_string_quote filter.simps)

text \<open>No byte below 32 and, outside an escape pair, no quote appears in printed text.\<close>

lemma Escape_no_control: "c \<in> set (Escape s) \<Longrightarrow> 32 \<le> code c"
  by (induction s) (auto simp: Escape_char.simps split: if_splits)

fun unescaped_quote :: "string \<Rightarrow> bool" where
  "unescaped_quote [] = False"
| "unescaped_quote [c] = (c = QUOTE \<or> c = BSLASH)"
| "unescaped_quote (c # d # s) =
     (if c = BSLASH then unescaped_quote s else c = QUOTE \<or> unescaped_quote (d # s))"

lemma unescaped_quote_plain:
  "c \<noteq> BSLASH \<Longrightarrow> unescaped_quote (c # s) = (c = QUOTE \<or> unescaped_quote s)"
  by (cases s) auto

lemma unescaped_quote_Escape_char: "unescaped_quote (Escape_char c @ s) = unescaped_quote s"
  by (auto simp: Escape_char.simps unescaped_quote_plain)

lemma Escape_no_unescaped_quote: "\<not> unescaped_quote (Escape s)"
  by (induction s) (auto simp: unescaped_quote_Escape_char)

lemma set_Escape_char: "set (Escape_char c) \<subseteq> {c, BSLASH, QUOTE, CHR ''n'', CHR ''r'', CHR ''t''}"
  by (simp add: Escape_char.simps)

lemma set_Escape: "set (Escape s) \<subseteq> set s \<union> {BSLASH, QUOTE, CHR ''n'', CHR ''r'', CHR ''t''}"
  using set_Escape_char by (induction s) fastforce+

lemma Escape_notin: "c \<notin> set s \<Longrightarrow> c \<noteq> BSLASH \<Longrightarrow> c \<noteq> QUOTE \<Longrightarrow> c \<noteq> CHR ''n'' \<Longrightarrow>
    c \<noteq> CHR ''r'' \<Longrightarrow> c \<noteq> CHR ''t'' \<Longrightarrow> c \<notin> set (Escape s)"
  using set_Escape by fastforce


section \<open>Locating a value\<close>

lemma skip_blank_le: "i \<le> length body \<Longrightarrow> i \<le> skip_blank body i \<and> skip_blank body i \<le> length body"
  using length_takeWhile_le [of "\<lambda>c. blank c" "drop i body"] by (auto simp: skip_blank_def)

lemma FindValue_le: "FindValue body key = Some i \<Longrightarrow> i \<le> length body"
  by (auto simp: FindValue_def Let_def dest!: find_from_bounds skip_blank_le [THEN conjunct2, rotated]
      split: option.splits intro: skip_blank_le [THEN conjunct2])

text \<open>
  The value of a key that sits in \<open>pre @ "key" : value\<close> is found there when the quoted
  key does not occur before.
\<close>

lemma FindValue_here:
  assumes "find_sub ([QUOTE] @ key @ [QUOTE]) (pre @ [QUOTE] @ key @ [QUOTE, CHR '':''] @ v) =
      Some (length pre)"
    and "v = [] \<or> \<not> blank (hd v)"
  shows "FindValue (pre @ [QUOTE] @ key @ [QUOTE, CHR '':''] @ v) key =
      Some (length (pre @ [QUOTE] @ key @ [QUOTE, CHR '':'']))"
proof -
  let ?key = "pre @ [QUOTE] @ key @ [QUOTE]"
  let ?body = "pre @ [QUOTE] @ key @ [QUOTE, CHR '':''] @ v"
  have "?body = ?key @ CHR '':'' # v" by simp
  then have colon: "find_from ?body (CHR '':'') (length ?key) = Some (length ?key)"
    by (simp only: find_from_def append_eq_conv_conj [THEN iffD1, OF refl] drop_append) simp
  have "drop (length ?key + 1) ?body = v"
    using drop_past [of ?key "CHR '':''" v] by (simp only: append_assoc append_Cons append_Nil)
  moreover have "takeWhile (\<lambda>c. blank c) v = []" using assms(2) by (cases v) auto
  ultimately have "skip_blank ?body (length ?key + 1) = length ?key + 1"
    by (simp add: skip_blank_def)
  moreover have "length pre + length ([QUOTE] @ key @ [QUOTE]) = length ?key" by simp
  ultimately show ?thesis
    using assms(1) colon by (simp add: FindValue_def Let_def)
qed

lemma GetString_here:
  assumes "find_sub ([QUOTE] @ key @ [QUOTE])
      (pre @ [QUOTE] @ key @ [QUOTE, CHR '':''] @ QUOTE # Escape v @ QUOTE # s) = Some (length pre)"
  shows "GetString (pre @ [QUOTE] @ key @ [QUOTE, CHR '':''] @ QUOTE # Escape v @ QUOTE # s) key =
      Some (filter printable v)"
proof -
  let ?key = "pre @ [QUOTE] @ key @ [QUOTE, CHR '':'']"
  let ?body = "?key @ QUOTE # Escape v @ QUOTE # s"
  have "FindValue ?body key = Some (length ?key)"
    using FindValue_here [OF assms] by simp
  moreover have "length ?key < length ?body" by simp
  moreover have "?body ! length ?key = QUOTE" by (rule nth_append_length)
  moreover have "drop (length ?key + 1) ?body = Escape v @ QUOTE # s" by (rule drop_past)
  ultimately have "GetString ?body key = Some (scan_string (Escape v @ QUOTE # s))"
    by (simp only: GetString_def option.case not_le [symmetric]) simp
  then show ?thesis by (simp add: scan_Escape)
qed


section \<open>Objects of string fields\<close>

text \<open>
  The objects the program prints (\<^verbatim>\<open>bans.json\<close>, the ban list, error bodies) are
  comma-separated string fields between braces. \<open>json_fields\<close> is that text; the lemmas say
  what \<open>GetString\<close> reads back. The textual search of \<open>FindValue\<close> can stop at a value
  that equals the key or ends with a quote followed by the key, so \<open>hides_key\<close> is a side
  condition on the values printed before the one sought.
\<close>

definition json_field :: "string \<Rightarrow> string \<Rightarrow> string" where
  "json_field k v = [QUOTE] @ k @ [QUOTE, CHR '':'', QUOTE] @ Escape v @ [QUOTE]"

fun json_fields :: "(string \<times> string) list \<Rightarrow> string" where
  "json_fields [] = []"
| "json_fields [(k, v)] = json_field k v"
| "json_fields ((k, v) # f # fs) = json_field k v @ CHR '','' # json_fields (f # fs)"

definition json_object :: "(string \<times> string) list \<Rightarrow> string" where
  "json_object fs = CHR ''{'' # json_fields fs @ ''}''"

definition plain_key :: "string \<Rightarrow> bool" where
  "plain_key k = (k \<noteq> [] \<and> QUOTE \<notin> set k \<and> BSLASH \<notin> set k \<and> hd k \<noteq> CHR '':'' \<and>
     hd k \<noteq> CHR '','' \<and> hd k \<noteq> CHR ''}'')"

definition ends_with :: "string \<Rightarrow> string \<Rightarrow> bool" where
  "ends_with p s = starts_with (rev p) (rev s)"

definition hides_key :: "string \<Rightarrow> string \<Rightarrow> bool" where
  "hides_key k v = ends_with (QUOTE # k) (QUOTE # Escape v)"

lemma ends_with_iff: "ends_with p s \<longleftrightarrow> (\<exists>r. s = r @ p)"
  unfolding ends_with_def starts_with_iff by (metis rev_append rev_rev_ident)

lemma Escape_quote_preceded:
  "Escape v = a @ QUOTE # b \<Longrightarrow> a \<noteq> [] \<and> last a = BSLASH"
proof (induction v arbitrary: a)
  case Nil
  then show ?case by simp
next
  case (Cons c v)
  then have "Escape_char c @ Escape v = a @ QUOTE # b" by simp
  then consider us where "Escape_char c = a @ us" "us @ Escape v = QUOTE # b" "us \<noteq> []"
    | us where "a = Escape_char c @ us" "Escape v = us @ QUOTE # b"
    unfolding append_eq_append_conv2 by (metis append_Nil append_Nil2)
  then show ?case
  proof cases
    case 1
    then obtain us' where "Escape_char c = a @ QUOTE # us'" by (cases us) auto
    then show ?thesis
      by (auto simp: Escape_char.simps append_eq_Cons_conv Cons_eq_append_conv split: if_splits)
  next
    case 2
    from Cons.IH [OF 2(2)] 2(1) show ?thesis by simp
  qed
qed

lemma quoted_key_eq:
  assumes "QUOTE \<notin> set k" "QUOTE \<notin> set k'"
  shows "starts_with (k @ [QUOTE]) (k' @ QUOTE # s) \<longleftrightarrow> k = k'"
  using assms by (induction k arbitrary: k') (case_tac k'; auto)+

lemma no_start_value:
  assumes k: "plain_key k" and hide: "\<not> hides_key k v"
  shows "no_start ([QUOTE] @ k @ [QUOTE]) (QUOTE # Escape v) (QUOTE # rest)"
  unfolding no_start_def
proof (intro allI impI notI)
  fix i
  let ?t = "drop i (QUOTE # Escape v)"
  assume i: "i < length (QUOTE # Escape v)"
    and "starts_with ([QUOTE] @ k @ [QUOTE]) (drop i (QUOTE # Escape v) @ QUOTE # rest)"
  then obtain r where eq: "?t @ QUOTE # rest = QUOTE # k @ QUOTE # r"
    by (auto simp: starts_with_iff)
  have "?t \<noteq> []" using i by simp
  with eq obtain t where t: "?t = QUOTE # t" by (metis append_Cons list.exhaust list.inject)
  with eq have eq': "t @ QUOTE # rest = k @ QUOTE # r" by simp
  have "QUOTE \<notin> set k" using k by (simp add: plain_key_def)
  with eq' consider "t = k" | u where "t = k @ QUOTE # u"
    by (auto simp: append_eq_append_conv2 Cons_eq_append_conv append_eq_Cons_conv)
  then show False
  proof cases
    case 1
    with t have "QUOTE # Escape v = take i (QUOTE # Escape v) @ QUOTE # k"
      by (metis append_take_drop_id)
    with hide show False unfolding hides_key_def ends_with_iff by metis
  next
    case 2
    with t obtain p where p: "QUOTE # Escape v = (p @ QUOTE # k) @ QUOTE # u"
      by (metis append.assoc append_Cons append_take_drop_id)
    then obtain a where a: "p @ QUOTE # k = QUOTE # a" "Escape v = a @ QUOTE # u"
      by (cases p) auto
    from Escape_quote_preceded [OF a(2)] a(1) have "last (p @ QUOTE # k) = BSLASH" by simp
    with k show False by (auto simp: plain_key_def split: if_splits dest: last_in_set)
  qed
qed

lemma no_start_field:
  assumes "plain_key k" "plain_key k'" "k \<noteq> k'" "\<not> hides_key k v"
    and "rest \<noteq> []" "hd rest \<noteq> hd k"
  shows "no_start ([QUOTE] @ k @ [QUOTE]) (json_field k' v) rest"
proof -
  from assms(1,2) have q: "QUOTE \<notin> set k" "QUOTE \<notin> set k'" by (auto simp: plain_key_def)
  have A: "no_start ([QUOTE] @ k @ [QUOTE]) ([QUOTE] @ k' @ [QUOTE, CHR '':'']) s" for s
    using assms(1,3) q quoted_key_eq [OF q]
    by (cases k) (auto simp: plain_key_def intro!: no_start_notin)
  have B: "no_start ([QUOTE] @ k @ [QUOTE]) (QUOTE # Escape v) ([QUOTE] @ rest)"
    using no_start_value [OF assms(1,4)] by (simp only: append_Cons append_Nil)
  have C: "no_start ([QUOTE] @ k @ [QUOTE]) [QUOTE] rest"
    using assms(1,5,6) by (cases k; cases rest) (auto simp: plain_key_def)
  have eq: "json_field k' v = ([QUOTE] @ k' @ [QUOTE, CHR '':'']) @ (QUOTE # Escape v) @ [QUOTE]"
    by (simp add: json_field_def)
  show ?thesis unfolding eq no_start_append [of _ "[QUOTE] @ k' @ [QUOTE, CHR '':'']"]
      no_start_append [of _ "QUOTE # Escape v"]
    using A B C by blast
qed


text \<open>Reading a field of an object: the fields before it have other keys and do not hide it.\<close>

lemma find_key_fields:
  assumes "plain_key k" "list_all (\<lambda>(k', v'). plain_key k' \<and> k' \<noteq> k \<and> \<not> hides_key k v') pre"
  shows "\<exists>t s. json_fields (pre @ (k, v) # post) = t @ json_field k v @ s \<and>
           no_start ([QUOTE] @ k @ [QUOTE]) t (json_field k v @ s @ r) \<and> (s = [] \<or> hd s = CHR '','')"
  using assms(2)
proof (induction pre)
  case Nil
  show ?case
  proof (cases post)
    case Nil
    then show ?thesis by (intro exI [of _ "[]"]) simp
  next
    case (Cons f fs)
    then show ?thesis by (intro exI [of _ "[]"] exI [of _ "CHR '','' # json_fields post"]) simp
  qed
next
  case (Cons f pre)
  obtain k' v' where f: "f = (k', v')" by (cases f)
  from Cons obtain t s where ts: "json_fields (pre @ (k, v) # post) = t @ json_field k v @ s"
      "no_start ([QUOTE] @ k @ [QUOTE]) t (json_field k v @ s @ r)" "s = [] \<or> hd s = CHR '',''"
    by auto
  obtain g gs where g: "pre @ (k, v) # post = g # gs" by (cases "pre @ (k, v) # post") auto
  let ?t = "json_field k' v' @ CHR '','' # t"
  have "json_fields ((f # pre) @ (k, v) # post) = ?t @ json_field k v @ s"
    using ts(1) g by (simp add: f)
  moreover have "no_start ([QUOTE] @ k @ [QUOTE]) ?t (json_field k v @ s @ r)"
    using ts(2) Cons.prems assms(1) no_start_field [of k k' v' "CHR '','' # t @ json_field k v @ s @ r"]
    by (auto simp: f plain_key_def)
  ultimately show ?case using ts(3) by blast
qed

lemma GetString_object:
  assumes "plain_key k" "list_all (\<lambda>(k', v'). plain_key k' \<and> k' \<noteq> k \<and> \<not> hides_key k v') pre"
    and "QUOTE \<notin> set opening"
  shows "GetString (opening @ json_fields (pre @ (k, v) # post) @ r) k = Some (filter printable v)"
proof -
  from find_key_fields [OF assms(1,2)] obtain t s where
    ts: "json_fields (pre @ (k, v) # post) = t @ json_field k v @ s"
      "no_start ([QUOTE] @ k @ [QUOTE]) t (json_field k v @ s @ r)" by blast
  let ?pre = "opening @ t"
  have eq: "opening @ json_fields (pre @ (k, v) # post) @ r =
      ?pre @ [QUOTE] @ k @ [QUOTE, CHR '':''] @ QUOTE # Escape v @ QUOTE # s @ r"
    by (simp add: ts(1) json_field_def)
  have "no_start ([QUOTE] @ k @ [QUOTE]) ?pre (json_field k v @ s @ r)"
    using ts(2) assms(3) by (simp add: no_start_notin)
  then have "no_start ([QUOTE] @ k @ [QUOTE]) ?pre
      (([QUOTE] @ k @ [QUOTE]) @ CHR '':'' # QUOTE # Escape v @ QUOTE # s @ r)"
    by (simp add: json_field_def)
  from find_sub_at [OF this] show ?thesis
    unfolding eq by (intro GetString_here) simp
qed

lemma QUOTE_Escape_char: "QUOTE \<in> set (Escape_char c) \<longleftrightarrow> c = QUOTE"
  by (auto simp: Escape_char.simps)

lemma QUOTE_Escape [simp]: "QUOTE \<in> set (Escape v) \<longleftrightarrow> QUOTE \<in> set v"
  by (induction v) (auto simp: QUOTE_Escape_char)

lemma hides_key_plain:
  assumes "QUOTE \<notin> set v" "Escape v \<noteq> k" "k \<noteq> []"
  shows "\<not> hides_key k v"
proof
  assume "hides_key k v"
  then obtain r where r: "QUOTE # Escape v = r @ QUOTE # k"
    by (auto simp: hides_key_def ends_with_iff)
  with assms show False
    by (cases r) (auto, metis QUOTE_Escape in_set_conv_decomp)
qed


section \<open>Properties\<close>

text \<open>
  A string printed by \<open>Escape\<close> stays inside its literal: it holds no control
  character, and its quotes and backslashes only occur in escape pairs.
\<close>
lemma escape_stays_inside: "list_all (\<lambda>c. 32 \<le> code c) (Escape s) \<and> \<not> unescaped_quote (Escape s)"
  using Escape_no_control [of _ s] Escape_no_unescaped_quote [of s] by (simp add: list_all_iff)

text \<open>
  C39: Reading back a printed object: \<open>GetString\<close> returns the value a field was printed
  from, less the control characters printing drops, when the fields before it have other
  keys and no value that looks like the key to the textual search.
\<close>
theorem json_field_roundtrip:
  assumes "plain_key k" "list_all (\<lambda>(k', v'). plain_key k' \<and> k' \<noteq> k \<and> \<not> hides_key k v') pre"
  shows "GetString (json_object (pre @ (k, v) # post)) k = Some (filter printable v)"
  using GetString_object [OF assms, of "''{''" v post "''}''"] by (simp add: json_object_def)

theorem json_field_roundtrip_witness:
  "GetString (json_object [(''name'', ''A}'' @ [QUOTE, LF]), (''reason'', [BSLASH, QUOTE, CHR 0x07] @ ''x,'')]) ''reason'' =
     Some ([BSLASH, QUOTE] @ ''x,'')"
proof -
  have "GetString (json_object ([(''name'', ''A}'' @ [QUOTE, LF])] @ (''reason'', [BSLASH, QUOTE, CHR 0x07] @ ''x,'') # [])) ''reason'' =
      Some (filter printable ([BSLASH, QUOTE, CHR 0x07] @ ''x,''))"
    by (rule json_field_roundtrip)
      (simp_all add: plain_key_def hides_key_def ends_with_def Escape_char.simps)
  then show ?thesis by (simp add: printable_def)
qed

text \<open>
  The search for a key is textual: a value equal to the key hides the field, whatever
  its own value, because the first match is the value and the text after it does not start
  with the field's own colon.
\<close>
lemma json_value_hides_key:
  "GetString (json_object [(''name'', ''id''), (''x'', ''7''), (''id'', ''42'')]) ''id'' = Some ''7''"
  by (simp add: json_object_def json_field_def GetString_def FindValue_def find_from_def skip_blank_def
      Escape_char.simps starts_with_def Let_def)

end
