(* ===== verification/Config.thy ===== *)
theory Config
  imports Prelude
begin

text \<open>
  The settings of \<^verbatim>\<open>src/src/config/config.h\<close>: the four configuration structs, the parser
  \<^verbatim>\<open>APIConfig::Load\<close> with \<^verbatim>\<open>Apply\<close>, the printer \<^verbatim>\<open>APIConfig::Save\<close>, the secret
  generator and the start-up sequence that uses them. A file is its contents,
  \<^term>\<open>None\<close> when it cannot be opened; the bytes read from \<^verbatim>\<open>/dev/urandom\<close> are an argument.
  The results are the round trip of \<open>Save\<close> and \<open>Load\<close> and the stability of a
  configuration over restarts.
\<close>

section \<open>The structs\<close>

record RestConfig =
  rest_enabled :: bool
  rest_port :: int
  rest_bindAddress :: string
  rest_bearerToken :: string
  rest_ipWhitelist :: string

record RconConfig =
  rcon_enabled :: bool
  rcon_port :: int
  rcon_bindAddress :: string
  rcon_password :: string
  rcon_ipWhitelist :: string
  rcon_commandsPerMinute :: int
  rcon_commandBurst :: int
  rcon_maxFailedAuth :: int
  rcon_failWindowSeconds :: int
  rcon_banSeconds :: int
  rcon_maxConnections :: int

record DiscordConfig =
  discord_enabled :: bool
  discord_webhookUrl :: string
  discord_deathWebhookUrl :: string
  discord_username :: string

record APIConfig =
  enableLogging :: bool
  verboseLogging :: bool
  rest :: RestConfig
  rcon :: RconConfig
  discord :: DiscordConfig

definition default_rest :: RestConfig where
  "default_rest = \<lparr>rest_enabled = True, rest_port = 8080, rest_bindAddress = ''0.0.0.0'',
     rest_bearerToken = [], rest_ipWhitelist = []\<rparr>"

definition default_rcon :: RconConfig where
  "default_rcon = \<lparr>rcon_enabled = False, rcon_port = 27020, rcon_bindAddress = ''0.0.0.0'',
     rcon_password = [], rcon_ipWhitelist = [], rcon_commandsPerMinute = 60,
     rcon_commandBurst = 15, rcon_maxFailedAuth = 5, rcon_failWindowSeconds = 60,
     rcon_banSeconds = 300, rcon_maxConnections = 16\<rparr>"

definition default_discord :: DiscordConfig where
  "default_discord = \<lparr>discord_enabled = False, discord_webhookUrl = [],
     discord_deathWebhookUrl = [], discord_username = ''Dragonwilds''\<rparr>"

definition default_config :: APIConfig where
  "default_config = \<lparr>enableLogging = True, verboseLogging = True, rest = default_rest,
     rcon = default_rcon, discord = default_discord\<rparr>"


section \<open>Apply\<close>

definition ParseBool :: "string \<Rightarrow> bool" where
  "ParseBool value = (value = ''true'' \<or> value = ''1'')"

definition Bool :: "bool \<Rightarrow> string" where
  "Bool value = (if value then ''true'' else ''false'')"

definition Apply_rest :: "string \<Rightarrow> string \<Rightarrow> RestConfig \<Rightarrow> RestConfig" where
  "Apply_rest key value r =
     (if key = ''Enabled'' then r\<lparr>rest_enabled := ParseBool value\<rparr>
      else if key = ''Port'' then r\<lparr>rest_port := atoi value\<rparr>
      else if key = ''BindAddress'' then r\<lparr>rest_bindAddress := value\<rparr>
      else if key = ''BearerToken'' then r\<lparr>rest_bearerToken := value\<rparr>
      else if key = ''IPWhitelist'' then r\<lparr>rest_ipWhitelist := value\<rparr>
      else r)"

definition Apply_rcon :: "string \<Rightarrow> string \<Rightarrow> RconConfig \<Rightarrow> RconConfig" where
  "Apply_rcon key value r =
     (if key = ''Enabled'' then r\<lparr>rcon_enabled := ParseBool value\<rparr>
      else if key = ''Port'' then r\<lparr>rcon_port := atoi value\<rparr>
      else if key = ''BindAddress'' then r\<lparr>rcon_bindAddress := value\<rparr>
      else if key = ''Password'' then r\<lparr>rcon_password := value\<rparr>
      else if key = ''IPWhitelist'' then r\<lparr>rcon_ipWhitelist := value\<rparr>
      else if key = ''CommandsPerMinute'' then r\<lparr>rcon_commandsPerMinute := atoi value\<rparr>
      else if key = ''CommandBurst'' then r\<lparr>rcon_commandBurst := atoi value\<rparr>
      else if key = ''MaxFailedAuth'' then r\<lparr>rcon_maxFailedAuth := atoi value\<rparr>
      else if key = ''FailWindowSeconds'' then r\<lparr>rcon_failWindowSeconds := atoi value\<rparr>
      else if key = ''BanSeconds'' then r\<lparr>rcon_banSeconds := atoi value\<rparr>
      else if key = ''MaxConnections'' then r\<lparr>rcon_maxConnections := atoi value\<rparr>
      else r)"

definition Apply_discord :: "string \<Rightarrow> string \<Rightarrow> DiscordConfig \<Rightarrow> DiscordConfig" where
  "Apply_discord key value d =
     (if key = ''Enabled'' then d\<lparr>discord_enabled := ParseBool value\<rparr>
      else if key = ''WebhookUrl'' then d\<lparr>discord_webhookUrl := value\<rparr>
      else if key = ''DeathWebhookUrl'' then d\<lparr>discord_deathWebhookUrl := value\<rparr>
      else if key = ''Username'' then d\<lparr>discord_username := value\<rparr>
      else d)"

definition Apply :: "string \<Rightarrow> string \<Rightarrow> string \<Rightarrow> APIConfig \<Rightarrow> APIConfig" where
  "Apply sec key value c =
     (if sec = ''General'' then
        (if key = ''EnableLogging'' then c\<lparr>enableLogging := ParseBool value\<rparr>
         else if key = ''VerboseLogging'' then c\<lparr>verboseLogging := ParseBool value\<rparr>
         else c)
      else if sec = ''API'' then c\<lparr>rest := Apply_rest key value (rest c)\<rparr>
      else if sec = ''RCON'' then c\<lparr>rcon := Apply_rcon key value (rcon c)\<rparr>
      else if sec = ''Discord'' then c\<lparr>discord := Apply_discord key value (discord c)\<rparr>
      else c)"


section \<open>Load\<close>

definition strip_cr :: "string \<Rightarrow> string" where
  "strip_cr line = (if line \<noteq> [] \<and> last line = CR then butlast line else line)"

text \<open>One iteration of the loop of \<^verbatim>\<open>Load\<close>: the state is the section and the struct.\<close>

definition load_line :: "string \<times> APIConfig \<Rightarrow> string \<Rightarrow> string \<times> APIConfig" where
  "load_line st raw =
     (let (sec, c) = st; line = strip_cr raw
      in if line = [] \<or> hd line = CHR ''#'' \<or> hd line = CHR '';'' then st
         else if hd line = CHR ''['' then
           (case find_char (CHR '']'') line of
              None \<Rightarrow> (drop 1 line, c)
            | Some close \<Rightarrow> (substr line 1 (close - 1), c))
         else
           (case find_char (CHR ''='') line of
              None \<Rightarrow> st
            | Some pos \<Rightarrow> (sec, Apply sec (trim (substr line 0 pos)) (trim (drop (pos + 1) line)) c)))"

definition Load :: "string option \<Rightarrow> APIConfig \<Rightarrow> bool \<times> APIConfig" where
  "Load file c =
     (case file of
        None \<Rightarrow> (False, c)
      | Some text \<Rightarrow> (True, snd (foldl load_line ([], c) (getlines text))))"


section \<open>Save\<close>

text \<open>The lines \<^verbatim>\<open>Save\<close> writes, in order; each is followed by a line feed.\<close>

definition kv :: "string \<Rightarrow> string \<Rightarrow> string" where
  "kv key value = key @ CHR ''='' # value"

definition Save_general :: "APIConfig \<Rightarrow> string list" where
  "Save_general c =
    [''# RSDWRestAPI configuration'',
     ''# Generated automatically - edit as needed, then restart the server.'',
     [],
     ''[General]'',
     kv ''EnableLogging'' (Bool (enableLogging c)),
     ''# Logs every discovery step and every request. Leave on unless the volume hurts.'',
     kv ''VerboseLogging'' (Bool (verboseLogging c)),
     []]"

definition Save_rest :: "RestConfig \<Rightarrow> string list" where
  "Save_rest r =
    [''[API]'',
     ''# Set to false to disable the REST API.'',
     kv ''Enabled'' (Bool (rest_enabled r)),
     ''# Bind to 127.0.0.1 to restrict to localhost only (recommended).'',
     kv ''BindAddress'' (rest_bindAddress r),
     kv ''Port'' (to_string (rest_port r)),
     ''# Bearer token for authentication. Leave it empty to disable auth entirely -'',
     ''# an empty value is kept as written, not regenerated on the next start.'',
     kv ''BearerToken'' (rest_bearerToken r),
     ''# Comma separated addresses and CIDR blocks. Empty allows everyone.'',
     kv ''IPWhitelist'' (rest_ipWhitelist r),
     []]"

definition Save_rcon :: "RconConfig \<Rightarrow> string list" where
  "Save_rcon r =
    [''[RCON]'',
     ''# Source RCON, off by default. Set to true to enable it; the password'',
     ''# below was generated on first run and is ready to use.'',
     kv ''Enabled'' (Bool (rcon_enabled r)),
     kv ''BindAddress'' (rcon_bindAddress r),
     kv ''Port'' (to_string (rcon_port r)),
     ''# An empty password keeps RCON from starting at all, by design.'',
     kv ''Password'' (rcon_password r),
     ''# Comma separated addresses and CIDR blocks. Empty allows everyone.'',
     kv ''IPWhitelist'' (rcon_ipWhitelist r),
     ''# Sustained command rate per client address, and the burst it may spend at once.'',
     kv ''CommandsPerMinute'' (to_string (rcon_commandsPerMinute r)),
     kv ''CommandBurst'' (to_string (rcon_commandBurst r)),
     ''# Failed logins allowed inside FailWindowSeconds before the address is refused'',
     ''# connections for BanSeconds.'',
     kv ''MaxFailedAuth'' (to_string (rcon_maxFailedAuth r)),
     kv ''FailWindowSeconds'' (to_string (rcon_failWindowSeconds r)),
     kv ''BanSeconds'' (to_string (rcon_banSeconds r)),
     kv ''MaxConnections'' (to_string (rcon_maxConnections r)),
     []]"

definition Save_discord :: "DiscordConfig \<Rightarrow> string list" where
  "Save_discord d =
    [''[Discord]'',
     ''# Relays in-game chat and player deaths to Discord webhooks. Off by default.'',
     ''# DeathWebhookUrl falls back to WebhookUrl when empty.'',
     kv ''Enabled'' (Bool (discord_enabled d)),
     kv ''WebhookUrl'' (discord_webhookUrl d),
     kv ''DeathWebhookUrl'' (discord_deathWebhookUrl d),
     kv ''Username'' (discord_username d)]"

definition unlines :: "string list \<Rightarrow> string" where
  "unlines ls = concat (map (\<lambda>l. l @ [LF]) ls)"

definition Save :: "APIConfig \<Rightarrow> string" where
  "Save c = unlines (Save_general c @ Save_rest (rest c) @ Save_rcon (rcon c) @
              Save_discord (discord c))"


section \<open>Secrets and start-up\<close>

definition hex_digit :: "nat \<Rightarrow> char" where
  "hex_digit d = (if d < 10 then char_of (48 + d) else char_of (87 + d))"

text \<open>\<open>urandom\<close>: \<^term>\<open>None\<close> when the device does not open, else the bytes \<^verbatim>\<open>fread\<close> got.\<close>

definition GenerateSecureToken :: "nat \<Rightarrow> string option \<Rightarrow> string" where
  "GenerateSecureToken n urandom =
     (case urandom of
        None \<Rightarrow> []
      | Some got \<Rightarrow>
          (if length got \<noteq> n then []
           else concat (map (\<lambda>b. [hex_digit (code b div 16), hex_digit (code b mod 16)]) got)))"

definition GenerateSecrets :: "string option \<Rightarrow> string option \<Rightarrow> APIConfig \<Rightarrow> APIConfig" where
  "GenerateSecrets r1 r2 c =
     c\<lparr>rest := (rest c)\<lparr>rest_bearerToken := GenerateSecureToken 32 r1\<rparr>,
       rcon := (rcon c)\<lparr>rcon_password := GenerateSecureToken 12 r2\<rparr>\<rparr>"

text \<open>
  The configuration part of \<^verbatim>\<open>InitThread\<close>: load or generate, then write the file back. The
  result is the configuration in use and the contents of \<^verbatim>\<open>settings.ini\<close> afterwards.
\<close>

definition boot_config ::
    "string option \<Rightarrow> string option \<Rightarrow> string option \<Rightarrow> APIConfig \<times> string" where
  "boot_config file r1 r2 =
     (let (loaded, c) = Load file default_config;
          c' = (if loaded then c else GenerateSecrets r1 r2 c)
      in (c', Save c'))"

text \<open>
  \<^verbatim>\<open>GetBaseDir\<close>: \<open>env\<close> is the value of \<^verbatim>\<open>RSDWAPI_DIR\<close>, \<open>exe\<close> the target of
  \<^verbatim>\<open>/proc/self/exe\<close>, empty when \<^verbatim>\<open>readlink\<close> fails.
\<close>

definition GetBaseDir :: "string option \<Rightarrow> string \<Rightarrow> string" where
  "GetBaseDir env exe =
     (let dir = (if CHR ''/'' \<in> set exe
                 then rev (drop 1 (dropWhile (\<lambda>c. c \<noteq> CHR ''/'') (rev exe))) else ''.'');
          beside = dir @ ''/rsdwapi''
      in case env of Some d \<Rightarrow> (if d \<noteq> [] then d else beside) | None \<Rightarrow> beside)"

definition GetConfigPath :: "string option \<Rightarrow> string \<Rightarrow> string" where
  "GetConfigPath env exe = GetBaseDir env exe @ ''/settings.ini''"


section \<open>Well-formed configurations\<close>

definition wf_value :: "string \<Rightarrow> bool" where
  "wf_value v = (trimmed v \<and> LF \<notin> set v \<and> (v = [] \<or> last v \<noteq> CR))"

definition wf_rest :: "RestConfig \<Rightarrow> bool" where
  "wf_rest r = (in_int32 (rest_port r) \<and> wf_value (rest_bindAddress r) \<and>
     wf_value (rest_bearerToken r) \<and> wf_value (rest_ipWhitelist r))"

definition wf_rcon :: "RconConfig \<Rightarrow> bool" where
  "wf_rcon r = (in_int32 (rcon_port r) \<and> wf_value (rcon_bindAddress r) \<and>
     wf_value (rcon_password r) \<and> wf_value (rcon_ipWhitelist r) \<and>
     in_int32 (rcon_commandsPerMinute r) \<and> in_int32 (rcon_commandBurst r) \<and>
     in_int32 (rcon_maxFailedAuth r) \<and> in_int32 (rcon_failWindowSeconds r) \<and>
     in_int32 (rcon_banSeconds r) \<and> in_int32 (rcon_maxConnections r))"

definition wf_discord :: "DiscordConfig \<Rightarrow> bool" where
  "wf_discord d = (wf_value (discord_webhookUrl d) \<and> wf_value (discord_deathWebhookUrl d) \<and>
     wf_value (discord_username d))"

definition wf_config :: "APIConfig \<Rightarrow> bool" where
  "wf_config c = (wf_rest (rest c) \<and> wf_rcon (rcon c) \<and> wf_discord (discord c))"

lemmas wf_config_defs = wf_config_def wf_rest_def wf_rcon_def wf_discord_def


section \<open>One line\<close>

lemma strip_cr_id [simp]: "line = [] \<or> last line \<noteq> CR \<Longrightarrow> strip_cr line = line"
  by (auto simp: strip_cr_def)

lemma load_line_empty [simp]: "load_line st [] = st"
  by (simp add: load_line_def strip_cr_def split: prod.splits)

lemma load_line_comment [simp]: "load_line st (CHR ''#'' # s) = st"
  by (cases st; cases s rule: rev_cases) (auto simp: load_line_def strip_cr_def Let_def)

lemma load_line_section [simp]:
  "CHR '']'' \<notin> set name \<Longrightarrow> load_line (sec, c) (CHR ''['' # name @ '']'') = (name, c)"
  by (simp add: load_line_def substr_def Let_def)

definition plain_setting :: "string \<Rightarrow> bool" where
  "plain_setting key = (key \<noteq> [] \<and> CHR ''='' \<notin> set key \<and> trimmed key \<and>
     hd key \<noteq> CHR ''#'' \<and> hd key \<noteq> CHR '';'' \<and> hd key \<noteq> CHR ''['')"

lemma load_line_kv [simp]:
  assumes "plain_setting key" "wf_value value"
  shows "load_line (sec, c) (kv key value) = (sec, Apply sec key value c)"
proof -
  have "last (kv key value) \<noteq> CR" using assms(2) by (auto simp: kv_def wf_value_def)
  then show ?thesis
    using assms drop_past [of key "CHR ''=''" "value"]
    by (simp add: load_line_def plain_setting_def wf_value_def kv_def substr_def Let_def)
qed

lemma getlines_unlines: "list_all (\<lambda>l. LF \<notin> set l) ls \<Longrightarrow> getlines (unlines ls) = ls"
  by (induction ls) (auto simp: unlines_def)


section \<open>The round trip\<close>

lemma ParseBool_Bool [simp]: "ParseBool (Bool b) = b"
  by (simp add: ParseBool_def Bool_def)

lemma wf_value_Bool [simp]: "wf_value (Bool b)"
  by (simp add: Bool_def wf_value_def trimmed_def)

lemma wf_value_to_string [simp]: "wf_value (to_string i)"
proof -
  have c: "c \<in> set (to_string i) \<Longrightarrow> \<not> blank c \<and> c \<noteq> LF \<and> c \<noteq> CR" for c
    by (auto simp: is_digit_def dest!: to_string_chars)
  then show ?thesis
    using c [of "hd (to_string i)"] c [of "last (to_string i)"]
    by (auto simp: wf_value_def trimmed_def)
qed

lemma wf_value_no_LF: "wf_value v \<Longrightarrow> LF \<notin> set v"
  by (simp add: wf_value_def)

lemma plain_settings [simp]:
  "plain_setting ''EnableLogging''" "plain_setting ''VerboseLogging''" "plain_setting ''Enabled''"
  "plain_setting ''Port''" "plain_setting ''BindAddress''" "plain_setting ''BearerToken''"
  "plain_setting ''IPWhitelist''" "plain_setting ''Password''" "plain_setting ''CommandsPerMinute''"
  "plain_setting ''CommandBurst''" "plain_setting ''MaxFailedAuth''"
  "plain_setting ''FailWindowSeconds''" "plain_setting ''BanSeconds''"
  "plain_setting ''MaxConnections''" "plain_setting ''WebhookUrl''"
  "plain_setting ''DeathWebhookUrl''" "plain_setting ''Username''"
  by (simp_all add: plain_setting_def trimmed_def)

lemma load_headers [simp]:
  "load_line (sec, c) ''[General]'' = (''General'', c)" "load_line (sec, c) ''[API]'' = (''API'', c)"
  "load_line (sec, c) ''[RCON]'' = (''RCON'', c)" "load_line (sec, c) ''[Discord]'' = (''Discord'', c)"
  using load_line_section [of "''General''" sec c] load_line_section [of "''API''" sec c]
    load_line_section [of "''RCON''" sec c] load_line_section [of "''Discord''" sec c]
  by simp_all

lemma load_general:
  "foldl load_line (sec, c) (Save_general d) =
     (''General'', c\<lparr>enableLogging := enableLogging d, verboseLogging := verboseLogging d\<rparr>)"
  by (simp add: Save_general_def Apply_def)

lemma load_rest:
  assumes "wf_rest r"
  shows "foldl load_line (sec, c) (Save_rest r) = (''API'', c\<lparr>rest := r\<rparr>)"
proof -
  have "foldl load_line (sec, c) (Save_rest r) = (''API'', c\<lparr>rest := (rest c)
      \<lparr>rest_enabled := rest_enabled r, rest_bindAddress := rest_bindAddress r,
       rest_port := rest_port r, rest_bearerToken := rest_bearerToken r,
       rest_ipWhitelist := rest_ipWhitelist r\<rparr>\<rparr>)"
    using assms by (simp add: Save_rest_def wf_rest_def Apply_def Apply_rest_def show_simps)
  then show ?thesis by simp
qed

lemma load_rcon:
  assumes "wf_rcon r"
  shows "foldl load_line (sec, c) (Save_rcon r) = (''RCON'', c\<lparr>rcon := r\<rparr>)"
proof -
  have "foldl load_line (sec, c) (Save_rcon r) = (''RCON'', c\<lparr>rcon := (rcon c)
      \<lparr>rcon_enabled := rcon_enabled r, rcon_bindAddress := rcon_bindAddress r,
       rcon_port := rcon_port r, rcon_password := rcon_password r,
       rcon_ipWhitelist := rcon_ipWhitelist r,
       rcon_commandsPerMinute := rcon_commandsPerMinute r,
       rcon_commandBurst := rcon_commandBurst r, rcon_maxFailedAuth := rcon_maxFailedAuth r,
       rcon_failWindowSeconds := rcon_failWindowSeconds r, rcon_banSeconds := rcon_banSeconds r,
       rcon_maxConnections := rcon_maxConnections r\<rparr>\<rparr>)"
    using assms by (simp add: Save_rcon_def wf_rcon_def Apply_def Apply_rcon_def show_simps)
  then show ?thesis by simp
qed

lemma load_discord:
  assumes "wf_discord d"
  shows "foldl load_line (sec, c) (Save_discord d) = (''Discord'', c\<lparr>discord := d\<rparr>)"
proof -
  have "foldl load_line (sec, c) (Save_discord d) = (''Discord'', c\<lparr>discord := (discord c)
      \<lparr>discord_enabled := discord_enabled d, discord_webhookUrl := discord_webhookUrl d,
       discord_deathWebhookUrl := discord_deathWebhookUrl d,
       discord_username := discord_username d\<rparr>\<rparr>)"
    using assms by (simp add: Save_discord_def wf_discord_def Apply_def Apply_discord_def)
  then show ?thesis by simp
qed

lemma LF_notin_kv: "LF \<notin> set key \<Longrightarrow> wf_value v \<Longrightarrow> LF \<notin> set (kv key v)"
  by (simp add: kv_def wf_value_no_LF)

lemma Save_lines_no_LF:
  assumes "wf_config c"
  shows "list_all (\<lambda>l. LF \<notin> set l)
    (Save_general c @ Save_rest (rest c) @ Save_rcon (rcon c) @ Save_discord (discord c))"
  using assms
  by (simp add: Save_general_def Save_rest_def Save_rcon_def Save_discord_def wf_config_defs LF_notin_kv)

lemma Load_Save:
  assumes "wf_config c"
  shows "Load (Some (Save c)) d = (True, c)"
  using assms getlines_unlines [OF Save_lines_no_LF [OF assms]]
  by (simp add: Load_def Save_def load_general load_rest load_rcon load_discord wf_config_def)


section \<open>Every loaded configuration is well formed\<close>

lemma wf_Apply_rest: "wf_rest r \<Longrightarrow> wf_value v \<Longrightarrow> wf_rest (Apply_rest key v r)"
  by (simp add: Apply_rest_def wf_rest_def)

lemma wf_Apply_rcon: "wf_rcon r \<Longrightarrow> wf_value v \<Longrightarrow> wf_rcon (Apply_rcon key v r)"
  by (simp add: Apply_rcon_def wf_rcon_def)

lemma wf_Apply_discord: "wf_discord d \<Longrightarrow> wf_value v \<Longrightarrow> wf_discord (Apply_discord key v d)"
  by (simp add: Apply_discord_def wf_discord_def)

lemma wf_Apply: "wf_config c \<Longrightarrow> wf_value v \<Longrightarrow> wf_config (Apply sec key v c)"
  by (simp add: Apply_def wf_config_def wf_Apply_rest wf_Apply_rcon wf_Apply_discord)

lemma set_strip_cr: "set (strip_cr l) \<subseteq> set l"
  by (auto simp: strip_cr_def dest: in_set_butlastD)

lemma wf_value_trim: "LF \<notin> set v \<Longrightarrow> CR \<notin> set v \<Longrightarrow> wf_value (trim v)"
  using set_trim [of v] last_in_set [of "trim v"] unfolding wf_value_def by (metis subsetD trimmed_trim)

lemma wf_load_line:
  assumes "wf_config (snd st)" "LF \<notin> set l" "CR \<notin> set (strip_cr l)"
  shows "wf_config (snd (load_line st l))"
proof -
  have "LF \<notin> set (drop n (strip_cr l))" "CR \<notin> set (drop n (strip_cr l))" for n
    using assms(2,3) set_strip_cr by (blast dest: in_set_dropD)+
  then have "wf_value (trim (drop n (strip_cr l)))" for n by (simp add: wf_value_trim)
  with assms(1) show ?thesis
    by (auto simp: load_line_def Let_def wf_Apply split: prod.splits option.splits)
qed

text \<open>A file is clean when carriage returns only end lines.\<close>

definition cr_clean :: "string \<Rightarrow> bool" where
  "cr_clean text = list_all (\<lambda>l. CR \<notin> set (strip_cr l)) (getlines text)"

lemma wf_fold_load:
  "wf_config (snd st) \<Longrightarrow> list_all (\<lambda>l. LF \<notin> set l \<and> CR \<notin> set (strip_cr l)) ls \<Longrightarrow>
     wf_config (snd (foldl load_line st ls))"
  by (induction ls arbitrary: st) (auto simp: wf_load_line)

lemma wf_default [simp]: "wf_config default_config"
  by (simp add: wf_config_defs default_config_def default_rest_def default_rcon_def
      default_discord_def wf_value_def trimmed_def in_int32_def)

lemma wf_Load:
  assumes "cr_clean text" "wf_config c"
  shows "wf_config (snd (Load (Some text) c))"
proof -
  have "list_all (\<lambda>l. LF \<notin> set l \<and> CR \<notin> set (strip_cr l)) (getlines text)"
    using assms(1) getlines_no_LF by (auto simp: cr_clean_def list_all_iff)
  then show ?thesis using assms(2) by (simp add: Load_def wf_fold_load)
qed


section \<open>Secrets\<close>

lemma hex_digit_code:
  "d < 16 \<Longrightarrow> code (hex_digit d) = (if d < 10 then 48 + d else 87 + d)"
  by (simp add: hex_digit_def)

definition is_lower_hex :: "char \<Rightarrow> bool" where
  "is_lower_hex c = (is_digit c \<or> 97 \<le> code c \<and> code c \<le> 102)"

lemma is_lower_hex_digit [simp]: "d < 16 \<Longrightarrow> is_lower_hex (hex_digit d)"
  by (auto simp: is_lower_hex_def is_digit_def hex_digit_code)

lemma token_chars: "c \<in> set (GenerateSecureToken n r) \<Longrightarrow> is_lower_hex c"
  by (auto simp: GenerateSecureToken_def less_mult_imp_div_less split: option.splits if_splits)

lemma length_concat_pairs: "length (concat (map (\<lambda>b. [f b, g b]) bs)) = 2 * length bs"
  by (induction bs) auto

lemma token_length: "length bs = n \<Longrightarrow> length (GenerateSecureToken n (Some bs)) = 2 * n"
  by (simp add: GenerateSecureToken_def length_concat_pairs)

lemma wf_value_token [simp]: "wf_value (GenerateSecureToken n r)"
proof -
  let ?t = "GenerateSecureToken n r"
  have c: "c \<in> set ?t \<Longrightarrow> \<not> blank c \<and> c \<noteq> LF \<and> c \<noteq> CR" for c
    by (auto simp: is_lower_hex_def is_digit_def dest!: token_chars)
  show ?thesis
  proof (cases "?t = []")
    case False
    then show ?thesis using c [of "hd ?t"] c [of "last ?t"] c [of LF]
      by (auto simp: wf_value_def trimmed_def)
  qed (simp add: wf_value_def trimmed_def)
qed

lemma wf_GenerateSecrets [simp]: "wf_config c \<Longrightarrow> wf_config (GenerateSecrets r1 r2 c)"
  by (simp add: wf_config_defs GenerateSecrets_def)


section \<open>Properties\<close>

text \<open>
  C26: Reading back the file that \<^verbatim>\<open>Save\<close> writes restores every field of the
  configuration, whatever was in memory before, provided the values are ones an INI line
  can carry (trimmed, no line break, integers in range).
\<close>
theorem config_roundtrip:
  assumes "wf_config c"
  shows "Load (Some (Save c)) d = (True, c)"
  by (rule Load_Save [OF assms])

theorem config_roundtrip_witness:
  "Load (Some (Save (default_config\<lparr>rest := default_rest\<lparr>rest_bearerToken := ''a=b c''\<rparr>\<rparr>))) default_config
     = (True, default_config\<lparr>rest := default_rest\<lparr>rest_bearerToken := ''a=b c''\<rparr>\<rparr>)"
proof -
  have "wf_config (default_config\<lparr>rest := default_rest\<lparr>rest_bearerToken := ''a=b c''\<rparr>\<rparr>)"
    by (simp add: wf_config_defs default_config_def default_rest_def default_rcon_def
        default_discord_def wf_value_def trimmed_def in_int32_def)
  then show ?thesis by (rule config_roundtrip)
qed

text \<open>
  Restarting with the file the previous start left behind changes nothing: the same
  configuration is loaded, the same file is written back, and the secrets are not
  regenerated, whatever the random device would deliver. In particular an empty bearer token
  or password stays empty. This holds after a start from any settings file whose carriage
  returns only end lines.
\<close>
lemma boot_stable:
  assumes "cr_clean text" "boot_config (Some text) r1 r2 = (c, out)"
  shows "boot_config (Some out) r1' r2' = (c, out)"
proof -
  from assms(2) have c: "c = snd (Load (Some text) default_config)" and out: "out = Save c"
    by (auto simp: boot_config_def Load_def Let_def)
  have "wf_config c" unfolding c by (rule wf_Load [OF assms(1) wf_default])
  then show ?thesis by (simp add: boot_config_def out Load_Save)
qed

lemma boot_stable_witness:
  "let text = ''[API]'' @ CR # LF # ''BearerToken='' @ CR # LF # ''Port= 9000 '';
       (c, out) = boot_config (Some text) None None
   in rest_bearerToken (rest c) = [] \<and> boot_config (Some out) (Some (replicate 32 CHR 0xAB)) None = (c, out)"
proof -
  let ?text = "''[API]'' @ CR # LF # ''BearerToken='' @ CR # LF # ''Port= 9000 ''"
  obtain c out where b: "boot_config (Some ?text) None None = (c, out)" by fastforce
  have "cr_clean ?text" by (simp add: cr_clean_def getlines_def strip_cr_def)
  then have "boot_config (Some out) (Some (replicate 32 CHR 0xAB)) None = (c, out)"
    using b by (rule boot_stable)
  moreover have "rest_bearerToken (rest c) = []"
    using b by (auto simp: boot_config_def Load_def Let_def getlines_def load_line_def strip_cr_def
        substr_def trim_eq Apply_def Apply_rest_def default_config_def default_rest_def)
  ultimately show ?thesis using b by (simp only: Let_def prod.case simp_thms)
qed

text \<open>
  On the first run, with the random device delivering the bytes asked for, the bearer
  token is 64 and the RCON password 24 lower-case hexadecimal digits, everything else is the
  default, and the next start reads exactly these values back.
\<close>
lemma first_boot_secrets:
  assumes "length b1 = 32" "length b2 = 12" "boot_config None (Some b1) (Some b2) = (c, out)"
  shows "length (rest_bearerToken (rest c)) = 64 \<and> length (rcon_password (rcon c)) = 24 \<and>
    list_all is_lower_hex (rest_bearerToken (rest c) @ rcon_password (rcon c)) \<and>
    c\<lparr>rest := default_rest, rcon := default_rcon\<rparr> = default_config \<and>
    boot_config (Some out) r1 r2 = (c, out)"
proof -
  from assms(3) have c: "c = GenerateSecrets (Some b1) (Some b2) default_config" and out: "out = Save c"
    by (auto simp: boot_config_def Load_def Let_def)
  have "boot_config (Some out) r1 r2 = (c, out)"
    by (simp add: boot_config_def out Load_Save c)
  then show ?thesis
    using assms(1,2) token_chars
    by (auto simp: c GenerateSecrets_def token_length list_all_iff default_config_def)
qed

lemma first_boot_secrets_witness:
  "let (c, out) = boot_config None (Some (replicate 32 CHR 0x1F)) (Some (replicate 12 CHR 0xA0))
   in length (rest_bearerToken (rest c)) = 64 \<and> boot_config (Some out) None None = (c, out)"
proof -
  obtain c out where b: "boot_config None (Some (replicate 32 CHR 0x1F)) (Some (replicate 12 CHR 0xA0)) = (c, out)"
    by fastforce
  show ?thesis
    using first_boot_secrets [OF _ _ b, of None None] b
    by (simp only: Let_def prod.case length_replicate simp_thms)
qed

end
