(* ===== verification/Float64.thy ===== *)
theory Float64
  imports Complex_Main "HOL-Library.Log_Nat"
begin

text \<open>
  The arithmetic of C++ \<^verbatim>\<open>double\<close> and \<^verbatim>\<open>float\<close> on finite values. A finite number is a
  rational; every operation computes the exact result and rounds it to the nearest
  representable value, ties to even (IEEE 754 binary64 and binary32, the default rounding
  mode, subnormal numbers included). Both formats are instances of \<open>fl_at\<close>, rounding to a
  number of significant bits above a least exponent. Overflow to infinity is the client's
  matter. The locale \<open>rounding\<close> states what the clients rely on, and its interpretations show
  that the two rounding functions have these laws.
\<close>

section \<open>Rounding\<close>

text \<open>The nearest integer, ties to even.\<close>

definition round_even :: "rat \<Rightarrow> int" where
  "round_even x =
     (let f = \<lfloor>x\<rfloor>; d = x - of_int f
      in if d < 1 / 2 then f else if d > 1 / 2 then f + 1
         else if even f then f else f + 1)"

text \<open>The exponent of the binade of a positive rational.\<close>

definition binade :: "rat \<Rightarrow> int" where
  "binade x =
     (let (p, q) = quotient_of x;
          n = int (floorlog 2 (nat p)) - int (floorlog 2 (nat q))
      in if 2 powi n \<le> x then n else n - 1)"

text \<open>The multiple of \<open>2 powi e\<close> next to \<open>x\<close>.\<close>

definition round_at :: "int \<Rightarrow> rat \<Rightarrow> rat" where
  "round_at e x = of_int (round_even (x / 2 powi e)) * 2 powi e"

text \<open>
  The exponent of the last place next to \<open>x\<close>, with \<open>p\<close> significant bits and a least
  exponent \<open>m\<close> of the last place.
\<close>

definition ulp_exp :: "nat \<Rightarrow> int \<Rightarrow> rat \<Rightarrow> int" where
  "ulp_exp p m x = max m (binade \<bar>x\<bar> - (int p - 1))"

definition fl_at :: "nat \<Rightarrow> int \<Rightarrow> rat \<Rightarrow> rat" where
  "fl_at p m x = (if x = 0 then 0 else round_at (ulp_exp p m x) x)"

definition fl64 :: "rat \<Rightarrow> rat" where
  "fl64 x = fl_at 53 (- 1074) x"

definition fl32 :: "rat \<Rightarrow> rat" where
  "fl32 x = fl_at 24 (- 149) x"


section \<open>The interface\<close>

locale rounding =
  fixes rnd :: "rat \<Rightarrow> rat" and prec :: nat
  assumes rnd_mono: "x \<le> y \<Longrightarrow> rnd x \<le> rnd y"
    and rnd_int: "\<bar>n\<bar> \<le> 2 ^ prec \<Longrightarrow> rnd (of_int n) = of_int n"
begin

lemma rnd_0 [simp]: "rnd 0 = 0"
  using rnd_int [of 0] by simp

lemma rnd_1 [simp]: "rnd 1 = 1"
  using rnd_int [of 1] by simp

lemma rnd_nonneg: "0 \<le> x \<Longrightarrow> 0 \<le> rnd x"
  using rnd_mono [of 0 x] by simp

lemma rnd_le_int: "x \<le> of_int n \<Longrightarrow> \<bar>n\<bar> \<le> 2 ^ prec \<Longrightarrow> rnd x \<le> of_int n"
  using rnd_mono [of x "of_int n"] rnd_int [of n] by simp

lemma rnd_ge_int: "of_int n \<le> x \<Longrightarrow> \<bar>n\<bar> \<le> 2 ^ prec \<Longrightarrow> of_int n \<le> rnd x"
  using rnd_mono [of "of_int n" x] rnd_int [of n] by simp

end


section \<open>Rounding to an integer\<close>

lemma round_even_of_int [simp]: "round_even (of_int n) = n"
  by (simp add: round_even_def)

lemma round_even_bounds: "\<lfloor>x\<rfloor> \<le> round_even x \<and> round_even x \<le> \<lfloor>x\<rfloor> + 1"
  by (simp add: round_even_def Let_def)

lemma round_even_near: "\<bar>of_int (round_even x) - x\<bar> \<le> 1 / 2"
proof -
  have "of_int \<lfloor>x\<rfloor> \<le> x" "x < of_int \<lfloor>x\<rfloor> + 1" by linarith+
  then show ?thesis by (auto simp: round_even_def Let_def abs_le_iff)
qed

lemma round_even_mono:
  assumes "x \<le> y"
  shows "round_even x \<le> round_even y"
proof (cases "\<lfloor>x\<rfloor> = \<lfloor>y\<rfloor>")
  case True
  with assms show ?thesis by (simp add: round_even_def Let_def)
next
  case False
  with floor_mono [OF assms] have "\<lfloor>x\<rfloor> + 1 \<le> \<lfloor>y\<rfloor>" by simp
  then show ?thesis using round_even_bounds [of x] round_even_bounds [of y] by linarith
qed

lemma round_even_uminus: "round_even (- x) = - round_even x"
proof (cases "x = of_int \<lfloor>x\<rfloor>")
  case True
  then have "- x = of_int (- \<lfloor>x\<rfloor>)" by simp
  then show ?thesis by (metis True round_even_of_int)
next
  case False
  then have "of_int \<lfloor>x\<rfloor> < x" using of_int_floor_le [of x] by linarith
  then have f: "\<lfloor>- x\<rfloor> = - \<lfloor>x\<rfloor> - 1"
    by (intro floor_unique) (auto intro: less_imp_le simp: algebra_simps, linarith+)
  have "even (- \<lfloor>x\<rfloor> - 1) \<longleftrightarrow> odd \<lfloor>x\<rfloor>" by simp
  then show ?thesis by (auto simp: round_even_def Let_def f)
qed


section \<open>The binade\<close>

lemma floorlog2_bounds:
  assumes "0 < n"
  shows "2 powi (int (floorlog 2 n) - 1) \<le> (of_nat n :: rat)" "(of_nat n :: rat) < 2 powi int (floorlog 2 n)"
proof -
  have b: "2 ^ (floorlog 2 n - 1) \<le> n" "n < 2 ^ floorlog 2 n"
    using floorlog_bounds [of n 2] assms by simp_all
  have pos: "0 < floorlog 2 n" using floorlog_eq_zero_iff [of 2 n] assms by simp
  have "int (floorlog 2 n) - 1 = int (floorlog 2 n - 1)" using pos by simp
  then have "2 powi (int (floorlog 2 n) - 1) = (of_nat (2 ^ (floorlog 2 n - 1)) :: rat)"
    by (simp only: power_int_of_nat of_nat_power of_nat_numeral)
  also have "\<dots> \<le> of_nat n" using b(1) by (simp only: of_nat_le_iff)
  finally show "2 powi (int (floorlog 2 n) - 1) \<le> (of_nat n :: rat)" .
  have "(of_nat n :: rat) < of_nat (2 ^ floorlog 2 n)" using b(2) by (simp only: of_nat_less_iff)
  then show "(of_nat n :: rat) < 2 powi int (floorlog 2 n)" by (simp add: power_int_of_nat)
qed

lemma binade_bounds:
  assumes "0 < x"
  shows "2 powi binade x \<le> x" "x < 2 powi (binade x + 1)"
proof -
  obtain p q where pq: "quotient_of x = (p, q)" by fastforce
  then have q: "0 < q" and x: "x = of_int p / of_int q"
    using quotient_of_denom_pos quotient_of_div by blast+
  with assms have p: "0 < p" by (simp add: zero_less_divide_iff)
  define a b where "a = int (floorlog 2 (nat p))" and "b = int (floorlog 2 (nat q))"
  have P: "2 powi (a - 1) \<le> (of_int p :: rat)" "(of_int p :: rat) < 2 powi a"
    using floorlog2_bounds [of "nat p"] p by (simp_all add: a_def)
  have Q: "2 powi (b - 1) \<le> (of_int q :: rat)" "(of_int q :: rat) < 2 powi b"
    using floorlog2_bounds [of "nat q"] q by (simp_all add: b_def)
  have "2 powi (a - b - 1) = (2 powi (a - 1) / 2 powi b :: rat)"
    by (simp add: power_int_diff)
  also have "\<dots> \<le> x" unfolding x using P Q q p by (intro frac_le) auto
  finally have lo: "2 powi (a - b - 1) \<le> x" .
  have "x < 2 powi a / 2 powi (b - 1)" unfolding x
    using P Q q p by (intro frac_less) auto
  also have "\<dots> = 2 powi (a - b + 1)" by (simp add: power_int_diff power_int_add)
  finally have hi: "x < 2 powi (a - b + 1)" .
  have n: "binade x = (if 2 powi (a - b) \<le> x then a - b else a - b - 1)"
    by (simp add: binade_def pq a_def b_def Let_def)
  show "2 powi binade x \<le> x" using lo by (simp add: n)
  show "x < 2 powi (binade x + 1)" using hi by (simp add: n)
qed

lemma powi2_less_iff: "(2 :: rat) powi a < 2 powi b \<longleftrightarrow> a < b"
  using power_int_strict_increasing [of a b "2 :: rat"] power_int_increasing [of b a "2 :: rat"]
  by fastforce

lemma powi2_le_iff: "(2 :: rat) powi a \<le> 2 powi b \<longleftrightarrow> a \<le> b"
  using powi2_less_iff [of b a] by (simp add: not_less [symmetric])

lemma binade_mono:
  assumes "0 < x" "x \<le> y"
  shows "binade x \<le> binade y"
proof -
  have "2 powi binade x < (2 :: rat) powi (binade y + 1)"
    using binade_bounds [of x] binade_bounds [of y] assms by linarith
  then show ?thesis by (simp only: powi2_less_iff)
qed

lemma binade_less: "0 < x \<Longrightarrow> x < 2 powi n \<Longrightarrow> binade x < n"
  using binade_bounds(1) [of x] powi2_less_iff [of "binade x" n] by linarith

lemma binade_power: "binade (2 powi n) = n"
proof -
  have "binade (2 powi n) < n + 1"
    by (rule binade_less) (simp_all add: powi2_less_iff)
  moreover have "2 powi n < (2 :: rat) powi (binade (2 powi n) + 1)"
    by (rule binade_bounds(2)) simp
  ultimately show ?thesis by (simp only: powi2_less_iff)
qed



section \<open>Rounding at a fixed exponent\<close>

lemma round_at_mono: "x \<le> y \<Longrightarrow> round_at e x \<le> round_at e y"
  unfolding round_at_def
  by (intro mult_right_mono of_int_le_iff [THEN iffD2] round_even_mono divide_right_mono) simp_all

lemma round_at_exact [simp]: "round_at e (of_int k * 2 powi e) = of_int k * 2 powi e"
  by (simp add: round_at_def)

lemma round_at_0 [simp]: "round_at e 0 = 0"
  using round_at_exact [of e 0] by simp

lemma round_at_uminus: "round_at e (- x) = - round_at e x"
  by (simp add: round_at_def round_even_uminus)

lemma powi2_multiple: "e \<le> n \<Longrightarrow> (2 :: rat) powi n = of_int (2 ^ nat (n - e)) * 2 powi e"
  using power_int_add [of "2 :: rat" "n - e" e] power_int_of_nat [of "2 :: rat" "nat (n - e)"]
  by simp

lemma round_at_powi2: "e \<le> n \<Longrightarrow> round_at e (2 powi n) = 2 powi n"
  using round_at_exact [of e "2 ^ nat (n - e)"] by (simp only: powi2_multiple [of e n])


section \<open>Laws of the rounding functions\<close>

lemma ulp_exp_uminus [simp]: "ulp_exp p m (- x) = ulp_exp p m x"
  by (simp add: ulp_exp_def)

lemma fl_at_uminus: "fl_at p m (- x) = - fl_at p m x"
  by (simp add: fl_at_def round_at_uminus)

lemma fl_at_nonneg: "0 \<le> x \<Longrightarrow> 0 \<le> fl_at p m x"
  using round_at_mono [of 0 x] by (simp add: fl_at_def)

lemma fl_at_mono_pos:
  assumes "1 \<le> p" "0 < x" "x \<le> y"
  shows "fl_at p m x \<le> fl_at p m y"
proof (cases "ulp_exp p m x = ulp_exp p m y")
  case True
  with assms show ?thesis by (simp add: fl_at_def round_at_mono)
next
  case False
  let ?d = "ulp_exp p m x" and ?e = "ulp_exp p m y" and ?p = "int p"
  from binade_mono [OF assms(2,3)] False assms have less: "?d < ?e" and e: "?e = binade y - (?p - 1)"
    and d: "binade x - (?p - 1) \<le> ?d"
    by (auto simp: ulp_exp_def)
  have "x \<le> 2 powi (?d + ?p)"
    using binade_bounds(2) [OF assms(2)] powi2_le_iff [of "binade x + 1" "?d + ?p"] d by linarith
  then have "round_at ?d x \<le> 2 powi (?d + ?p)"
    using round_at_mono [of x "2 powi (?d + ?p)" ?d] round_at_powi2 [of ?d "?d + ?p"] by simp
  also have "(2 :: rat) powi (?d + ?p) \<le> 2 powi binade y" using less e by (simp only: powi2_le_iff)
  also have "\<dots> \<le> round_at ?e y"
    using round_at_mono [OF binade_bounds(1), of y ?e] round_at_powi2 [of ?e "binade y"] assms e by simp
  finally show ?thesis using assms by (simp add: fl_at_def)
qed

lemma fl_at_mono:
  assumes "1 \<le> p" "x \<le> y"
  shows "fl_at p m x \<le> fl_at p m y"
proof -
  consider "0 < x" | "y < 0" | "x \<le> 0" "0 \<le> y" using assms(2) by linarith
  then show ?thesis
  proof cases
    case 1
    then show ?thesis using assms by (intro fl_at_mono_pos)
  next
    case 2
    then show ?thesis using fl_at_mono_pos [of p "- y" "- x" m] assms by (simp add: fl_at_uminus)
  next
    case 3
    then show ?thesis using fl_at_nonneg [of y p m] fl_at_nonneg [of "- x" p m] by (simp add: fl_at_uminus)
  qed
qed

lemma fl_at_nat:
  assumes "1 \<le> p" "m \<le> 0" "0 < n" "n \<le> 2 ^ p"
  shows "fl_at p m (of_int n) = of_int n"
proof (cases "n = 2 ^ p")
  case True
  then have n: "of_int n = (2 :: rat) powi int p" by (simp add: power_int_def)
  have "\<bar>2 powi int p :: rat\<bar> = 2 powi int p" by simp
  then have "ulp_exp p m (2 powi int p) = 1"
    using assms(2) by (simp only: ulp_exp_def binade_power)
  then show ?thesis
    using round_at_powi2 [of 1 "int p"] assms(1) unfolding n by (simp add: fl_at_def)
next
  case False
  with assms have "of_int n < (2 :: rat) powi int p" by (simp add: power_int_def)
  with assms(3) have "binade (of_int n) < int p" by (intro binade_less) simp_all
  then have e: "ulp_exp p m (of_int n) \<le> 0" using assms by (simp add: ulp_exp_def)
  let ?e = "ulp_exp p m (of_int n)"
  have "(of_int n :: rat) = of_int (n * 2 ^ nat (- ?e)) * 2 powi ?e"
    using powi2_multiple [OF e] by (simp add: mult.assoc)
  then have "round_at ?e (of_int n) = of_int n" by (metis round_at_exact)
  then show ?thesis by (simp add: fl_at_def)
qed

lemma fl_at_int:
  assumes "1 \<le> p" "m \<le> 0" "\<bar>n\<bar> \<le> 2 ^ p"
  shows "fl_at p m (of_int n) = of_int n"
proof (cases n "0 :: int" rule: linorder_cases)
  case less
  then show ?thesis using fl_at_nat [of p m "- n"] fl_at_uminus [of p m "of_int n"] assms by simp
next
  case equal
  then show ?thesis by (simp add: fl_at_def)
next
  case greater
  then show ?thesis using fl_at_nat [of p m n] assms by simp
qed

lemma fl_at_powi2: "1 \<le> p \<Longrightarrow> m \<le> n \<Longrightarrow> fl_at p m (2 powi n) = 2 powi n"
  by (simp add: fl_at_def ulp_exp_def binade_power round_at_powi2)

lemma round_at_near: "round_at e x \<le> x + 2 powi (e - 1)"
proof -
  have "of_int (round_even (x / 2 powi e)) \<le> x / 2 powi e + 1 / 2"
    using round_even_near [of "x / 2 powi e"] by linarith
  then have "round_at e x \<le> (x / 2 powi e + 1 / 2) * 2 powi e"
    unfolding round_at_def by (rule mult_right_mono) simp
  then show ?thesis by (simp add: distrib_right power_int_diff)
qed

text \<open>Rounding up adds at most half a last place.\<close>

lemma fl_at_near:
  assumes "0 \<le> x"
  shows "fl_at p m x \<le> x + x * 2 powi (- int p) + 2 powi (m - 1)"
proof (cases "x = 0")
  case False
  with assms have b: "2 powi binade x \<le> x" by (intro binade_bounds) simp
  have "(2 :: rat) powi (binade x - int p) \<le> x * 2 powi (- int p)"
    using mult_right_mono [OF b, of "2 powi (- int p)"] by (simp add: power_int_add [symmetric])
  moreover have "fl_at p m x \<le> x + 2 powi (max m (binade x - (int p - 1)) - 1)"
    using round_at_near [of "ulp_exp p m x" x] False assms by (simp add: fl_at_def ulp_exp_def)
  moreover have "(2 :: rat) powi (max m (binade x - (int p - 1)) - 1) \<le> 2 powi (m - 1) + 2 powi (binade x - int p)"
    by (simp add: max_def)
  ultimately show ?thesis by linarith
qed (simp add: fl_at_def)

lemma fl_at_near_normal:
  assumes "2 powi (m + int p - 1) \<le> x"
  shows "fl_at p m x \<le> x + x * 2 powi (- int p)"
proof -
  have "0 < (2 :: rat) powi (m + int p - 1)" by simp
  then have x: "0 < x" using assms by linarith
  then have b: "2 powi binade x \<le> x" by (rule binade_bounds)
  have "m + int p - 1 \<le> binade x" using binade_mono [OF _ assms] by (simp add: binade_power)
  then have "ulp_exp p m x = binade x - (int p - 1)" using x by (simp add: ulp_exp_def)
  then have "fl_at p m x \<le> x + 2 powi (binade x - int p)"
    using round_at_near [of "ulp_exp p m x" x] x by (simp add: fl_at_def)
  moreover have "(2 :: rat) powi (binade x - int p) \<le> x * 2 powi (- int p)"
    using mult_right_mono [OF b, of "2 powi (- int p)"] by (simp add: power_int_add [symmetric])
  ultimately show ?thesis by linarith
qed

lemma fl64_mono: "x \<le> y \<Longrightarrow> fl64 x \<le> fl64 y"
  by (simp add: fl64_def fl_at_mono)

lemma fl64_int: "\<bar>n\<bar> \<le> 2 ^ 53 \<Longrightarrow> fl64 (of_int n) = of_int n"
  by (simp add: fl64_def fl_at_int)

interpretation f64: rounding fl64 53
  by unfold_locales (simp_all add: fl64_mono fl64_int)

interpretation f32: rounding fl32 24
  by unfold_locales (simp_all add: fl32_def fl_at_mono fl_at_int)

end
