(* ===== verification/Access_Control.thy ===== *)
theory Access_Control
  imports Prelude Float64
begin

unbundle bit_operations_syntax

text \<open>
  The access control of \<^verbatim>\<open>src/src/net/access_control.cpp\<close>: the address filter, the
  per-address token bucket and the tracker of failed logins. An address is a 32-bit word in
  host order; a reading of \<^verbatim>\<open>steady_clock\<close> is an integer number of nanoseconds and is an
  argument of the operations that take one; the default-constructed time point is 0. The
  system's address parser \<^verbatim>\<open>inet_pton\<close> (with \<^verbatim>\<open>ntohl\<close>) is a parameter.
\<close>

section \<open>The address filter\<close>

record Rule =
  network :: u32
  mask :: u32

record IpFilter =
  m_Rules :: "Rule list"
  m_Rejected :: "string list"

text \<open>The loop of \<^verbatim>\<open>Split\<close> from position \<open>start\<close>.\<close>

function Split_from :: "string \<Rightarrow> char \<Rightarrow> nat \<Rightarrow> string list" where
  "Split_from v sep start =
     (if start \<le> length v then
        (let next = find_from v sep start;
             part = trim (case next of None \<Rightarrow> drop start v | Some n \<Rightarrow> substr v start (n - start));
             here = (if part \<noteq> [] then [part] else [])
         in case next of None \<Rightarrow> here | Some n \<Rightarrow> here @ Split_from v sep (n + 1))
      else [])"
  by pat_completeness auto
termination
  by (relation "measure (\<lambda>(v, sep, start). length v + 1 - start)") (auto dest!: find_from_bounds [OF sym])

declare Split_from.simps [simp del]

definition Split :: "string \<Rightarrow> char \<Rightarrow> string list" where
  "Split v sep = Split_from v sep 0"

definition c_str :: "string \<Rightarrow> string" where
  "c_str s = takeWhile (\<lambda>c. c \<noteq> NUL) s"

definition prefix_mask :: "int \<Rightarrow> u32" where
  "prefix_mask bits = (if bits = 0 then 0 else push_bit (nat (32 - bits)) (- 1))"

text \<open>One list entry: the address and the prefix length, \<^term>\<open>None\<close> when it is rejected.\<close>

definition parse_entry :: "(string \<Rightarrow> u32 option) \<Rightarrow> string \<Rightarrow> (u32 \<times> int) option" where
  "parse_entry inet_pton entry =
     (let (address, bits) =
        (case find_char (CHR ''/'') entry of
           None \<Rightarrow> (entry, 32)
         | Some slash \<Rightarrow> (substr entry 0 slash, atoi (drop (slash + 1) entry)))
      in if bits < 0 \<or> bits > 32 then None
         else map_option (\<lambda>ip. (ip, bits)) (inet_pton (c_str address)))"

definition rule_of :: "u32 \<times> int \<Rightarrow> Rule" where
  "rule_of x = (case x of (ip, bits) \<Rightarrow>
     \<lparr>network = ip AND prefix_mask bits, mask = prefix_mask bits\<rparr>)"

definition add_entry :: "(string \<Rightarrow> u32 option) \<Rightarrow> IpFilter \<Rightarrow> string \<Rightarrow> IpFilter" where
  "add_entry inet_pton f entry =
     (case parse_entry inet_pton entry of
        None \<Rightarrow> f\<lparr>m_Rejected := m_Rejected f @ [entry]\<rparr>
      | Some x \<Rightarrow> f\<lparr>m_Rules := m_Rules f @ [rule_of x]\<rparr>)"

definition IpFilter_Configure :: "(string \<Rightarrow> u32 option) \<Rightarrow> string \<Rightarrow> IpFilter" where
  "IpFilter_Configure inet_pton list =
     foldl (add_entry inet_pton) \<lparr>m_Rules = [], m_Rejected = []\<rparr> (Split list (CHR '',''))"

definition IsConfigured :: "IpFilter \<Rightarrow> bool" where
  "IsConfigured f = (m_Rules f \<noteq> [])"

definition Allows :: "IpFilter \<Rightarrow> u32 \<Rightarrow> bool" where
  "Allows f addr = (m_Rules f = [] \<or> list_ex (\<lambda>r. addr AND mask r = network r) (m_Rules f))"

definition IpToString :: "(u32 \<Rightarrow> string option) \<Rightarrow> u32 \<Rightarrow> string" where
  "IpToString inet_ntop addr = (case inet_ntop addr of None \<Rightarrow> ''?'' | Some s \<Rightarrow> s)"


section \<open>The rate limiter\<close>

record Bucket =
  tokens_left :: rat
  last_seen :: int

record RateLimiter =
  m_Buckets :: "u32 \<rightharpoonup> Bucket"
  m_RefillPerSecond :: rat
  m_Burst :: rat
  m_LimiterEnabled :: bool

definition RateLimiter_Configure :: "int \<Rightarrow> int \<Rightarrow> RateLimiter" where
  "RateLimiter_Configure perMinute burst =
     (let b = (if burst > 0 then fl64 (of_int burst) else fl64 (of_int perMinute))
      in \<lparr>m_Buckets = Map.empty, m_RefillPerSecond = fl64 (fl64 (of_int perMinute) / 60),
          m_Burst = (if b < 1 then 1 else b), m_LimiterEnabled = (perMinute > 0)\<rparr>)"

text \<open>\<^verbatim>\<open>std::chrono::duration<double>(d).count()\<close> of a nanosecond count.\<close>

definition duration_seconds :: "int \<Rightarrow> rat" where
  "duration_seconds d = fl64 (fl64 (of_int d) / 1000000000)"

definition refill :: "RateLimiter \<Rightarrow> int \<Rightarrow> Bucket \<Rightarrow> rat" where
  "refill l now b =
     (let elapsed = duration_seconds (now - last_seen b);
          t = fl64 (tokens_left b + fl64 (elapsed * m_RefillPerSecond l))
      in if t > m_Burst l then m_Burst l else t)"

definition Allow :: "int \<Rightarrow> u32 \<Rightarrow> RateLimiter \<Rightarrow> bool \<times> RateLimiter" where
  "Allow now addr l =
     (if \<not> m_LimiterEnabled l then (True, l)
      else case m_Buckets l addr of
        None \<Rightarrow> (True, l\<lparr>m_Buckets := (m_Buckets l)(addr \<mapsto>
                   \<lparr>tokens_left = fl64 (m_Burst l - 1), last_seen = now\<rparr>)\<rparr>)
      | Some b \<Rightarrow>
          (let t = refill l now b
           in if t < 1
              then (False, l\<lparr>m_Buckets := (m_Buckets l)(addr \<mapsto> \<lparr>tokens_left = t, last_seen = now\<rparr>)\<rparr>)
              else (True, l\<lparr>m_Buckets := (m_Buckets l)(addr \<mapsto>
                     \<lparr>tokens_left = fl64 (t - 1), last_seen = now\<rparr>)\<rparr>)))"

definition Forget :: "u32 \<Rightarrow> RateLimiter \<Rightarrow> RateLimiter" where
  "Forget addr l = l\<lparr>m_Buckets := (m_Buckets l)(addr := None)\<rparr>"


section \<open>The failure tracker\<close>

record Entry =
  failures :: int
  windowStart :: int
  blockedUntil :: int

record FailureTracker =
  m_Entries :: "u32 \<rightharpoonup> Entry"
  m_MaxFailures :: int
  m_WindowSeconds :: int
  m_BanSeconds :: int
  m_TrackerEnabled :: bool

abbreviation seconds :: "int \<Rightarrow> int" where
  "seconds s \<equiv> s * 1000000000"

definition new_entry :: Entry where
  "new_entry = \<lparr>failures = 0, windowStart = 0, blockedUntil = 0\<rparr>"

definition FailureTracker_Configure :: "int \<Rightarrow> int \<Rightarrow> int \<Rightarrow> FailureTracker" where
  "FailureTracker_Configure maxFailures windowSeconds banSeconds =
     \<lparr>m_Entries = Map.empty, m_MaxFailures = maxFailures,
      m_WindowSeconds = (if windowSeconds > 0 then windowSeconds else 60),
      m_BanSeconds = (if banSeconds > 0 then banSeconds else 300),
      m_TrackerEnabled = (maxFailures > 0)\<rparr>"

definition IsBlocked :: "int \<Rightarrow> u32 \<Rightarrow> FailureTracker \<Rightarrow> bool \<times> FailureTracker" where
  "IsBlocked now addr t =
     (if \<not> m_TrackerEnabled t then (False, t)
      else case m_Entries t addr of
        None \<Rightarrow> (False, t)
      | Some e \<Rightarrow>
          (if blockedUntil e > now then (True, t)
           else if blockedUntil e \<noteq> 0 then (False, t\<lparr>m_Entries := (m_Entries t)(addr := None)\<rparr>)
           else (False, t)))"

definition count_failure :: "int \<Rightarrow> FailureTracker \<Rightarrow> Entry \<Rightarrow> Entry" where
  "count_failure now t e =
     (if failures e = 0 \<or> now - windowStart e > seconds (m_WindowSeconds t)
      then e\<lparr>windowStart := now, failures := 1\<rparr>
      else e\<lparr>failures := failures e + 1\<rparr>)"

definition RecordFailure :: "int \<Rightarrow> u32 \<Rightarrow> FailureTracker \<Rightarrow> bool \<times> FailureTracker" where
  "RecordFailure now addr t =
     (if \<not> m_TrackerEnabled t then (False, t)
      else
        (let e = count_failure now t (case m_Entries t addr of None \<Rightarrow> new_entry | Some e \<Rightarrow> e)
         in if failures e < m_MaxFailures t
            then (False, t\<lparr>m_Entries := (m_Entries t)(addr \<mapsto> e)\<rparr>)
            else (True, t\<lparr>m_Entries := (m_Entries t)(addr \<mapsto>
                    e\<lparr>blockedUntil := now + seconds (m_BanSeconds t), failures := 0\<rparr>)\<rparr>)))"

definition RecordSuccess :: "int \<Rightarrow> u32 \<Rightarrow> FailureTracker \<Rightarrow> FailureTracker" where
  "RecordSuccess now addr t =
     (if \<not> m_TrackerEnabled t then t
      else case m_Entries t addr of
        None \<Rightarrow> t
      | Some e \<Rightarrow> (if blockedUntil e \<le> now then t\<lparr>m_Entries := (m_Entries t)(addr := None)\<rparr> else t))"

definition SecondsRemaining :: "int \<Rightarrow> u32 \<Rightarrow> FailureTracker \<Rightarrow> int" where
  "SecondsRemaining now addr t =
     (case m_Entries t addr of
        None \<Rightarrow> 0
      | Some e \<Rightarrow> (if blockedUntil e \<le> now then 0
                  else wrap32 ((blockedUntil e - now) div 1000000000)))"


section \<open>Splitting a list\<close>

text \<open>The reference definition: the pieces between separators.\<close>

fun pieces_acc :: "char \<Rightarrow> string \<Rightarrow> string \<Rightarrow> string list" where
  "pieces_acc sep w [] = [rev w]"
| "pieces_acc sep w (c # cs) =
     (if c = sep then rev w # pieces_acc sep [] cs else pieces_acc sep (c # w) cs)"

definition pieces :: "char \<Rightarrow> string \<Rightarrow> string list" where
  "pieces sep s = pieces_acc sep [] s"

lemma pieces_acc_word: "sep \<notin> set l \<Longrightarrow> pieces_acc sep v (l @ r) = pieces_acc sep (rev l @ v) r"
  by (induction l arbitrary: v) auto

lemma pieces_last [simp]: "sep \<notin> set l \<Longrightarrow> pieces sep l = [l]"
  using pieces_acc_word [of sep l "[]" "[]"] by (simp add: pieces_def)

lemma pieces_cons [simp]: "sep \<notin> set l \<Longrightarrow> pieces sep (l @ sep # r) = l # pieces sep r"
  using pieces_acc_word [of sep l "[]" "sep # r"] by (simp add: pieces_def)

lemma Split_from_pieces:
  "start \<le> length v \<Longrightarrow>
     Split_from v sep start = filter (\<lambda>p. p \<noteq> []) (map trim (pieces sep (drop start v)))"
proof (induction v sep start rule: Split_from.induct)
  case (1 v sep start)
  show ?case
  proof (cases "find_from v sep start")
    case None
    then have "sep \<notin> set (drop start v)" by (simp add: find_from_def)
    with 1 None show ?thesis by (subst Split_from.simps) (simp add: Let_def)
  next
    case (Some n)
    then obtain i where i: "find_char sep (drop start v) = Some i" "n = start + i"
      by (auto simp: find_from_def)
    define l r where "l = take i (drop start v)" and "r = drop (n + 1) v"
    from find_char_split [OF i(1)] have d: "drop start v = l @ sep # r" and l: "sep \<notin> set l"
      and n: "n + 1 \<le> length v"
      by (auto simp: l_def r_def i(2) add.commute)
    have "substr v start (n - start) = l" by (simp add: substr_def l_def i(2))
    moreover have "Split_from v sep (n + 1) = filter (\<lambda>p. p \<noteq> []) (map trim (pieces sep r))"
      using "1.IH" [OF "1.prems" refl refl refl Some] n by (simp add: r_def)
    ultimately show ?thesis
      using "1.prems" Some l by (subst Split_from.simps) (simp add: Let_def d)
  qed
qed


lemma Split_pieces: "Split v sep = filter (\<lambda>p. p \<noteq> []) (map trim (pieces sep v))"
  by (simp add: Split_def Split_from_pieces)


section \<open>The meaning of a whitelist\<close>

lemma add_entry_fold:
  "foldl (add_entry p) f es =
     f\<lparr>m_Rules := m_Rules f @ map rule_of (List.map_filter (parse_entry p) es),
       m_Rejected := m_Rejected f @ filter (\<lambda>e. parse_entry p e = None) es\<rparr>"
  by (induction es arbitrary: f) (auto simp: add_entry_def List.map_filter_def split: option.splits)

lemma Configure_eq:
  "IpFilter_Configure p s =
     \<lparr>m_Rules = map rule_of (List.map_filter (parse_entry p) (Split s (CHR '',''))),
      m_Rejected = filter (\<lambda>e. parse_entry p e = None) (Split s (CHR '',''))\<rparr>"
  by (simp add: IpFilter_Configure_def add_entry_fold)

text \<open>The addresses of a block share its first \<open>n\<close> bits.\<close>

definition in_block :: "u32 \<Rightarrow> u32 \<times> int \<Rightarrow> bool" where
  "in_block addr x = (case x of (ip, n) \<Rightarrow>
     unat addr div 2 ^ nat (32 - n) = unat ip div 2 ^ nat (32 - n))"

lemma unat_drop_bit: "unat (drop_bit n w) = unat (w :: u32) div 2 ^ n"
  by (rule trans [OF unat_drop_bit_eq drop_bit_eq_div])

lemma unat_less_32: "unat (w :: u32) < 2 ^ 32"
  by (rule order_less_le_trans [OF unsigned_less]) simp

lemma mask_eq_iff:
  assumes "0 \<le> n" "n \<le> 32"
  shows "addr AND prefix_mask n = ip AND prefix_mask n \<longleftrightarrow> in_block addr (ip, n)"
proof -
  have "addr AND prefix_mask n = ip AND prefix_mask n \<longleftrightarrow>
      drop_bit (nat (32 - n)) addr = drop_bit (nat (32 - n)) ip"
  proof (cases "n = 0")
    case True
    then show ?thesis by (simp add: prefix_mask_def drop_bit_word_beyond)
  next
    case False
    show ?thesis
    proof
      assume eq: "addr AND prefix_mask n = ip AND prefix_mask n"
      show "drop_bit (nat (32 - n)) addr = drop_bit (nat (32 - n)) ip"
      proof (rule bit_word_eqI)
        fix i
        have "bit (addr AND prefix_mask n) (nat (32 - n) + i) = bit (ip AND prefix_mask n) (nat (32 - n) + i)"
          using eq by simp
        then show "bit (drop_bit (nat (32 - n)) addr) i = bit (drop_bit (nat (32 - n)) ip) i"
          using False by (auto simp: prefix_mask_def bit_simps dest: bit_imp_le_length)
      qed
    next
      assume eq: "drop_bit (nat (32 - n)) addr = drop_bit (nat (32 - n)) ip"
      show "addr AND prefix_mask n = ip AND prefix_mask n"
      proof (rule bit_word_eqI)
        fix i
        have "bit (drop_bit (nat (32 - n)) addr) (i - nat (32 - n)) = bit (drop_bit (nat (32 - n)) ip) (i - nat (32 - n))"
          using eq by simp
        then show "bit (addr AND prefix_mask n) i = bit (ip AND prefix_mask n) i"
          using False by (auto simp: prefix_mask_def bit_simps)
      qed
    qed
  qed
  then show ?thesis
    by (simp add: in_block_def unat_drop_bit [symmetric] word_unat_eq_iff)
qed

lemma parse_entry_range: "parse_entry p e = Some (ip, n) \<Longrightarrow> 0 \<le> n \<and> n \<le> 32"
  by (auto simp: parse_entry_def Let_def split: option.splits if_splits)

lemma rule_of_matches:
  "parse_entry p e = Some x \<Longrightarrow> addr AND mask (rule_of x) = network (rule_of x) \<longleftrightarrow> in_block addr x"
  using parse_entry_range mask_eq_iff by (cases x) (auto simp: rule_of_def)

lemma list_ex_map_filter:
  "list_ex P (List.map_filter f es) \<longleftrightarrow> list_ex (\<lambda>e. case f e of None \<Rightarrow> False | Some x \<Rightarrow> P x) es"
  by (induction es) (auto simp: List.map_filter_def split: option.splits)

lemma rule_of_case:
  "(case parse_entry p e of None \<Rightarrow> False | Some x \<Rightarrow> addr AND mask (rule_of x) = network (rule_of x)) =
     (case parse_entry p e of None \<Rightarrow> False | Some x \<Rightarrow> in_block addr x)"
  using rule_of_matches [of p e _ addr] by (cases "parse_entry p e") auto

lemma list_ex_map: "list_ex P (map f xs) = list_ex (\<lambda>x. P (f x)) xs"
  by (induction xs) auto

lemma map_filter_Nil: "List.map_filter f es = [] \<longleftrightarrow> list_all (\<lambda>e. f e = None) es"
  by (induction es) (auto simp: List.map_filter_def split: option.splits)



lemma Allows_iff:
  "Allows (IpFilter_Configure p text) addr \<longleftrightarrow>
     list_all (\<lambda>e. parse_entry p e = None) (Split text (CHR '','')) \<or>
     list_ex (\<lambda>e. case parse_entry p e of None \<Rightarrow> False | Some x \<Rightarrow> in_block addr x) (Split text (CHR '',''))"
  by (simp add: Allows_def Configure_eq map_filter_Nil list_ex_map list_ex_map_filter rule_of_case)


section \<open>Components with a state per address\<close>

text \<open>
  A component keeps one entry per address and a configuration. A call for one address must
  not touch another's entry, and its outcome must depend on the address's own entry only.
  Under this contract the calls of other addresses can be left out of a run without any
  effect on what one address sees.
\<close>

fun run_calls :: "(int \<Rightarrow> u32 \<Rightarrow> 's \<Rightarrow> 'r \<times> 's) \<Rightarrow> (int \<times> u32) list \<Rightarrow> 's \<Rightarrow> (u32 \<times> 'r) list \<times> 's" where
  "run_calls op [] s = ([], s)"
| "run_calls op ((now, a) # es) s =
     (let (r, s') = op now a s; (rs, s'') = run_calls op es s' in ((a, r) # rs, s''))"

locale per_address =
  fixes op :: "int \<Rightarrow> u32 \<Rightarrow> 's \<Rightarrow> 'r \<times> 's"
    and entry :: "'s \<Rightarrow> u32 \<Rightarrow> 'e"
    and cfg :: "'s \<Rightarrow> 'c"
  assumes frame: "b \<noteq> a \<Longrightarrow> entry (snd (op now a s)) b = entry s b"
    and cfg_kept: "cfg (snd (op now a s)) = cfg s"
    and local_result: "entry s a = entry s' a \<Longrightarrow> cfg s = cfg s' \<Longrightarrow> fst (op now a s) = fst (op now a s')"
    and local_entry: "entry s a = entry s' a \<Longrightarrow> cfg s = cfg s' \<Longrightarrow>
      entry (snd (op now a s)) a = entry (snd (op now a s')) a"
begin

lemma run_cfg: "cfg (snd (run_calls op es s)) = cfg s"
proof (induction es arbitrary: s)
  case (Cons e es)
  then show ?case using cfg_kept by (cases e) (auto simp: Let_def split: prod.splits, metis snd_conv)
qed simp

lemma run_frame: "list_all (\<lambda>x. snd x \<noteq> a) es \<Longrightarrow> entry (snd (run_calls op es s)) a = entry s a"
proof (induction es arbitrary: s)
  case (Cons e es)
  obtain now b where e: "e = (now, b)" by (cases e)
  have "entry (snd (run_calls op es (snd (op now b s)))) a = entry (snd (op now b s)) a"
    using Cons by (simp add: e)
  then show ?case using Cons.prems frame [of a b now s] by (auto simp: e split_beta Let_def)
qed simp

lemma noninterference:
  assumes "entry s a = entry s' a" "cfg s = cfg s'"
  shows "filter (\<lambda>x. fst x = a) (fst (run_calls op es s)) =
      fst (run_calls op (filter (\<lambda>x. snd x = a) es) s')"
  using assms
proof (induction es arbitrary: s s')
  case (Cons e es)
  obtain now b where e: "e = (now, b)" by (cases e)
  show ?case
  proof (cases "b = a")
    case True
    have "filter (\<lambda>x. fst x = a) (fst (run_calls op es (snd (op now a s)))) =
        fst (run_calls op (filter (\<lambda>x. snd x = a) es) (snd (op now a s')))"
      by (rule Cons.IH [OF local_entry [OF Cons.prems]]) (simp only: cfg_kept Cons.prems)
    moreover have "fst (op now a s) = fst (op now a s')" by (rule local_result [OF Cons.prems])
    ultimately show ?thesis using True by (simp add: e split_beta Let_def)
  next
    case False
    then show ?thesis
      using Cons.IH [of "snd (op now b s)" s'] frame [of a b now s] cfg_kept [of now b s] Cons.prems
      by (auto simp: e split_beta Let_def)
  qed
qed simp

end

interpretation rl: per_address Allow m_Buckets "\<lambda>l. l\<lparr>m_Buckets := Map.empty\<rparr>"
proof unfold_locales
  fix a b :: u32 and now and s s' :: RateLimiter
  show "b \<noteq> a \<Longrightarrow> m_Buckets (snd (Allow now a s)) b = m_Buckets s b"
    by (auto simp: Allow_def Let_def split: option.splits)
  show "(snd (Allow now a s))\<lparr>m_Buckets := Map.empty\<rparr> = s\<lparr>m_Buckets := Map.empty\<rparr>"
    by (auto simp: Allow_def Let_def split: option.splits)
  assume eq: "m_Buckets s a = m_Buckets s' a" "s\<lparr>m_Buckets := Map.empty\<rparr> = s'\<lparr>m_Buckets := Map.empty\<rparr>"
  from eq(2) have cfg: "m_LimiterEnabled s = m_LimiterEnabled s'" "m_Burst s = m_Burst s'"
      "m_RefillPerSecond s = m_RefillPerSecond s'"
    by (metis RateLimiter.select_convs RateLimiter.surjective RateLimiter.update_convs(1))+
  show "fst (Allow now a s) = fst (Allow now a s')"
    using eq(1) cfg by (auto simp: Allow_def refill_def Let_def split: option.splits)
  show "m_Buckets (snd (Allow now a s)) a = m_Buckets (snd (Allow now a s')) a"
    using eq(1) cfg by (auto simp: Allow_def refill_def Let_def split: option.splits)
qed

interpretation ft: per_address RecordFailure m_Entries "\<lambda>t. t\<lparr>m_Entries := Map.empty\<rparr>"
proof unfold_locales
  fix a b :: u32 and now and s s' :: FailureTracker
  show "b \<noteq> a \<Longrightarrow> m_Entries (snd (RecordFailure now a s)) b = m_Entries s b"
    by (auto simp: RecordFailure_def Let_def split: option.splits)
  show "(snd (RecordFailure now a s))\<lparr>m_Entries := Map.empty\<rparr> = s\<lparr>m_Entries := Map.empty\<rparr>"
    by (auto simp: RecordFailure_def Let_def split: option.splits)
  assume eq: "m_Entries s a = m_Entries s' a" "s\<lparr>m_Entries := Map.empty\<rparr> = s'\<lparr>m_Entries := Map.empty\<rparr>"
  from eq(2) have cfg: "m_TrackerEnabled s = m_TrackerEnabled s'" "m_MaxFailures s = m_MaxFailures s'"
      "m_WindowSeconds s = m_WindowSeconds s'" "m_BanSeconds s = m_BanSeconds s'"
    by (metis FailureTracker.select_convs FailureTracker.surjective FailureTracker.update_convs(1))+
  show "fst (RecordFailure now a s) = fst (RecordFailure now a s')"
    using eq(1) cfg by (simp add: RecordFailure_def count_failure_def Let_def)
  show "m_Entries (snd (RecordFailure now a s)) a = m_Entries (snd (RecordFailure now a s')) a"
    using eq(1) cfg by (simp add: RecordFailure_def count_failure_def Let_def)
qed



section \<open>The rate limiter's invariant\<close>

text \<open>
  The burst is a whole number, every bucket holds between no token and a full burst, and no
  bucket was used after \<open>now\<close>.
\<close>

definition bucket_ok :: "RateLimiter \<Rightarrow> int \<Rightarrow> Bucket \<Rightarrow> bool" where
  "bucket_ok l now b = (0 \<le> tokens_left b \<and> tokens_left b \<le> m_Burst l \<and> last_seen b \<le> now)"

definition limiter_ok :: "int \<Rightarrow> RateLimiter \<Rightarrow> bool" where
  "limiter_ok now l =
     (m_Burst l = of_int \<lfloor>m_Burst l\<rfloor> \<and> 1 \<le> m_Burst l \<and> m_Burst l \<le> 2 ^ 31 \<and>
      (m_LimiterEnabled l \<longrightarrow> 0 \<le> m_RefillPerSecond l) \<and>
      (\<forall>a b. m_Buckets l a = Some b \<longrightarrow> bucket_ok l now b))"

lemma limiter_okD:
  assumes "limiter_ok now l"
  shows "m_Burst l = of_int \<lfloor>m_Burst l\<rfloor>" "1 \<le> m_Burst l" "m_Burst l \<le> 2 ^ 31" "\<bar>\<lfloor>m_Burst l\<rfloor>\<bar> \<le> 2 ^ 53"
    "m_LimiterEnabled l \<Longrightarrow> 0 \<le> m_RefillPerSecond l"
    "m_Buckets l a = Some b \<Longrightarrow> 0 \<le> tokens_left b \<and> tokens_left b \<le> m_Burst l \<and> last_seen b \<le> now"
proof -
  show B: "m_Burst l = of_int \<lfloor>m_Burst l\<rfloor>" "1 \<le> m_Burst l" "m_Burst l \<le> 2 ^ 31"
    using assms by (simp_all add: limiter_ok_def)
  have "\<lfloor>m_Burst l\<rfloor> \<le> 2 ^ 31" "1 \<le> \<lfloor>m_Burst l\<rfloor>" using floor_mono [OF B(3)] B(2) by simp_all
  then show "\<bar>\<lfloor>m_Burst l\<rfloor>\<bar> \<le> 2 ^ 53" by simp
  show "m_LimiterEnabled l \<Longrightarrow> 0 \<le> m_RefillPerSecond l" using assms by (simp add: limiter_ok_def)
  show "m_Buckets l a = Some b \<Longrightarrow> 0 \<le> tokens_left b \<and> tokens_left b \<le> m_Burst l \<and> last_seen b \<le> now"
    using assms by (simp add: limiter_ok_def bucket_ok_def)
qed

lemma fl64_int32: "in_int32 i \<Longrightarrow> fl64 (of_int i) = of_int i"
  by (rule fl64_int) (auto simp: in_int32_def abs_if)

lemma limiter_ok_Configure:
  assumes "in_int32 p" "in_int32 b"
  shows "limiter_ok now (RateLimiter_Configure p b)"
proof -
  have "0 < p \<Longrightarrow> 0 \<le> fl64 (fl64 (of_int p) / 60)"
    using assms(1) by (simp add: fl64_int32 f64.rnd_nonneg)
  then show ?thesis
    using assms by (auto simp: limiter_ok_def RateLimiter_Configure_def Let_def fl64_int32 in_int32_def)
qed

lemma duration_nonneg: "0 \<le> d \<Longrightarrow> 0 \<le> duration_seconds d"
  by (simp add: duration_seconds_def f64.rnd_nonneg)

lemma refill_bounds:
  assumes "limiter_ok now l" "m_LimiterEnabled l" "m_Buckets l a = Some b" "now \<le> now'"
  shows "0 \<le> refill l now' b" "refill l now' b \<le> m_Burst l"
proof -
  have b: "0 \<le> tokens_left b" "last_seen b \<le> now'" "0 \<le> m_RefillPerSecond l" "1 \<le> m_Burst l"
    using limiter_okD(2,5) [OF assms(1)] limiter_okD(6) [OF assms(1,3)] assms(2,4) by simp_all
  then have "0 \<le> fl64 (duration_seconds (now' - last_seen b) * m_RefillPerSecond l)"
    by (intro f64.rnd_nonneg mult_nonneg_nonneg duration_nonneg) auto
  then have "0 \<le> fl64 (tokens_left b + fl64 (duration_seconds (now' - last_seen b) * m_RefillPerSecond l))"
    using b by (intro f64.rnd_nonneg) simp
  with b show "0 \<le> refill l now' b" "refill l now' b \<le> m_Burst l" by (auto simp: refill_def Let_def)
qed

lemma spend_bounds:
  assumes "limiter_ok now l" "1 \<le> t" "t \<le> m_Burst l"
  shows "0 \<le> fl64 (t - 1)" "fl64 (t - 1) \<le> m_Burst l"
proof -
  show "0 \<le> fl64 (t - 1)" using assms(2) by (simp add: f64.rnd_nonneg)
  have "t - 1 \<le> of_int \<lfloor>m_Burst l\<rfloor>" using limiter_okD(1) [OF assms(1)] assms(3) by linarith
  then show "fl64 (t - 1) \<le> m_Burst l" using f64.rnd_le_int limiter_okD(1,4) [OF assms(1)] by metis
qed

lemma limiter_ok_upd:
  "limiter_ok now l \<Longrightarrow> now \<le> now' \<Longrightarrow> 0 \<le> t \<Longrightarrow> t \<le> m_Burst l \<Longrightarrow>
     limiter_ok now' (l\<lparr>m_Buckets := (m_Buckets l)(a \<mapsto> \<lparr>tokens_left = t, last_seen = now'\<rparr>)\<rparr>)"
  by (auto simp: limiter_ok_def bucket_ok_def intro: order_trans)

lemma limiter_ok_later: "limiter_ok now l \<Longrightarrow> now \<le> now' \<Longrightarrow> limiter_ok now' l"
  by (fastforce simp: limiter_ok_def bucket_ok_def)

lemma limiter_ok_Allow:
  assumes "limiter_ok now l" "now \<le> now'"
  shows "limiter_ok now' (snd (Allow now' a l))"
proof (cases "m_LimiterEnabled l")
  case False
  with assms show ?thesis by (simp add: Allow_def limiter_ok_later)
next
  case True
  show ?thesis
  proof (cases "m_Buckets l a")
    case None
    then show ?thesis
      using True assms spend_bounds [OF assms(1), of "m_Burst l"] limiter_okD(2) [OF assms(1)]
      by (simp add: Allow_def limiter_ok_upd)
  next
    case (Some b)
    then show ?thesis
      using True assms refill_bounds [OF assms(1) True Some assms(2)] spend_bounds [OF assms(1), of "refill l now' b"]
      by (auto simp: Allow_def Let_def limiter_ok_upd)
  qed
qed

lemma limiter_ok_Forget: "limiter_ok now l \<Longrightarrow> limiter_ok now (Forget a l)"
  by (auto simp: limiter_ok_def bucket_ok_def Forget_def split: if_splits)

lemma limiter_ok_run:
  "limiter_ok now l \<Longrightarrow> sorted (now # map fst es) \<Longrightarrow>
     limiter_ok (last (now # map fst es)) (snd (run_calls Allow es l))"
proof (induction es arbitrary: now l)
  case (Cons e es)
  obtain t a where e: "e = (t, a)" by (cases e)
  have "limiter_ok t (snd (Allow t a l))" using Cons.prems by (simp add: e limiter_ok_Allow)
  from Cons.IH [OF this] Cons.prems show ?case by (simp add: e split_beta Let_def)
qed simp


section \<open>Bursts and refills\<close>

lemma refill_same_instant:
  assumes "tokens_left b = of_int k" "0 \<le> k" "of_int k \<le> m_Burst l" "m_Burst l \<le> 2 ^ 31" "last_seen b = now"
  shows "refill l now b = of_int k"
proof -
  have "of_int k \<le> (of_int (2 ^ 31) :: rat)" using assms(3,4) by simp
  then have "k \<le> 2 ^ 31" by (simp only: of_int_le_iff)
  then have "fl64 (of_int k) = of_int k" using assms(2) by (intro fl64_int) simp
  then show ?thesis using assms by (simp add: refill_def duration_seconds_def Let_def)
qed

lemma burst_run:
  assumes "m_LimiterEnabled l" "limiter_ok now l" "m_Buckets l a = Some b"
    "tokens_left b = of_int (int k)" "last_seen b = now"
  shows "fst (run_calls Allow (replicate n (now, a)) l) =
      replicate (min n k) (a, True) @ replicate (n - k) (a, False)"
  using assms
proof (induction n arbitrary: l b k)
  case (Suc n)
  have B: "of_int (int k) \<le> m_Burst l" "m_Burst l \<le> 2 ^ 31"
    using limiter_okD(3) [OF Suc.prems(2)] limiter_okD(6) [OF Suc.prems(2,3)] Suc.prems(4) by simp_all
  then have t: "refill l now b = of_int (int k)"
    using Suc.prems by (intro refill_same_instant) auto
  let ?l = "snd (Allow now a l)"
  have ok: "limiter_ok now ?l" "m_LimiterEnabled ?l"
    using Suc.prems limiter_ok_Allow [of now l now a] rl.cfg_kept [of now a l]
    by (auto simp: Allow_def Let_def split: option.splits)
  show ?case
  proof (cases k)
    case 0
    have "m_Buckets ?l a = Some \<lparr>tokens_left = 0, last_seen = now\<rparr>" "fst (Allow now a l) = False"
      using Suc.prems t 0 by (simp_all add: Allow_def Let_def)
    then show ?thesis
      using Suc.IH [OF ok(2,1), of "\<lparr>tokens_left = 0, last_seen = now\<rparr>" 0] 0
      by (simp add: split_beta Let_def)
  next
    case (Suc j)
    have "fl64 (of_int (int j)) = of_int (int j)"
    proof (rule fl64_int)
      have "of_int (int k) \<le> (of_int (2 ^ 31) :: rat)" using B by simp
      then have "int k \<le> 2 ^ 31" by (simp only: of_int_le_iff)
      then show "\<bar>int j\<bar> \<le> 2 ^ 53" using Suc by simp
    qed
    then have "m_Buckets ?l a = Some \<lparr>tokens_left = of_int (int j), last_seen = now\<rparr>"
      "fst (Allow now a l) = True"
      using Suc.prems t Suc by (simp_all add: Allow_def Let_def)
    then show ?thesis
      using Suc.IH [OF ok(2,1), of "\<lparr>tokens_left = of_int (int j), last_seen = now\<rparr>" j] Suc
      by (simp add: split_beta Let_def)
  qed
qed simp

lemma refill_rate: "1 \<le> p \<Longrightarrow> in_int32 p \<Longrightarrow> 1 / 61 \<le> fl64 (fl64 (of_int p) / 60)"
proof -
  assume p: "1 \<le> p" "in_int32 p"
  have "1 / 61 \<le> fl64 (1 / 60)" by code_simp
  also have "\<dots> \<le> fl64 (fl64 (of_int p) / 60)"
    using p by (intro fl64_mono) (simp add: fl64_int32)
  finally show ?thesis .
qed


lemma quiet_refill:
  assumes "limiter_ok now0 l" "m_LimiterEnabled l" "m_Buckets l a = Some b"
    "1 / 61 \<le> m_RefillPerSecond l" "last_seen b + seconds 61 \<le> now"
  shows "1 \<le> refill l now b"
proof -
  let ?d = "now - last_seen b"
  have "of_int (seconds 61) \<le> fl64 (of_int ?d)"
    using assms(5) by (intro f64.rnd_ge_int) simp_all
  then have "of_int 61 \<le> duration_seconds ?d"
    unfolding duration_seconds_def by (intro f64.rnd_ge_int) simp_all
  then have "of_int 1 \<le> duration_seconds ?d * m_RefillPerSecond l"
    using assms(4) mult_mono [of 61 "duration_seconds ?d" "1 / 61" "m_RefillPerSecond l"] by simp
  then have "of_int 1 \<le> fl64 (duration_seconds ?d * m_RefillPerSecond l)"
    by (rule f64.rnd_ge_int) simp
  then have "of_int 1 \<le> fl64 (tokens_left b + fl64 (duration_seconds ?d * m_RefillPerSecond l))"
    using limiter_okD(6) [OF assms(1,3)] by (intro f64.rnd_ge_int) simp_all
  then show ?thesis using limiter_okD(2) [OF assms(1)] by (simp add: refill_def Let_def)
qed

lemma Allow_bucket: "m_LimiterEnabled l \<Longrightarrow> \<exists>b. m_Buckets (snd (Allow now a l)) a = Some b"
  by (auto simp: Allow_def Let_def split: option.splits)

lemma run_last_seen:
  "m_Buckets (snd (run_calls Allow es l)) a = Some b \<Longrightarrow>
     m_Buckets l a = Some b \<or> (last_seen b, a) \<in> set es"
proof (induction es arbitrary: l)
  case (Cons e es)
  obtain t x where e: "e = (t, x)" by (cases e)
  from Cons have "m_Buckets (snd (Allow t x l)) a = Some b \<or> (last_seen b, a) \<in> set es"
    by (simp add: e split_beta Let_def)
  then show ?case by (auto simp: e Allow_def Let_def split: option.splits if_splits)
qed simp


section \<open>Failures and lockout\<close>

lemma run_calls_append:
  "run_calls op (xs @ ys) s =
     (let (r1, s1) = run_calls op xs s; (r2, s2) = run_calls op ys s1 in (r1 @ r2, s2))"
  by (induction xs arbitrary: s) (auto simp: Let_def split: prod.splits)

lemma RecordFailure_within:
  assumes "m_TrackerEnabled t" "m_Entries t a = Some e" "0 < failures e"
    "now - windowStart e \<le> seconds (m_WindowSeconds t)"
  shows "failures e + 1 < m_MaxFailures t \<Longrightarrow> RecordFailure now a t =
      (False, t\<lparr>m_Entries := (m_Entries t)(a \<mapsto> e\<lparr>failures := failures e + 1\<rparr>)\<rparr>)"
    and "failures e + 1 = m_MaxFailures t \<Longrightarrow> RecordFailure now a t =
      (True, t\<lparr>m_Entries := (m_Entries t)(a \<mapsto>
         e\<lparr>blockedUntil := now + seconds (m_BanSeconds t), failures := 0\<rparr>)\<rparr>)"
  using assms by (simp_all add: RecordFailure_def count_failure_def Let_def)

lemma fail_run:
  assumes "m_TrackerEnabled t" "m_Entries t a = Some e" "0 < failures e"
    "list_all (\<lambda>x. x - windowStart e \<le> seconds (m_WindowSeconds t)) ts"
    "failures e + int (length ts) < m_MaxFailures t"
  shows "run_calls RecordFailure (map (\<lambda>x. (x, a)) ts) t =
    (map (\<lambda>_. (a, False)) ts,
     t\<lparr>m_Entries := (m_Entries t)(a \<mapsto> e\<lparr>failures := failures e + int (length ts)\<rparr>)\<rparr>)"
  using assms
proof (induction ts arbitrary: t e)
  case Nil
  then show ?case by (simp add: map_upd_triv)
next
  case (Cons x ts)
  let ?e = "e\<lparr>failures := failures e + 1\<rparr>" and ?t = "t\<lparr>m_Entries := (m_Entries t)(a \<mapsto> e\<lparr>failures := failures e + 1\<rparr>)\<rparr>"
  have "RecordFailure x a t = (False, ?t)"
    using Cons.prems by (intro RecordFailure_within) auto
  moreover have "run_calls RecordFailure (map (\<lambda>x. (x, a)) ts) ?t =
      (map (\<lambda>_. (a, False)) ts,
       ?t\<lparr>m_Entries := (m_Entries ?t)(a \<mapsto> ?e\<lparr>failures := failures ?e + int (length ts)\<rparr>)\<rparr>)"
    using Cons.prems by (intro Cons.IH) auto
  ultimately show ?case by (simp add: algebra_simps del: fun_upd_apply)
qed

text \<open>The tracker after the failures at \<open>ts\<close> that exhaust the allowance.\<close>

lemma lockout_run:
  assumes "0 < m" "length ts = nat m" "list_all (\<lambda>x. x - hd ts \<le> seconds w) ts" "0 < w" "0 < b"
  shows "\<exists>t'. run_calls RecordFailure (map (\<lambda>x. (x, a)) ts) (FailureTracker_Configure m w b) =
      (map (\<lambda>_. (a, False)) (butlast ts) @ [(a, True)], t') \<and> m_TrackerEnabled t' \<and> m_BanSeconds t' = b \<and>
      (\<exists>e. m_Entries t' a = Some e \<and> blockedUntil e = last ts + seconds b)"
proof -
  let ?t = "FailureTracker_Configure m w b"
  have conf: "m_TrackerEnabled ?t" "m_Entries ?t a = None" "m_MaxFailures ?t = m" "m_WindowSeconds ?t = w" "m_BanSeconds ?t = b"
    using assms by (simp_all add: FailureTracker_Configure_def)
  obtain x xs where ts: "ts = x # xs" using assms(1,2) by (cases ts) auto
  show ?thesis
  proof (cases xs rule: rev_cases)
    case Nil
    with assms(1,2) ts have "m = 1" by simp
    then show ?thesis using conf Nil
      by (simp add: ts RecordFailure_def count_failure_def new_entry_def Let_def)
  next
    case (snoc ys y)
    let ?e = "\<lparr>failures = 1, windowStart = x, blockedUntil = 0\<rparr>"
    let ?t1 = "?t\<lparr>m_Entries := (m_Entries ?t)(a \<mapsto> ?e)\<rparr>"
    let ?e2 = "?e\<lparr>failures := 1 + int (length ys)\<rparr>"
    let ?t2 = "?t1\<lparr>m_Entries := (m_Entries ?t1)(a \<mapsto> ?e2)\<rparr>"
    have len: "m = int (length ys) + 2" using assms(1,2) ts snoc by simp
    have "RecordFailure x a ?t = (False, ?t1)"
      using conf len by (simp add: RecordFailure_def count_failure_def new_entry_def Let_def)
    moreover have "run_calls RecordFailure (map (\<lambda>x. (x, a)) ys) ?t1 = (map (\<lambda>_. (a, False)) ys, ?t2)"
      using conf len assms(3) fail_run [of ?t1 a ?e ys] by (simp add: ts snoc)
    moreover have "RecordFailure y a ?t2 =
        (True, ?t2\<lparr>m_Entries := (m_Entries ?t2)(a \<mapsto> ?e2\<lparr>blockedUntil := y + seconds b, failures := 0\<rparr>)\<rparr>)"
      using conf len assms(3) RecordFailure_within(2) [of ?t2 a ?e2 y] by (simp add: ts snoc)
    ultimately show ?thesis using conf
      by (simp add: ts snoc run_calls_append butlast_append del: fun_upd_apply) (simp add: FailureTracker_Configure_def)
  qed
qed

text \<open>The tracker's operations, in any order and for any address, with time moving forward.\<close>

inductive tracker_step :: "int \<Rightarrow> FailureTracker \<Rightarrow> FailureTracker \<Rightarrow> bool" where
  fail: "tracker_step now t (snd (RecordFailure now b t))"
| success: "tracker_step now t (RecordSuccess now b t)"
| check: "tracker_step now t (snd (IsBlocked now b t))"

inductive tracker_steps :: "FailureTracker \<Rightarrow> int \<Rightarrow> FailureTracker \<Rightarrow> int \<Rightarrow> bool" where
  start: "tracker_steps t now t now"
| wait: "tracker_steps t now t' now' \<Longrightarrow> now' \<le> now'' \<Longrightarrow> tracker_steps t now t' now''"
| step: "tracker_steps t now t' now' \<Longrightarrow> tracker_step now' t' t'' \<Longrightarrow> tracker_steps t now t'' now'"

definition blocked_until :: "FailureTracker \<Rightarrow> u32 \<Rightarrow> int \<Rightarrow> bool" where
  "blocked_until t a T = (\<exists>e. m_Entries t a = Some e \<and> T \<le> blockedUntil e)"

lemma tracker_step_cfg:
  "tracker_step now t t' \<Longrightarrow> m_BanSeconds t' = m_BanSeconds t \<and> m_TrackerEnabled t' = m_TrackerEnabled t"
  by (induction rule: tracker_step.induct)
    (auto simp: RecordFailure_def RecordSuccess_def IsBlocked_def Let_def split: option.splits)

lemma tracker_step_blocked:
  assumes "tracker_step now t t'" "blocked_until t a T" "now < T" "T \<le> now + seconds (m_BanSeconds t)"
  shows "blocked_until t' a T"
  using assms
proof (induction rule: tracker_step.induct)
  case (fail now t b)
  then show ?case
    by (auto simp: blocked_until_def RecordFailure_def count_failure_def Let_def split: option.splits)
next
  case (success now t b)
  then show ?case by (auto simp: blocked_until_def RecordSuccess_def split: option.splits)
next
  case (check now t b)
  then show ?case by (auto simp: blocked_until_def IsBlocked_def split: option.splits)
qed

lemma tracker_steps_blocked:
  assumes "tracker_steps t now t' now'" "blocked_until t a T" "now' < T" "T \<le> now + seconds (m_BanSeconds t)"
  shows "blocked_until t' a T \<and> m_BanSeconds t' = m_BanSeconds t \<and>
    m_TrackerEnabled t' = m_TrackerEnabled t \<and> now \<le> now'"
  using assms
proof (induction rule: tracker_steps.induct)
  case (step t now t' now' t'')
  then have IH: "blocked_until t' a T" "m_BanSeconds t' = m_BanSeconds t"
      "m_TrackerEnabled t' = m_TrackerEnabled t" "now \<le> now'" by blast+
  with step.prems have "blocked_until t'' a T"
    by (intro tracker_step_blocked [OF step.hyps(2)]) simp_all
  with IH tracker_step_cfg [OF step.hyps(2)] show ?case by simp
qed auto

lemma IsBlocked_blocked: "m_TrackerEnabled t \<Longrightarrow> blocked_until t a T \<Longrightarrow> now < T \<Longrightarrow> fst (IsBlocked now a t)"
  by (auto simp: blocked_until_def IsBlocked_def)



section \<open>Properties\<close>


text \<open>
  A prefix length that is no number is read as 0, so the entry matches every address:
  one entry such as \<^verbatim>\<open>10.0.0.1/x\<close> opens the listener to everyone, although an unparseable
  entry is meant to be ignored.
\<close>
lemma whitelist_junk_prefix_opens:
  assumes "inet_pton a = Some ip" "a \<noteq> []" "trimmed a" "set a \<inter> {CHR '','', CHR ''/'', NUL} = {}"
  shows "Allows (IpFilter_Configure inet_pton (a @ ''/x'')) addr"
proof -
  have t: "trim (a @ ''/x'') = a @ ''/x''"
    using assms(2,3) by (intro trim_trimmed) (auto simp: trimmed_def)
  have p: "pieces (CHR '','') (a @ ''/x'') = [a @ ''/x'']" using assms(4) by (intro pieces_last) auto
  have "c_str a = a" using assms(4) by (auto simp: c_str_def takeWhile_eq_all_conv)
  moreover have "atoi ''x'' = 0"
    by (simp add: atoi_def atol_def strtol_def strtol_raw_def is_space_def is_digit_def Let_def wrap32_def)
  moreover have "find_char (CHR ''/'') (a @ ''/x'') = Some (length a)"
    using assms(4) find_char_append [of "CHR ''/''" a "''x''"] by auto
  ultimately have "parse_entry inet_pton (a @ ''/x'') = Some (ip, 0)"
    using assms(1) by (simp add: parse_entry_def substr_def)
  moreover have "in_block addr (ip, 0)"
    using unat_less_32 [of addr] unat_less_32 [of ip] by (simp add: in_block_def)
  ultimately show ?thesis by (simp add: Allows_iff Split_pieces t p)
qed


lemma whitelist_junk_prefix_opens_witness:
  "\<not> Allows (IpFilter_Configure (\<lambda>s. if s = ''10.0.0.1'' then Some 0x0A000001 else None) ''10.0.0.1'') 0x08080808 \<and>
   Allows (IpFilter_Configure (\<lambda>s. if s = ''10.0.0.1'' then Some 0x0A000001 else None) (''10.0.0.1'' @ ''/x'')) 0x08080808"
proof
  let ?p = "\<lambda>s. if s = ''10.0.0.1'' then Some 0x0A000001 else None"
  have "Split ''10.0.0.1'' (CHR '','') = [''10.0.0.1'']"
    using trim_trimmed [of "''10.0.0.1''"] pieces_last [of "CHR '',''" "''10.0.0.1''"]
    by (simp add: Split_pieces trimmed_def)
  then show "\<not> Allows (IpFilter_Configure ?p ''10.0.0.1'') 0x08080808"
    by (simp add: Allows_iff parse_entry_def c_str_def in_block_def)
  show "Allows (IpFilter_Configure ?p (''10.0.0.1'' @ ''/x'')) 0x08080808"
    by (rule whitelist_junk_prefix_opens) (simp_all add: trimmed_def)
qed

text \<open>
  With a positive rate and burst, a new address can run exactly \<open>burst\<close> commands at
  one instant: the first \<open>burst\<close> calls are allowed and all later ones refused.
\<close>
lemma burst_exact:
  assumes "0 < perMinute" "0 < burst" "in_int32 perMinute" "in_int32 burst"
  shows "fst (run_calls Allow (replicate n (now, a)) (RateLimiter_Configure perMinute burst)) =
    replicate (min n (nat burst)) (a, True) @ replicate (n - nat burst) (a, False)"
proof (cases n)
  case (Suc m)
  let ?l = "RateLimiter_Configure perMinute burst" and ?b = "\<lparr>tokens_left = of_int (int (nat burst - 1)), last_seen = now\<rparr>"
  have B: "m_Burst ?l = of_int burst" "m_LimiterEnabled ?l" "m_Buckets ?l a = None"
    using assms by (simp_all add: RateLimiter_Configure_def Let_def fl64_int32)
  have "fl64 (of_int burst - 1) = of_int (int (nat burst - 1))"
    using assms(2,4) fl64_int32 [of "burst - 1"] by (simp add: in_int32_def of_nat_diff)
  then have A: "Allow now a ?l = (True, ?l\<lparr>m_Buckets := (m_Buckets ?l)(a \<mapsto> ?b)\<rparr>)"
    by (simp only: Allow_def B if_False simp_thms option.case)
  have "limiter_ok now (snd (Allow now a ?l))"
    using limiter_ok_Configure assms(3,4) by (intro limiter_ok_Allow [of now]) simp_all
  then have "fst (run_calls Allow (replicate m (now, a)) (snd (Allow now a ?l))) =
      replicate (min m (nat burst - 1)) (a, True) @ replicate (m - (nat burst - 1)) (a, False)"
    using A B by (intro burst_run [where b = ?b]) simp_all
  moreover obtain k where "nat burst = Suc k" using assms(2) by (cases "nat burst") auto
  ultimately show ?thesis using A Suc by (simp add: split_beta Let_def)
qed simp

lemma burst_exact_witness:
  "map snd (fst (run_calls Allow (replicate 5 (0, 7)) (RateLimiter_Configure 60 3))) =
     [True, True, True, False, False]"
proof -
  have "fst (run_calls Allow (replicate 5 (0, 7)) (RateLimiter_Configure 60 3)) =
      replicate (min 5 (nat 3)) (7, True) @ replicate (5 - nat 3) (7, False)"
    by (rule burst_exact) (simp_all add: in_int32_def)
  then show ?thesis by (simp add: eval_nat_numeral)
qed

text \<open>
  Whatever addresses call and in whatever order, as long as time moves forward, every
  bucket holds at least no token and at most a full burst: rounding errors of the
  floating-point refill never break the bounds, and idling does not accumulate credit.
\<close>
lemma rate_bucket_bounds:
  assumes "in_int32 perMinute" "in_int32 burst" "sorted (map fst es)"
    "m_Buckets (snd (run_calls Allow es (RateLimiter_Configure perMinute burst))) a = Some b"
  shows "0 \<le> tokens_left b \<and> tokens_left b \<le> m_Burst (RateLimiter_Configure perMinute burst)"
proof (cases es)
  case (Cons e es')
  let ?l = "RateLimiter_Configure perMinute burst"
  have ok: "limiter_ok (last (fst e # map fst es)) (snd (run_calls Allow es ?l))"
    using assms(1-3) by (intro limiter_ok_run limiter_ok_Configure) (simp_all add: Cons)
  have "m_Burst (snd (run_calls Allow es ?l)) = m_Burst ?l"
    using arg_cong [OF rl.run_cfg [of es ?l], of m_Burst] by simp
  with limiter_okD(6) [OF ok assms(4)] show ?thesis by simp
qed (use assms(4) in \<open>simp add: RateLimiter_Configure_def Let_def\<close>)

lemma rate_bucket_bounds_witness:
  "tokens_left (the (m_Buckets (snd (run_calls Allow [(0, 7), (9000000000, 7)] (RateLimiter_Configure 60 3))) 7)) \<le> 3"
proof -
  let ?r = "snd (run_calls Allow [(0, 7), (9000000000, 7)] (RateLimiter_Configure 60 3))"
  have "m_LimiterEnabled (snd (Allow 0 7 (RateLimiter_Configure 60 3)))"
    using arg_cong [OF rl.cfg_kept [of 0 7 "RateLimiter_Configure 60 3"], of m_LimiterEnabled]
    by (simp add: RateLimiter_Configure_def Let_def)
  then obtain b where b: "m_Buckets ?r 7 = Some b"
    using Allow_bucket [of "snd (Allow 0 7 (RateLimiter_Configure 60 3))" 9000000000 7]
    by (auto simp: split_beta Let_def)
  have "0 \<le> tokens_left b \<and> tokens_left b \<le> m_Burst (RateLimiter_Configure 60 3)"
    by (rule rate_bucket_bounds [OF _ _ _ b]) (simp_all add: in_int32_def)
  then show ?thesis using b fl64_int32 [of 3] by (simp add: RateLimiter_Configure_def Let_def in_int32_def)
qed

text \<open>
  The limiter is fair between addresses: the decisions an address gets in a run with
  other callers interleaved are those it gets when the others are left out.
\<close>
lemma rate_noninterference:
  "filter (\<lambda>x. fst x = a) (fst (run_calls Allow es l)) =
     fst (run_calls Allow (filter (\<lambda>x. snd x = a) es) l)"
  by (rule rl.noninterference) simp_all

text \<open>
  No starvation: with any positive rate, an address whose last call lies at least 61
  seconds back is allowed again, whatever happened before and whatever the rounding of the
  refill rate.
\<close>
lemma rate_quiet_allowed:
  assumes "0 < perMinute" "in_int32 perMinute" "in_int32 burst" "sorted (map fst es)"
    "list_all (\<lambda>(t, x). x = a \<longrightarrow> t + seconds 61 \<le> now) es"
  shows "fst (Allow now a (snd (run_calls Allow es (RateLimiter_Configure perMinute burst))))"
proof -
  let ?l = "RateLimiter_Configure perMinute burst"
  let ?r = "snd (run_calls Allow es ?l)"
  have cfg: "?r\<lparr>m_Buckets := Map.empty\<rparr> = ?l\<lparr>m_Buckets := Map.empty\<rparr>" by (rule rl.run_cfg)
  have rate: "m_RefillPerSecond ?r = fl64 (fl64 (of_int perMinute) / 60)" "m_LimiterEnabled ?r"
    using arg_cong [OF cfg, of m_RefillPerSecond] arg_cong [OF cfg, of m_LimiterEnabled] assms(1)
    by (simp_all add: RateLimiter_Configure_def Let_def)
  show ?thesis
  proof (cases "m_Buckets ?r a")
    case None
    then show ?thesis by (simp add: Allow_def)
  next
    case (Some b)
    with run_last_seen [OF Some] have "(last_seen b, a) \<in> set es"
      by (simp add: RateLimiter_Configure_def Let_def)
    with assms(5) have "last_seen b + seconds 61 \<le> now" by (auto simp: list_all_iff)
    moreover obtain e es' where "es = e # es'" using \<open>(last_seen b, a) \<in> set es\<close> by (cases es) auto
    then have "limiter_ok (last (fst e # map fst es)) ?r"
      using assms(2-4) by (intro limiter_ok_run limiter_ok_Configure) simp_all
    ultimately have "1 \<le> refill ?r now b"
      using rate Some refill_rate [of perMinute] assms(1,2) by (intro quiet_refill) simp_all
    then show ?thesis using rate(2) Some by (simp add: Allow_def Let_def)
  qed
qed


lemma rate_quiet_allowed_witness:
  "fst (Allow (seconds 100) 7 (snd (run_calls Allow [(0, 7), (0, 7), (seconds 99, 8)] (RateLimiter_Configure 1 1))))"
  by (rule rate_quiet_allowed) (simp_all add: in_int32_def)



text \<open>
  A lockout ends: from the moment its time is up the address is no longer refused, the
  check deletes its entry, and its next failure counts as a first one.
\<close>
lemma lockout_expires:
  assumes "m_Entries t a = Some e" "blockedUntil e \<le> now" "blockedUntil e \<noteq> 0" "m_TrackerEnabled t"
    "1 < m_MaxFailures t"
  shows "IsBlocked now a t = (False, t\<lparr>m_Entries := (m_Entries t)(a := None)\<rparr>) \<and>
    RecordFailure now' a (snd (IsBlocked now a t)) = (False, t\<lparr>m_Entries := (m_Entries t)(a \<mapsto>
       \<lparr>failures = 1, windowStart = now', blockedUntil = 0\<rparr>)\<rparr>)"
  using assms by (simp_all add: IsBlocked_def RecordFailure_def count_failure_def new_entry_def Let_def)

lemma lockout_expires_witness:
  "snd (IsBlocked (seconds 400) 7 \<lparr>m_Entries = [7 \<mapsto> \<lparr>failures = 0, windowStart = 0, blockedUntil = seconds 300\<rparr>],
     m_MaxFailures = 5, m_WindowSeconds = 60, m_BanSeconds = 300, m_TrackerEnabled = True\<rparr>) =
   FailureTracker_Configure 5 60 300"
proof -
  let ?e = "\<lparr>failures = 0, windowStart = 0, blockedUntil = seconds 300\<rparr>"
  let ?t = "\<lparr>m_Entries = [7 \<mapsto> ?e], m_MaxFailures = 5, m_WindowSeconds = 60, m_BanSeconds = 300, m_TrackerEnabled = True\<rparr>"
  have "IsBlocked (seconds 400) 7 ?t = (False, ?t\<lparr>m_Entries := (m_Entries ?t)(7 := None)\<rparr>)"
    using lockout_expires [of ?t 7 ?e "seconds 400"] by simp
  then show ?thesis by (simp add: FailureTracker_Configure_def)
qed

text \<open>
  The failure window is fixed, not sliding: under the default limits (5 failures within
  60 seconds) an address that fails once, three times at the very end of the window this
  opens and four times a nanosecond later is never refused, after seven failures in a row.
\<close>
lemma window_not_sliding:
  "fst (run_calls RecordFailure (map (\<lambda>x. (x, a)) [0, seconds 60, seconds 60, seconds 60, seconds 60 + 1, seconds 60 + 1, seconds 60 + 1, seconds 60 + 1])
     (FailureTracker_Configure 5 60 300)) = replicate 8 (a, False)"
  by (simp add: FailureTracker_Configure_def RecordFailure_def count_failure_def new_entry_def eval_nat_numeral)

end
