(* ===== verification/Socket.thy ===== *)
theory Socket
  imports Prelude
begin

text \<open>
  A connected TCP socket as both servers see it. The kernel decides how the peer's bytes are
  cut into the results of \<^verbatim>\<open>recv\<close> and how much each \<^verbatim>\<open>send\<close> takes, so both are arguments:
  the incoming side is the list of segments still to arrive, an empty segment or the end of
  the list standing for a result of at most 0 (the peer closed, an error or the timeout of
  \<^verbatim>\<open>SO_RCVTIMEO\<close>); the outgoing side is the list of the counts the coming \<^verbatim>\<open>send\<close> calls
  accept, 0 or the end of the list standing for a result of at most 0.
\<close>

type_synonym incoming = "string list"
type_synonym outgoing = "nat list"

text \<open>One \<^verbatim>\<open>recv\<close> of at most \<open>n\<close> bytes; \<open>[]\<close> is a result of at most 0.\<close>

fun recv :: "nat \<Rightarrow> incoming \<Rightarrow> string \<times> incoming" where
  "recv n [] = ([], [])"
| "recv n (x # xs) = (take n x, if length x \<le> n then xs else drop n x # xs)"

text \<open>The bytes that arrive before the stream fails.\<close>

fun stream :: "incoming \<Rightarrow> string" where
  "stream [] = []"
| "stream (x # xs) = (if x = [] then [] else x @ stream xs)"

lemma recv_length: "length (fst (recv n xs)) \<le> n"
  by (cases xs) auto

lemma recv_stream: "stream xs = fst (recv n xs) @ (if fst (recv n xs) = [] then stream xs else stream (snd (recv n xs)))"
proof (cases xs)
  case (Cons x xs')
  show ?thesis
  proof (cases "length x \<le> n")
    case False
    then have "stream (drop n x # xs') = drop n x @ stream xs'" by simp
    with Cons False show ?thesis by (cases n) (simp_all add: append_assoc [symmetric] del: append_assoc)
  qed (use Cons in simp)
qed simp

lemma recv_empty: "0 < n \<Longrightarrow> fst (recv n xs) = [] \<longleftrightarrow> stream xs = []"
  by (cases xs) auto

text \<open>
  The loop that sends a whole buffer: it ends when all bytes are taken or a \<^verbatim>\<open>send\<close> fails.
  The result is whether all bytes went out, the bytes on the wire, and the counts left.
\<close>

fun send_all :: "outgoing \<Rightarrow> string \<Rightarrow> bool \<times> string \<times> outgoing" where
  "send_all ns [] = (True, [], ns)"
| "send_all [] (c # s) = (False, [], [])"
| "send_all (n # ns) (c # s) =
     (if n = 0 then (False, [], ns)
      else let (ok, w, ns') = send_all ns (drop n (c # s)) in (ok, take n (c # s) @ w, ns'))"

lemma send_all_prefix: "\<exists>r. s = fst (snd (send_all ns s)) @ r \<and> (fst (send_all ns s) \<longrightarrow> r = [])"
proof (induction ns s rule: send_all.induct)
  case (3 n ns c s)
  show ?case
  proof (cases "n = 0")
    case False
    let ?d = "drop n (c # s)"
    have step: "fst (send_all (n # ns) (c # s)) = fst (send_all ns ?d)"
        "fst (snd (send_all (n # ns) (c # s))) = take n (c # s) @ fst (snd (send_all ns ?d))"
      using False by (simp_all only: send_all.simps if_False split_beta Let_def fst_conv snd_conv)
    from 3 [OF False] obtain r where r: "?d = fst (snd (send_all ns ?d)) @ r"
        "fst (send_all ns ?d) \<longrightarrow> r = []" by blast
    have "c # s = take n (c # s) @ ?d" by (rule append_take_drop_id [symmetric])
    also have "\<dots> = (take n (c # s) @ fst (snd (send_all ns ?d))) @ r" by (subst r(1)) (rule append_assoc [symmetric])
    finally have "c # s = fst (snd (send_all (n # ns) (c # s))) @ r" by (simp only: step)
    with r(2) show ?thesis by (intro exI [of _ r] conjI) (simp_all only: step)
  qed simp
qed simp_all

text \<open>A socket that keeps accepting bytes.\<close>

definition accepting :: "outgoing \<Rightarrow> nat \<Rightarrow> bool" where
  "accepting ns k = (k \<le> length ns \<and> list_all (\<lambda>n. 0 < n) ns)"

lemma send_all_accepting: "accepting ns (length s) \<Longrightarrow> fst (send_all ns s) \<and> fst (snd (send_all ns s)) = s"
proof (induction ns s rule: send_all.induct)
  case (3 n ns c s)
  have "accepting ns (length (drop n (c # s)))" using "3.prems" unfolding accepting_def length_drop by simp linarith
  moreover have "n \<noteq> 0" using "3.prems" by (simp add: accepting_def)
  ultimately have "fst (send_all ns (drop n (c # s)))" "fst (snd (send_all ns (drop n (c # s)))) = drop n (c # s)"
    using "3.IH" by blast+
  with \<open>n \<noteq> 0\<close> show ?case by (simp add: split_beta Let_def del: take_Cons drop_Cons)
qed (simp_all add: accepting_def)


section \<open>Listening servers\<close>

text \<open>
  The contract of the two listeners: \<open>start\<close> refuses while the server runs and otherwise
  reports whether it runs now; after \<open>stop\<close> it does not; a server holds a socket exactly
  while it runs.
\<close>

datatype 'x life = Start 'x | Stop

locale listener =
  fixes inv :: "'s \<Rightarrow> bool"
    and is_running :: "'s \<Rightarrow> bool"
    and socket_of :: "'s \<Rightarrow> int"
    and start :: "'x \<Rightarrow> 's \<Rightarrow> bool \<times> 's"
    and stop :: "'s \<Rightarrow> 's"
  assumes inv_start: "inv s \<Longrightarrow> inv (snd (start x s))"
    and inv_stop: "inv s \<Longrightarrow> inv (stop s)"
    and start_busy: "is_running s \<Longrightarrow> start x s = (False, s)"
    and start_reports: "\<not> is_running s \<Longrightarrow> fst (start x s) = is_running (snd (start x s))"
    and stop_stops: "\<not> is_running (stop s)"
    and socket_iff: "inv s \<Longrightarrow> is_running s \<longleftrightarrow> 0 \<le> socket_of s"
begin

definition life_step :: "'s \<Rightarrow> 'x life \<Rightarrow> 's" where
  "life_step s a = (case a of Start x \<Rightarrow> snd (start x s) | Stop \<Rightarrow> stop s)"

lemma life_inv: "inv s \<Longrightarrow> inv (foldl life_step s as)"
  by (induction as arbitrary: s) (auto simp: life_step_def inv_start inv_stop split: life.splits)

text \<open>Whatever was called before, a stopped server holds no socket.\<close>

lemma no_socket_leak: "inv s \<Longrightarrow> socket_of (foldl life_step s (as @ [Stop])) < 0"
  using life_inv [of s "as @ [Stop]"] socket_iff [of "foldl life_step s (as @ [Stop])"] stop_stops
  by (fastforce simp: life_step_def)

text \<open>A start that fails on a stopped server leaves no socket open.\<close>

lemma failed_start: "inv s \<Longrightarrow> \<not> is_running s \<Longrightarrow> \<not> fst (start x s) \<Longrightarrow> socket_of (snd (start x s)) < 0"
  using start_reports [of s x] socket_iff [OF inv_start, of s x] by fastforce

end

end
