(* ===== verification/Http.thy ===== *)
theory Http
  imports Socket Access_Control Config
begin

text \<open>
  The HTTP server of \<^verbatim>\<open>src/src/http/http_server.cpp\<close>: parsing a request off the socket,
  decoding the query, authorisation, routing, the response text, and the listener's
  life cycle. A route handler may throw and may change the program's state, so it maps a
  request and the state to an optional response (\<^term>\<open>None\<close> when it throws) and the new
  state. The results of the system calls are arguments.
\<close>

section \<open>Requests and responses\<close>

type_synonym dict = "string \<rightharpoonup> string"

record HttpRequest =
  req_method :: string
  req_path :: string
  req_body :: string
  req_headers :: dict
  req_query :: dict

record HttpResponse =
  resp_status :: int
  resp_body :: string
  resp_contentType :: string

definition Response :: "int \<Rightarrow> HttpResponse" where
  "Response s = \<lparr>resp_status = s, resp_body = [], resp_contentType = ''application/json''\<rparr>"

type_synonym 'w RouteHandler = "HttpRequest \<Rightarrow> 'w \<Rightarrow> HttpResponse option \<times> 'w"

record 'w RouteEntry =
  route_method :: string
  route_path :: string
  route_handler :: "'w RouteHandler"


section \<open>Decoding a query\<close>

definition is_hex :: "char \<Rightarrow> bool" where
  "is_hex c = (is_digit c \<or> (97 \<le> code c \<and> code c \<le> 102) \<or> (65 \<le> code c \<and> code c \<le> 70))"

definition hex_val :: "char \<Rightarrow> nat" where
  "hex_val c = (if is_digit c then digit_val c else if 97 \<le> code c then code c - 87 else code c - 55)"

text \<open>
  The value \<^verbatim>\<open>iss >> std::hex >> hex\<close> reads from two characters, as a \<^verbatim>\<open>char\<close>: blanks are
  skipped, a sign is accepted, the digits run up to the first other character, and a failed
  extraction leaves 0.
\<close>

definition hex_pair :: "char \<Rightarrow> char \<Rightarrow> char" where
  "hex_pair a b =
     (let s = dropWhile is_space [a, b];
          neg = (s \<noteq> [] \<and> hd s = CHR ''-'');
          signed = (s \<noteq> [] \<and> (hd s = CHR ''-'' \<or> hd s = CHR ''+''));
          ds = takeWhile is_hex (if signed then tl s else s);
          n = int (foldl (\<lambda>v d. 16 * v + hex_val d) 0 ds)
      in char_of (nat ((if neg then - n else n) mod 256)))"

fun UrlDecode :: "string \<Rightarrow> string" where
  "UrlDecode [] = []"
| "UrlDecode (c # s) =
     (if c = CHR ''%'' \<and> 2 \<le> length s then hex_pair (s ! 0) (s ! 1) # UrlDecode (drop 2 s)
      else (if c = CHR ''+'' then CHR '' '' else c) # UrlDecode s)"

definition query_add :: "dict \<Rightarrow> string \<Rightarrow> dict" where
  "query_add q pair =
     (case find_char (CHR ''='') pair of
        None \<Rightarrow> q(UrlDecode pair \<mapsto> [])
      | Some eq \<Rightarrow> q(UrlDecode (substr pair 0 eq) \<mapsto> UrlDecode (drop (eq + 1) pair)))"

text \<open>The loop of \<^verbatim>\<open>ParseQuery\<close> from position \<open>start\<close>.\<close>

function query_from :: "string \<Rightarrow> nat \<Rightarrow> dict \<Rightarrow> dict" where
  "query_from qs start q =
     (if start < length qs then
        (case find_from qs (CHR ''&'') start of
           None \<Rightarrow> query_add q (drop start qs)
         | Some amp \<Rightarrow> query_from qs (amp + 1) (query_add q (substr qs start (amp - start))))
      else q)"
  by pat_completeness auto
termination
  by (relation "measure (\<lambda>(qs, start, q). length qs + 1 - start)") (auto dest!: find_from_bounds)

declare query_from.simps [simp del]

definition ParseQuery :: "string \<Rightarrow> dict \<Rightarrow> string \<times> dict" where
  "ParseQuery fullPath q =
     (case find_char (CHR ''?'') fullPath of
        None \<Rightarrow> (fullPath, q)
      | Some qmark \<Rightarrow> (substr fullPath 0 qmark, query_from (drop (qmark + 1) fullPath) 0 q))"


section \<open>Parsing a request\<close>

abbreviation CRLF :: string where "CRLF \<equiv> [CR, LF]"

definition parse_header :: "dict \<Rightarrow> string \<Rightarrow> dict" where
  "parse_header h line =
     (let line = strip_cr line
      in case find_char (CHR '':'') line of
           None \<Rightarrow> h
         | Some colon \<Rightarrow>
             h(substr line 0 colon \<mapsto> dropWhile (\<lambda>c. c = CHR '' '') (drop (colon + 1) line)))"

text \<open>The loop that reads the rest of the body; the buffer holds 8192 bytes.\<close>

function read_body :: "nat \<Rightarrow> string \<Rightarrow> incoming \<Rightarrow> string \<times> incoming" where
  "read_body n body xs =
     (if length body < n then
        (let remaining = n - length body;
             (r, xs') = recv (if remaining < 8192 then remaining else 8192) xs
         in if r = [] then (body, xs') else read_body n (body @ r) xs')
      else (body, xs))"
  by pat_completeness auto
termination
  by (relation "measure (\<lambda>(n, body, xs). n - length body)") (auto simp flip: length_greater_0_conv)

declare read_body.simps [simp del]

definition word_at :: "string list \<Rightarrow> nat \<Rightarrow> string" where
  "word_at ws i = (if i < length ws then ws ! i else [])"

definition ParseRequest :: "incoming \<Rightarrow> (string + HttpRequest) \<times> incoming" where
  "ParseRequest xs =
     (let (raw, xs1) = recv 8191 xs
      in if raw = [] then (Inl ''recv failed'', xs1)
         else case find_sub (CRLF @ CRLF) raw of
           None \<Rightarrow> (Inl ''incomplete headers'', xs1)
         | Some headerEnd \<Rightarrow>
             (let lines = getlines (substr raw 0 headerEnd);
                  body = drop (headerEnd + 4) raw;
                  requestLine = (case lines of [] \<Rightarrow> [] | l # _ \<Rightarrow> strip_cr l);
                  ws = tokens requestLine;
                  hs = foldl parse_header Map.empty (drop 1 lines);
                  (p, q) = ParseQuery (word_at ws 1) Map.empty;
                  (body', xs2) =
                    (case hs ''Content-Length'' of
                       None \<Rightarrow> (body, xs1)
                     | Some v \<Rightarrow> (let contentLength = atol v
                                 in if 0 < contentLength \<and> contentLength < 8 * 1024 * 1024
                                    then read_body (nat contentLength) body xs1 else (body, xs1)))
              in (Inr \<lparr>req_method = word_at ws 0, req_path = p, req_body = body',
                       req_headers = hs, req_query = q\<rparr>, xs2)))"


section \<open>Sending a response\<close>

definition statusText :: "int \<Rightarrow> string" where
  "statusText s =
     (if s = 200 then ''OK'' else if s = 201 then ''Created'' else if s = 400 then ''Bad Request''
      else if s = 401 then ''Unauthorized'' else if s = 404 then ''Not Found''
      else if s = 405 then ''Method Not Allowed'' else if s = 500 then ''Internal Server Error''
      else if s = 503 then ''Service Unavailable'' else ''OK'')"

definition response_lines :: "HttpResponse \<Rightarrow> string list" where
  "response_lines resp =
     [''HTTP/1.1 '' @ to_string (resp_status resp) @ '' '' @ statusText (resp_status resp),
      ''Content-Type: '' @ resp_contentType resp,
      ''Content-Length: '' @ show_nat (length (resp_body resp)),
      ''Access-Control-Allow-Origin: *'',
      ''Access-Control-Allow-Methods: GET, POST, PUT, DELETE, OPTIONS'',
      ''Access-Control-Allow-Headers: Content-Type, Authorization'',
      ''Connection: close'']"

definition crlf_lines :: "string list \<Rightarrow> string" where
  "crlf_lines ls = concat (map (\<lambda>l. l @ CRLF) ls)"

definition response_text :: "HttpResponse \<Rightarrow> string" where
  "response_text resp = crlf_lines (response_lines resp) @ CRLF @ resp_body resp"

definition SendResponse :: "outgoing \<Rightarrow> HttpResponse \<Rightarrow> string" where
  "SendResponse ns resp = fst (snd (send_all ns (response_text resp)))"


section \<open>Authorisation and routing\<close>

definition authorized :: "string \<Rightarrow> dict \<Rightarrow> bool" where
  "authorized bearerToken h =
     (case h ''Authorization'' of
        None \<Rightarrow> False
      | Some authHeader \<Rightarrow>
          length authHeader > length ''Bearer '' \<and> substr authHeader 0 (length ''Bearer '') = ''Bearer '' \<and>
          drop (length ''Bearer '') authHeader = bearerToken)"

definition find_route :: "'w RouteEntry list \<Rightarrow> HttpRequest \<Rightarrow> 'w RouteEntry option" where
  "find_route rs req = find (\<lambda>r. route_method r = req_method req \<and> route_path r = req_path req) rs"

definition error_body :: "string \<Rightarrow> string" where
  "error_body msg = ''{'' @ [QUOTE] @ ''error'' @ [QUOTE] @ '':'' @ [QUOTE] @ msg @ [QUOTE] @ ''}''"

definition dispatch :: "'w RouteEntry list \<Rightarrow> HttpRequest \<Rightarrow> 'w \<Rightarrow> HttpResponse \<times> 'w" where
  "dispatch rs req w =
     (case find_route rs req of
        None \<Rightarrow> ((Response 404)\<lparr>resp_body := error_body ''Not found''\<rparr>, w)
      | Some r \<Rightarrow>
          (case route_handler r req w of
             (Some resp, w') \<Rightarrow> (resp, w')
           | (None, w') \<Rightarrow> ((Response 500)\<lparr>resp_body := error_body ''Internal server error''\<rparr>, w')))"

definition answer :: "string \<Rightarrow> 'w RouteEntry list \<Rightarrow> HttpRequest \<Rightarrow> 'w \<Rightarrow> HttpResponse \<times> 'w" where
  "answer bearerToken rs req w =
     (if req_method req = ''OPTIONS'' then (Response 200, w)
      else if bearerToken \<noteq> [] \<and> \<not> authorized bearerToken (req_headers req)
      then ((Response 401)\<lparr>resp_body := error_body ''Unauthorized: invalid or missing bearer token''\<rparr>, w)
      else dispatch rs req w)"

text \<open>The bytes sent to the client, \<open>[]\<close> when the connection is closed without a reply.\<close>

definition HttpServer_HandleClient ::
    "string \<Rightarrow> 'w RouteEntry list \<Rightarrow> incoming \<Rightarrow> outgoing \<Rightarrow> 'w \<Rightarrow> string \<times> 'w" where
  "HttpServer_HandleClient bearerToken rs xs ns w =
     (case fst (ParseRequest xs) of
        Inl _ \<Rightarrow> ([], w)
      | Inr req \<Rightarrow> (let (resp, w') = answer bearerToken rs req w in (SendResponse ns resp, w')))"


section \<open>The listener\<close>

record 'w HttpServer =
  listenSocket :: int
  routes :: "'w RouteEntry list"
  running :: bool
  m_Port :: int
  m_BindAddress :: string
  listenerThread :: bool
  ipFilter :: IpFilter
  activeClients :: int

definition new_HttpServer :: "'w HttpServer" where
  "new_HttpServer = \<lparr>listenSocket = -1, routes = [], running = False, m_Port = 0, m_BindAddress = [],
     listenerThread = False, ipFilter = \<lparr>m_Rules = [], m_Rejected = []\<rparr>, activeClients = 0\<rparr>"

definition SetIpWhitelist :: "(string \<Rightarrow> u32 option) \<Rightarrow> string \<Rightarrow> 'w HttpServer \<Rightarrow> 'w HttpServer" where
  "SetIpWhitelist inet_pton whitelist s = s\<lparr>ipFilter := IpFilter_Configure inet_pton whitelist\<rparr>"

definition Route :: "string \<Rightarrow> string \<Rightarrow> 'w RouteHandler \<Rightarrow> 'w HttpServer \<Rightarrow> 'w HttpServer" where
  "Route m p h s = s\<lparr>routes := routes s @ [\<lparr>route_method = m, route_path = p, route_handler = h\<rparr>]\<rparr>"

definition Get :: "string \<Rightarrow> 'w RouteHandler \<Rightarrow> 'w HttpServer \<Rightarrow> 'w HttpServer" where
  "Get p h s = Route ''GET'' p h s"

definition Post :: "string \<Rightarrow> 'w RouteHandler \<Rightarrow> 'w HttpServer \<Rightarrow> 'w HttpServer" where
  "Post p h s = Route ''POST'' p h s"

definition Put :: "string \<Rightarrow> 'w RouteHandler \<Rightarrow> 'w HttpServer \<Rightarrow> 'w HttpServer" where
  "Put p h s = Route ''PUT'' p h s"

definition Delete :: "string \<Rightarrow> 'w RouteHandler \<Rightarrow> 'w HttpServer \<Rightarrow> 'w HttpServer" where
  "Delete p h s = Route ''DELETE'' p h s"

text \<open>The address bound for a \<^verbatim>\<open>BindAddress\<close>; 0 is \<^verbatim>\<open>INADDR_ANY\<close>.\<close>

definition bind_addr :: "(string \<Rightarrow> u32 option) \<Rightarrow> string \<Rightarrow> u32" where
  "bind_addr inet_pton a =
     (if a = [] \<or> a = ''0.0.0.0'' then 0
      else case inet_pton (c_str a) of None \<Rightarrow> 0 | Some ip \<Rightarrow> ip)"

text \<open>
  \<^verbatim>\<open>Start\<close>: \<open>fd\<close> is the result of \<^verbatim>\<open>socket\<close>, \<open>bind_ok\<close> and \<open>listen_ok\<close> whether \<^verbatim>\<open>bind\<close>
  and \<^verbatim>\<open>listen\<close> succeed.
\<close>

definition HttpServer_Start ::
    "(string \<Rightarrow> u32 option) \<Rightarrow> int \<Rightarrow> (u32 \<Rightarrow> nat \<Rightarrow> bool) \<Rightarrow> bool \<Rightarrow> int \<Rightarrow> string \<Rightarrow> 'w HttpServer \<Rightarrow> bool \<times> 'w HttpServer" where
  "HttpServer_Start inet_pton fd bind_ok listen_ok port bindAddress s =
     (if running s then (False, s)
      else
        (let s1 = s\<lparr>m_Port := port, m_BindAddress := bindAddress, listenSocket := fd\<rparr>
         in if fd < 0 then (False, s1)
            else if \<not> bind_ok (bind_addr inet_pton bindAddress) (nat (port mod 2 ^ 16))
            then (False, s1\<lparr>listenSocket := -1\<rparr>)
            else if \<not> listen_ok then (False, s1\<lparr>listenSocket := -1\<rparr>)
            else (True, s1\<lparr>running := True, listenerThread := True\<rparr>)))"

definition HttpServer_Stop :: "'w HttpServer \<Rightarrow> 'w HttpServer" where
  "HttpServer_Stop s =
     (if \<not> running s then s
      else s\<lparr>running := False, listenerThread := False,
             listenSocket := (if listenSocket s \<ge> 0 then -1 else listenSocket s)\<rparr>)"

text \<open>
  What happens to the listener thread between two looks at \<^verbatim>\<open>running\<close>: nothing to accept (or
  \<^verbatim>\<open>accept\<close> failed), a connection, or the end of a client's thread.
\<close>

datatype listener_event = Idle | Connection int u32 | ClientDone

text \<open>
  The listener loop over the events of its run: the sockets handed to client threads with
  their peers, the sockets closed at once, and the server afterwards.
\<close>

fun HttpServer_ListenerLoop ::
    "listener_event list \<Rightarrow> 'w HttpServer \<Rightarrow> (int \<times> u32) list \<times> int list \<times> 'w HttpServer" where
  "HttpServer_ListenerLoop [] s = ([], [], s)"
| "HttpServer_ListenerLoop (ev # evs) s =
     (if \<not> running s \<or> listenSocket s < 0 then ([], [], s)
      else case ev of
        Idle \<Rightarrow> HttpServer_ListenerLoop evs s
      | ClientDone \<Rightarrow> HttpServer_ListenerLoop evs (s\<lparr>activeClients := activeClients s - 1\<rparr>)
      | Connection fd peer \<Rightarrow>
          (if \<not> Allows (ipFilter s) peer
           then (let (up, down, s') = HttpServer_ListenerLoop evs s in (up, fd # down, s'))
           else (let (up, down, s') = HttpServer_ListenerLoop evs (s\<lparr>activeClients := activeClients s + 1\<rparr>)
                 in ((fd, peer) # up, down, s'))))"


section \<open>Queries\<close>

text \<open>The reference: percent-encoding, and the pairs between ampersands.\<close>

definition url_plain :: "char \<Rightarrow> bool" where
  "url_plain c = (c \<noteq> CHR ''%'' \<and> c \<noteq> CHR ''+'' \<and> c \<noteq> CHR ''&'' \<and> c \<noteq> CHR ''='' \<and> c \<noteq> CHR ''?'' \<and> 33 \<le> code c \<and> code c \<le> 126)"

definition url_char :: "char \<Rightarrow> string" where
  "url_char c = (if url_plain c then [c] else [CHR ''%'', hex_digit (code c div 16), hex_digit (code c mod 16)])"

definition UrlEncode :: "string \<Rightarrow> string" where
  "UrlEncode s = concat (map url_char s)"

lemma hex_digit_val:
  assumes "d < 16"
  shows "is_hex (hex_digit d)" "hex_val (hex_digit d) = d" "\<not> is_space (hex_digit d)"
    "hex_digit d \<noteq> CHR ''-''" "hex_digit d \<noteq> CHR ''+''"
proof -
  have c: "code (hex_digit d) = (if d < 10 then 48 + d else 87 + d)" using assms by (rule hex_digit_code)
  show "is_hex (hex_digit d)" using assms c by (auto simp: is_hex_def is_digit_def)
  show "hex_val (hex_digit d) = d" using assms c by (auto simp: hex_val_def is_digit_def digit_val_def)
  have "45 < code (hex_digit d)" using c by simp
  then show "\<not> is_space (hex_digit d)" "hex_digit d \<noteq> CHR ''-''" "hex_digit d \<noteq> CHR ''+''"
    by (auto simp: is_space_def)
qed

lemma code_nibbles: "code c div 16 < 16" "code c mod 16 < 16"
  by (rule less_mult_imp_div_less) simp_all

lemma hex_pair_digits: "hex_pair (hex_digit (code c div 16)) (hex_digit (code c mod 16)) = c"
proof -
  have "code c < 256" by simp
  then show ?thesis using code_nibbles [of c]
    by (simp add: hex_pair_def hex_digit_val Let_def zmod_int [symmetric] nat_int_add
        flip: of_nat_mult of_nat_add)
qed

lemma UrlDecode_url_char: "UrlDecode (url_char c @ s) = c # UrlDecode s"
  by (cases "url_plain c") (auto simp: url_char_def url_plain_def hex_pair_digits)

lemma UrlDecode_UrlEncode [simp]: "UrlDecode (UrlEncode s) = s"
  by (induction s) (simp_all add: UrlEncode_def UrlDecode_url_char)

lemma url_char_chars: "x \<in> set (url_char c) \<Longrightarrow> x = CHR ''%'' \<or> url_plain x"
proof -
  have H: "url_plain (hex_digit d)" if "d < 16" for d
    using hex_digit_code [OF that] that by (auto simp: url_plain_def split: if_splits)
  note code_nibbles [of c]
  moreover assume "x \<in> set (url_char c)"
  ultimately show ?thesis using H by (auto simp: url_char_def split: if_splits)
qed

lemma UrlEncode_notin: "c \<in> {CHR ''&'', CHR ''='', CHR ''?''} \<Longrightarrow> c \<notin> set (UrlEncode s)"
  by (auto simp: UrlEncode_def url_plain_def dest!: url_char_chars)

definition query_pairs :: "string \<Rightarrow> string list" where
  "query_pairs s = (let qs = pieces (CHR ''&'') s in if last qs = [] then butlast qs else qs)"

lemma pieces_acc_not_Nil [simp]: "pieces_acc sep w s \<noteq> []"
  by (induction sep w s rule: pieces_acc.induct) auto

lemma pieces_not_Nil [simp]: "pieces sep s \<noteq> []"
  by (simp add: pieces_def)

lemma query_from_pairs: "start \<le> length qs \<Longrightarrow> query_from qs start q = foldl query_add q (query_pairs (drop start qs))"
proof (induction qs start q rule: query_from.induct)
  case (1 qs start q)
  show ?case
  proof (cases "start < length qs")
    case False
    with "1.prems" show ?thesis by (subst query_from.simps) (simp add: query_pairs_def)
  next
    case less: True
    show ?thesis
    proof (cases "find_from qs (CHR ''&'') start")
      case None
      then have "CHR ''&'' \<notin> set (drop start qs)" by (simp add: find_from_def)
      with less None show ?thesis by (subst query_from.simps) (simp add: query_pairs_def)
    next
      case (Some n)
      then obtain i where i: "find_char (CHR ''&'') (drop start qs) = Some i" "n = start + i"
        by (auto simp: find_from_def)
      define l r where "l = take i (drop start qs)" and "r = drop (n + 1) qs"
      from find_char_split [OF i(1)] have d: "drop start qs = l @ CHR ''&'' # r" and l: "CHR ''&'' \<notin> set l"
        and n: "n + 1 \<le> length qs"
        by (auto simp: l_def r_def i(2) add.commute)
      have "substr qs start (n - start) = l" by (simp add: substr_def l_def i(2))
      moreover have "query_pairs (l @ CHR ''&'' # r) = l # query_pairs r"
        using l by (simp add: query_pairs_def Let_def)
      moreover have "query_from qs (n + 1) (query_add q l) = foldl query_add (query_add q l) (query_pairs r)"
        using "1.IH" [OF less Some] n \<open>substr qs start (n - start) = l\<close> by (simp add: r_def)
      ultimately show ?thesis using less Some by (subst query_from.simps) (simp add: d)
    qed
  qed
qed

fun join_with :: "char \<Rightarrow> string list \<Rightarrow> string" where
  "join_with sep [] = []"
| "join_with sep [w] = w"
| "join_with sep (w # v # ws) = w @ sep # join_with sep (v # ws)"

lemma pieces_join_with: "ws \<noteq> [] \<Longrightarrow> list_all (\<lambda>w. sep \<notin> set w) ws \<Longrightarrow> pieces sep (join_with sep ws) = ws"
  by (induction sep ws rule: join_with.induct) auto

definition query_pair :: "string \<times> string \<Rightarrow> string" where
  "query_pair p = UrlEncode (fst p) @ ''='' @ UrlEncode (snd p)"

definition query_text :: "(string \<times> string) list \<Rightarrow> string" where
  "query_text ps = join_with (CHR ''&'') (map query_pair ps)"

lemma query_add_pair: "query_add q (query_pair p) = q(fst p \<mapsto> snd p)"
proof -
  let ?k = "UrlEncode (fst p)" and ?v = "UrlEncode (snd p)"
  have "CHR ''='' \<notin> set ?k" using UrlEncode_notin by simp
  then have "find_char (CHR ''='') (?k @ CHR ''='' # ?v) = Some (length ?k)" by simp
  then show ?thesis by (simp add: query_add_def query_pair_def substr_def)
qed

lemma foldl_upd: "foldl (\<lambda>q p. q(fst p \<mapsto> snd p)) q ps = q ++ map_of (rev ps)"
  by (induction ps arbitrary: q) (auto simp: map_add_def fun_eq_iff split: option.splits)

lemma query_text_pairs: "query_pairs (query_text ps) = map query_pair ps"
proof (cases ps)
  case (Cons p ps')
  have "list_all (\<lambda>w. CHR ''&'' \<notin> set w) (map query_pair ps)"
    using UrlEncode_notin by (auto simp: list_all_iff query_pair_def)
  moreover have "last (map query_pair ps) \<noteq> []"
    using Cons by (simp add: last_map query_pair_def)
  ultimately show ?thesis using Cons pieces_join_with [of "map query_pair ps" "CHR ''&''"]
    by (simp add: query_pairs_def query_text_def)
qed (simp add: query_text_def query_pairs_def)

lemma ParseQuery_text:
  assumes "CHR ''?'' \<notin> set path"
  shows "ParseQuery (path @ ''?'' @ query_text ps) q = (path, q ++ map_of (rev ps))"
proof -
  have "foldl query_add q (map query_pair ps) = foldl (\<lambda>q p. q(fst p \<mapsto> snd p)) q ps"
    by (simp add: foldl_map query_add_pair)
  then show ?thesis
    using assms query_from_pairs [of 0 "query_text ps" q]
    by (simp add: ParseQuery_def substr_def query_text_pairs foldl_upd)
qed

section \<open>Reading the body\<close>

lemma read_body_stream:
  "length body \<le> n \<Longrightarrow> fst (read_body n body xs) = take n (body @ stream xs)"
proof (induction n body xs rule: read_body.induct)
  case (1 n body xs)
  show ?case
  proof (cases "length body < n")
    case False
    with "1.prems" show ?thesis by (subst read_body.simps) simp
  next
    case True
    define m where "m = (if n - length body < 8192 then n - length body else 8192)"
    obtain r xs' where r: "recv m xs = (r, xs')" by (cases "recv m xs")
    have len: "length r \<le> m" "0 < m" "m \<le> n - length body" using recv_length [of m xs] r True by (auto simp: m_def)
    have step: "read_body n body xs = (if r = [] then (body, xs') else read_body n (body @ r) xs')"
      using True r by (subst read_body.simps) (simp add: m_def Let_def)
    show ?thesis
    proof (cases "r = []")
      case True
      then have "stream xs = []" using recv_empty [OF len(2), of xs] r by simp
      with step True "1.prems" show ?thesis by simp
    next
      case False
      have "stream xs = r @ stream xs'" using recv_stream [of xs m] r False by simp
      moreover have "fst (read_body n (body @ r) xs') = take n ((body @ r) @ stream xs')"
        using "1.IH" [OF True refl _ _ _ _] r False len by (simp add: m_def)
      ultimately show ?thesis using step False by simp
    qed
  qed
qed

section \<open>Header blocks\<close>

fun crlf_join :: "string list \<Rightarrow> string" where
  "crlf_join [] = []"
| "crlf_join [l] = l"
| "crlf_join (l # m # ls) = l @ CRLF @ crlf_join (m # ls)"

definition header_line :: "string \<Rightarrow> bool" where
  "header_line l = (l \<noteq> [] \<and> CR \<notin> set l \<and> LF \<notin> set l)"

lemma header_line_last: "header_line l \<Longrightarrow> last l \<noteq> CR"
  by (metis header_line_def last_in_set)

lemma crlf_lines_join: "ls \<noteq> [] \<Longrightarrow> crlf_lines ls = crlf_join ls @ CRLF"
  by (induction ls rule: crlf_join.induct) (auto simp: crlf_lines_def)

lemma hd_crlf_join: "header_line l \<Longrightarrow> \<exists>c s. crlf_join (l # ls) = c # s \<and> c \<noteq> CR"
  by (cases ls; cases l) (auto simp: header_line_def)

lemma crlf_join_no_start: "list_all header_line ls \<Longrightarrow> no_start (CRLF @ CRLF) (crlf_join ls) after"
proof (induction ls rule: crlf_join.induct)
  case (3 l m ls)
  obtain c s where c: "crlf_join (m # ls) = c # s" "c \<noteq> CR"
    using "3.prems" hd_crlf_join by fastforce
  have "no_start (CRLF @ CRLF) l (CRLF @ crlf_join (m # ls) @ after)"
    using "3.prems" by (intro no_start_notin) (simp_all add: header_line_def)
  moreover have "no_start (CRLF @ CRLF) (crlf_join (m # ls)) after" using 3 by simp
  ultimately show ?case using c by simp
qed (auto intro!: no_start_notin simp: header_line_def)

lemma find_header_end:
  assumes "ls \<noteq> []" "list_all header_line ls"
  shows "find_sub (CRLF @ CRLF) (crlf_lines ls @ CRLF @ b) = Some (length (crlf_join ls))"
    "take (length (crlf_join ls)) (crlf_lines ls @ CRLF @ b) = crlf_join ls"
    "drop (length (crlf_join ls) + 4) (crlf_lines ls @ CRLF @ b) = b"
proof -
  have eq: "crlf_lines ls @ CRLF @ b = crlf_join ls @ (CRLF @ CRLF) @ b" by (simp add: crlf_lines_join [OF assms(1)])
  show "find_sub (CRLF @ CRLF) (crlf_lines ls @ CRLF @ b) = Some (length (crlf_join ls))"
    unfolding eq by (rule find_sub_at [OF crlf_join_no_start [OF assms(2)]])
  show "take (length (crlf_join ls)) (crlf_lines ls @ CRLF @ b) = crlf_join ls"
    "drop (length (crlf_join ls) + 4) (crlf_lines ls @ CRLF @ b) = b"
    unfolding eq by simp_all
qed

lemma getlines_last: "l \<noteq> [] \<Longrightarrow> LF \<notin> set l \<Longrightarrow> getlines l = [l]"
  using getlines_acc_line [of l "[]" "[]"] by (simp add: getlines_def)

lemma getlines_crlf: "LF \<notin> set l \<Longrightarrow> getlines (l @ CRLF @ s) = (l @ [CR]) # getlines s"
  using getlines_line [of "l @ [CR]" s] by simp

lemma getlines_crlf_join:
  "list_all header_line ls \<Longrightarrow> map strip_cr (getlines (crlf_join ls)) = ls"
proof (induction ls rule: crlf_join.induct)
  case (2 l)
  then have "last l \<noteq> CR" by (simp add: header_line_last)
  with 2 show ?case by (simp add: getlines_last header_line_def)
next
  case (3 l m ls)
  then have "LF \<notin> set l" by (simp add: header_line_def)
  from getlines_crlf [OF this, of "crlf_join (m # ls)"] 3 show ?case by (simp add: strip_cr_def)
qed simp

lemma parse_header_strip: "foldl parse_header h ls = foldl parse_header h (map strip_cr ls)"
  if "list_all (\<lambda>l. strip_cr (strip_cr l) = strip_cr l) ls"
  using that by (induction ls arbitrary: h) (simp_all add: parse_header_def)

definition header_text :: "string \<times> string \<Rightarrow> string" where
  "header_text p = fst p @ '': '' @ snd p"

definition wf_header :: "string \<times> string \<Rightarrow> bool" where
  "wf_header p = (CHR '':'' \<notin> set (fst p) \<and> CR \<notin> set (fst p @ snd p) \<and> LF \<notin> set (fst p @ snd p) \<and>
     (snd p = [] \<or> hd (snd p) \<noteq> CHR '' ''))"

lemma header_line_text: "wf_header p \<Longrightarrow> header_line (header_text p)"
  by (simp add: wf_header_def header_line_def header_text_def)

lemma header_line_strip: "header_line l \<Longrightarrow> strip_cr l = l"
  using header_line_last [of l] by (simp add: strip_cr_def)

lemma parse_header_text:
  assumes "wf_header p"
  shows "parse_header h (header_text p) = h(fst p \<mapsto> snd p)"
proof -
  have "strip_cr (header_text p) = fst p @ CHR '':'' # CHR '' '' # snd p"
    using header_line_strip [OF header_line_text [OF assms]] by (simp add: header_text_def)
  moreover have "dropWhile (\<lambda>c. c = CHR '' '') (snd p) = snd p"
    using assms by (cases "snd p") (auto simp: wf_header_def)
  moreover have "find_char (CHR '':'') (fst p @ CHR '':'' # CHR '' '' # snd p) = Some (length (fst p))"
    using assms by (simp add: wf_header_def)
  ultimately show ?thesis by (simp add: parse_header_def substr_def)
qed

lemma foldl_parse_header:
  "list_all wf_header hs \<Longrightarrow> foldl parse_header h (map header_text hs) = h ++ map_of (rev hs)"
  unfolding foldl_upd [symmetric] by (induction hs arbitrary: h) (simp_all add: parse_header_text)

text \<open>A request as a client writes it.\<close>

definition request_line :: "string \<Rightarrow> string \<Rightarrow> string" where
  "request_line m target = join_words [m, target, ''HTTP/1.1'']"

definition request_head :: "string \<Rightarrow> string \<Rightarrow> (string \<times> string) list \<Rightarrow> string" where
  "request_head m target hs = crlf_lines (request_line m target # map header_text hs) @ CRLF"

lemma request_line_ok:
  assumes "is_word m" "is_word target"
  shows "header_line (request_line m target)" "tokens (request_line m target) = [m, target, ''HTTP/1.1'']"
proof -
  have "is_word ''HTTP/1.1''" by (simp add: is_word_def is_space_def)
  then show "tokens (request_line m target) = [m, target, ''HTTP/1.1'']"
    unfolding request_line_def using assms by (intro tokens_join_words) simp
  have "CR \<notin> set w \<and> LF \<notin> set w" if "is_word w" for w
    using that by (auto simp: is_word_def list_all_iff is_space_def)
  then show "header_line (request_line m target)"
    using assms by (auto simp: header_line_def request_line_def)
qed

lemma ParseRequest_head:
  assumes "is_word m" "is_word target" "list_all wf_header hs"
    "length (request_head m target hs @ b) \<le> 8191"
  shows "ParseRequest ((request_head m target hs @ b) # xs) =
    (let (p, q) = ParseQuery target Map.empty; h = map_of (rev hs);
         (body', xs2) = (case h ''Content-Length'' of None \<Rightarrow> (b, xs)
            | Some v \<Rightarrow> (let n = atol v in if 0 < n \<and> n < 8 * 1024 * 1024 then read_body (nat n) b xs else (b, xs)))
     in (Inr \<lparr>req_method = m, req_path = p, req_body = body', req_headers = h, req_query = q\<rparr>, xs2))"
proof -
  let ?ls = "request_line m target # map header_text hs"
  have ls: "list_all header_line ?ls"
    using request_line_ok(1) [OF assms(1,2)] assms(3) header_line_text by (auto simp: list_all_iff)
  have raw: "request_head m target hs @ b = crlf_lines ?ls @ CRLF @ b" by (simp add: request_head_def)
  note found = find_header_end [OF list.distinct(2) ls, of b, folded raw]
  have ne: "request_head m target hs @ b \<noteq> []" by (simp add: request_head_def)
  obtain l0 ls0 where L: "getlines (crlf_join ?ls) = l0 # ls0" "strip_cr l0 = request_line m target"
      "map strip_cr ls0 = map header_text hs"
    using getlines_crlf_join [OF ls] by (cases "getlines (crlf_join ?ls)") auto
  have "list_all (\<lambda>l. strip_cr (strip_cr l) = strip_cr l) ls0"
  proof -
    have "strip_cr l \<in> set (map header_text hs)" if "l \<in> set ls0" for l
      using that L(3) by (metis image_eqI set_map)
    then show ?thesis using assms(3) header_line_strip header_line_text
      by (fastforce simp: list_all_iff)
  qed
  then have "foldl parse_header Map.empty ls0 = map_of (rev hs)"
    using parse_header_strip [of ls0 Map.empty] L(3) foldl_parse_header [OF assms(3), of Map.empty] by simp
  with found ne L assms(4) request_line_ok(2) [OF assms(1,2)] show ?thesis
    unfolding ParseRequest_def by (simp add: Let_def substr_def word_at_def split_beta split: option.splits)
qed

lemma ParseRequest_written:
  assumes "is_word m" "is_word target" "list_all wf_header hs"
    "map_of (rev hs) ''Content-Length'' = Some (show_nat (length body))" "length body < 8 * 1024 * 1024"
    "length (request_head m target hs @ b) \<le> 8191" "b @ stream xs = body @ later" "length b \<le> length body"
  shows "fst (ParseRequest ((request_head m target hs @ b) # xs)) =
    Inr \<lparr>req_method = m, req_path = fst (ParseQuery target Map.empty), req_body = body,
         req_headers = map_of (rev hs), req_query = snd (ParseQuery target Map.empty)\<rparr>"
proof -
  have "atol (show_nat (length body)) = int (length body)"
    using assms(5) by (simp add: atol_def strtol_def strtol_raw_show_nat clamp64_def)
  moreover have "fst (read_body (length body) b xs) = body"
    using assms(7,8) by (simp add: read_body_stream)
  ultimately show ?thesis
    using assms(4,5,7,8) unfolding ParseRequest_head [OF assms(1-3,6)]
    by (auto simp: Let_def split_beta)
qed

section \<open>Properties\<close>



text \<open>
  Query parameters survive transport: what a client percent-encodes and joins with
  ampersands comes out as the map from each key to its last value, for arbitrary bytes in
  keys and values.
\<close>
lemma query_roundtrip:
  assumes "CHR ''?'' \<notin> set path"
  shows "ParseQuery (path @ ''?'' @ query_text ps) Map.empty = (path, map_of (rev ps))"
  using ParseQuery_text [OF assms] by simp

lemma query_roundtrip_witness:
  "ParseQuery (''/x'' @ ''?'' @ query_text [(''a&b'', ''1=?''), (''a&b'', [CHR 0xFF, CHR ''+''])]) Map.empty =
     (''/x'', [''a&b'' \<mapsto> [CHR 0xFF, CHR ''+'']])"
  using query_roundtrip [of "''/x''" "[(''a&b'', ''1=?''), (''a&b'', [CHR 0xFF, CHR ''+''])]"] by simp

lemma HandleClient_effect:
  assumes "bearerToken \<noteq> []" "snd (HttpServer_HandleClient bearerToken rs xs ns w) \<noteq> w"
  shows "\<exists>req r. fst (ParseRequest xs) = Inr req \<and> r \<in> set rs \<and>
    req_headers req ''Authorization'' = Some (''Bearer '' @ bearerToken) \<and>
    route_method r = req_method req \<and> route_path r = req_path req \<and>
    snd (HttpServer_HandleClient bearerToken rs xs ns w) = snd (route_handler r req w)"
proof -
  obtain req where req: "fst (ParseRequest xs) = Inr req" "snd (answer bearerToken rs req w) \<noteq> w"
      "snd (HttpServer_HandleClient bearerToken rs xs ns w) = snd (answer bearerToken rs req w)"
    using assms(2) by (cases "fst (ParseRequest xs)") (auto simp: HttpServer_HandleClient_def split_beta)
  then have a: "authorized bearerToken (req_headers req)" "snd (answer bearerToken rs req w) = snd (dispatch rs req w)"
      "snd (dispatch rs req w) \<noteq> w"
    using assms(1) by (auto simp: answer_def split: if_splits)
  then obtain r where r: "find_route rs req = Some r" "snd (dispatch rs req w) = snd (route_handler r req w)"
    by (cases "find_route rs req") (auto simp: dispatch_def split: prod.splits option.splits)
  have "req_headers req ''Authorization'' = Some (''Bearer '' @ bearerToken)"
    using a(1) unfolding authorized_def substr_def
    by (auto split: option.splits) (metis append_take_drop_id append.simps numeral_nat(7) One_nat_def)
  moreover have "r \<in> set rs" "route_method r = req_method req" "route_path r = req_path req"
    using r(1) by (auto simp: find_route_def find_Some_iff)
  ultimately show ?thesis using req r a by metis
qed

text \<open>
  No request changes the program's state without the token: with a bearer token set, a
  client thread that leaves the state different has read a request whose
  \<^verbatim>\<open>Authorization\<close> header is exactly the token's, for a registered method and path.
\<close>
lemma http_effect_authorised:
  assumes "bearerToken \<noteq> []" "snd (HttpServer_HandleClient bearerToken rs xs ns w) \<noteq> w"
  shows "\<exists>req r. fst (ParseRequest xs) = Inr req \<and> r \<in> set rs \<and>
    req_headers req ''Authorization'' = Some (''Bearer '' @ bearerToken) \<and>
    route_method r = req_method req \<and> route_path r = req_path req \<and>
    snd (HttpServer_HandleClient bearerToken rs xs ns w) = snd (route_handler r req w)"
  by (rule HandleClient_effect [OF assms])

lemma http_effect_authorised_witness:
  "snd (HttpServer_HandleClient ''tok'' [\<lparr>route_method = ''GET'', route_path = ''/x'', route_handler = \<lambda>req w. (None, w + 1)\<rparr>]
     [request_head ''GET'' ''/x'' [(''Authorization'', ''Bearer tok'')]] [] (0 :: nat)) = 1 \<and>
   (\<exists>req. fst (ParseRequest [request_head ''GET'' ''/x'' [(''Authorization'', ''Bearer tok'')]]) = Inr req \<and>
     req_headers req ''Authorization'' = Some ''Bearer tok'')"
proof -
  let ?h = "[(''Authorization'', ''Bearer tok'')]"
  let ?x = "request_head ''GET'' ''/x'' ?h"
  let ?rs = "[\<lparr>route_method = ''GET'', route_path = ''/x'', route_handler = \<lambda>req w. (None, w + 1)\<rparr>]"
  have "fst (ParseRequest [?x @ []]) = Inr \<lparr>req_method = ''GET'', req_path = ''/x'', req_body = [],
      req_headers = map_of ?h, req_query = Map.empty\<rparr>"
    by (subst ParseRequest_head)
      (simp_all add: is_word_def is_space_def wf_header_def ParseQuery_def request_head_def crlf_lines_def
        request_line_def header_text_def)
  then have s: "snd (HttpServer_HandleClient ''tok'' ?rs [?x] [] (0 :: nat)) = 1"
    by (simp add: HttpServer_HandleClient_def answer_def authorized_def substr_def dispatch_def find_route_def split_beta)
  then show ?thesis using http_effect_authorised [of "''tok''" ?rs "[?x]" "[]" "0 :: nat"] by auto
qed

text \<open>
  A response is framed correctly: on a socket that keeps accepting bytes the client can
  find the end of the headers at the first empty line, the announced length is the length
  of what follows, and what follows is the body; on any other socket it gets a prefix.
\<close>
lemma http_response_framed:
  assumes "CR \<notin> set (resp_contentType resp)" "LF \<notin> set (resp_contentType resp)"
  shows "(\<exists>later. response_text resp = SendResponse ns resp @ later) \<and>
    (accepting ns (length (response_text resp)) \<longrightarrow>
      (\<exists>k. find_sub (CRLF @ CRLF) (SendResponse ns resp) = Some k \<and>
        map strip_cr (getlines (take k (SendResponse ns resp))) = response_lines resp \<and>
        ''Content-Length: '' @ show_nat (length (resp_body resp)) \<in> set (response_lines resp) \<and>
        drop (k + 4) (SendResponse ns resp) = resp_body resp))"
proof -
  have "CR \<notin> set (to_string i)" "LF \<notin> set (to_string i)" "CR \<notin> set (show_nat n)" "LF \<notin> set (show_nat n)" for i n
    by (auto simp: is_digit_def dest!: to_string_chars show_nat_digits)
  moreover have "CR \<notin> set (statusText s)" "LF \<notin> set (statusText s)" for s by (simp_all add: statusText_def)
  ultimately have L: "list_all header_line (response_lines resp)" "response_lines resp \<noteq> []"
    using assms by (simp_all add: response_lines_def header_line_def)
  show ?thesis
  proof (intro conjI impI)
    show "\<exists>later. response_text resp = SendResponse ns resp @ later"
      using send_all_prefix [of "response_text resp" ns] by (auto simp: SendResponse_def)
    assume "accepting ns (length (response_text resp))"
    then have "SendResponse ns resp = crlf_lines (response_lines resp) @ CRLF @ resp_body resp"
      using send_all_accepting by (simp add: SendResponse_def response_text_def)
    with find_header_end [OF L(2,1), of "resp_body resp"] getlines_crlf_join [OF L(1)]
    show "\<exists>k. find_sub (CRLF @ CRLF) (SendResponse ns resp) = Some k \<and>
        map strip_cr (getlines (take k (SendResponse ns resp))) = response_lines resp \<and>
        ''Content-Length: '' @ show_nat (length (resp_body resp)) \<in> set (response_lines resp) \<and>
        drop (k + 4) (SendResponse ns resp) = resp_body resp"
      by (intro exI [of _ "length (crlf_join (response_lines resp))"]) (simp add: response_lines_def)
  qed
qed

lemma http_response_framed_witness:
  "\<exists>later. response_text (Response 404) = SendResponse [3, 0] (Response 404) @ later"
  using http_response_framed [of "Response 404" "[3, 0]"] by (simp add: Response_def)

text \<open>
  The whitelist guards the listener: every socket that reaches a client thread comes
  from an address the filter allows, every connection that came while the server ran is
  either handed to a thread or closed, and the count of clients follows.
\<close>
lemma http_listener_gate:
  assumes "running s" "0 \<le> listenSocket s"
  shows "case HttpServer_ListenerLoop evs s of (up, down, s') \<Rightarrow>
    up = [(fd, peer). Connection fd peer \<leftarrow> evs, Allows (ipFilter s) peer] \<and>
    down = [fd. Connection fd peer \<leftarrow> evs, \<not> Allows (ipFilter s) peer] \<and>
    activeClients s' = activeClients s + int (length up) - int (count_list evs ClientDone)"
  using assms
proof (induction evs arbitrary: s)
  case (Cons ev evs)
  show ?case
  proof (cases ev)
    case Idle
    with Cons show ?thesis by simp
  next
    case ClientDone
    with Cons.IH [of "s\<lparr>activeClients := activeClients s - 1\<rparr>"] Cons.prems show ?thesis by (auto split: prod.splits)
  next
    case (Connection fd peer)
    with Cons.IH [of s] Cons.IH [of "s\<lparr>activeClients := activeClients s + 1\<rparr>"] Cons.prems
    show ?thesis by (auto split: prod.splits)
  qed
qed simp

lemma http_listener_gate_witness:
  "fst (HttpServer_ListenerLoop [Connection 4 9, Idle, Connection 5 7, ClientDone]
     (new_HttpServer\<lparr>running := True, listenSocket := 3, ipFilter := \<lparr>m_Rules = [\<lparr>network = 7, mask = - 1\<rparr>], m_Rejected = []\<rparr>\<rparr>)) = [(5, 7)]"
  using http_listener_gate [of "new_HttpServer\<lparr>running := True, listenSocket := 3, ipFilter := \<lparr>m_Rules = [\<lparr>network = 7, mask = - 1\<rparr>], m_Rejected = []\<rparr>\<rparr>"
      "[Connection 4 9, Idle, Connection 5 7, ClientDone]"]
  by (simp add: new_HttpServer_def Allows_def split_beta)

section \<open>The life cycle\<close>

text \<open>A server that runs has a socket and a thread; one that does not run has neither.\<close>

definition server_ok :: "'w HttpServer \<Rightarrow> bool" where
  "server_ok s = ((running s \<longleftrightarrow> 0 \<le> listenSocket s) \<and> (running s \<longleftrightarrow> listenerThread s))"

interpretation http: listener server_ok running listenSocket
  "\<lambda>(p, fd, bo, lo, port, a). HttpServer_Start p fd bo lo port a" HttpServer_Stop
proof unfold_locales
  fix s :: "'w HttpServer" and args
  show "server_ok s \<Longrightarrow> server_ok (snd ((\<lambda>(p, fd, bo, lo, port, a). HttpServer_Start p fd bo lo port a) args s))"
    by (cases args) (auto simp: server_ok_def HttpServer_Start_def Let_def)
  show "server_ok s \<Longrightarrow> server_ok (HttpServer_Stop s)"
    by (auto simp: server_ok_def HttpServer_Stop_def)
  show "running s \<Longrightarrow> (\<lambda>(p, fd, bo, lo, port, a). HttpServer_Start p fd bo lo port a) args s = (False, s)"
    by (cases args) (simp add: HttpServer_Start_def)
  show "\<not> running s \<Longrightarrow> fst ((\<lambda>(p, fd, bo, lo, port, a). HttpServer_Start p fd bo lo port a) args s) =
      running (snd ((\<lambda>(p, fd, bo, lo, port, a). HttpServer_Start p fd bo lo port a) args s))"
    by (cases args) (auto simp: HttpServer_Start_def Let_def)
  show "\<not> running (HttpServer_Stop s)" by (simp add: HttpServer_Stop_def)
  show "server_ok s \<Longrightarrow> running s \<longleftrightarrow> 0 \<le> listenSocket s" by (simp add: server_ok_def)
qed

lemma server_ok_other:
  "server_ok new_HttpServer"
  "server_ok s \<Longrightarrow> server_ok (Route m p h s)"
  "server_ok s \<Longrightarrow> server_ok (SetIpWhitelist pton wl s)"
  by (auto simp: server_ok_def new_HttpServer_def Route_def SetIpWhitelist_def)
end
