(* ===== verification/Rcon_Server.thy ===== *)
theory Rcon_Server
  imports Http
begin

unbundle bit_operations_syntax

text \<open>
  The RCON server of \<^verbatim>\<open>src/src/rcon/rcon_server.cpp\<close>: the packet format of the Source RCON
  protocol, the client loop with its authentication, rate limit and dispatch, and the
  listener with its admission checks. A client thread is a sequence of loop iterations
  (\<open>client_step\<close>); the listener and the client threads interleave in the transition
  relation \<open>rcon_step\<close>. Command execution, \<^verbatim>\<open>Rcon::Dispatch\<close>, is the parameter \<open>run\<close> here.
\<close>

section \<open>Bytes on the socket\<close>

text \<open>\<^verbatim>\<open>ReadExactly\<close> with the bytes \<open>got\<close> already in the buffer.\<close>

function ReadExactly :: "nat \<Rightarrow> string \<Rightarrow> incoming \<Rightarrow> string option \<times> incoming" where
  "ReadExactly n got xs =
     (if length got < n then
        (let (r, xs') = recv (n - length got) xs
         in if r = [] then (None, xs') else ReadExactly n (got @ r) xs')
      else (Some got, xs))"
  by pat_completeness auto
termination
  by (relation "measure (\<lambda>(n, got, xs). n - length got)") (auto simp flip: length_greater_0_conv)

declare ReadExactly.simps [simp del]

text \<open>\<^verbatim>\<open>SecretsMatch\<close>: the loop collects the differing bits of all positions in one byte.\<close>

fun diff_bits :: "string \<Rightarrow> string \<Rightarrow> 8 word \<Rightarrow> 8 word" where
  "diff_bits (x # a) (y # b) diff = diff_bits a b (diff OR (of_char x XOR of_char y))"
| "diff_bits _ _ diff = diff"

definition SecretsMatch :: "string \<Rightarrow> string \<Rightarrow> bool" where
  "SecretsMatch a b = (if length a \<noteq> length b then False else diff_bits a b 0 = 0)"


section \<open>Packets\<close>

definition ResponseValue :: int where "ResponseValue = 0"
definition ExecCommand :: int where "ExecCommand = 2"
definition AuthResponse :: int where "AuthResponse = 2"
definition Auth :: int where "Auth = 3"

definition kMaxBody :: nat where "kMaxBody = 3900"
definition kMaxPacketSize :: int where "kMaxPacketSize = 8192"

text \<open>An \<^verbatim>\<open>int32_t\<close> in memory, least significant byte first.\<close>

definition le32 :: "int \<Rightarrow> string" where
  "le32 i = map (\<lambda>k. char_of (nat (i div 256 ^ k mod 256))) [0, 1, 2, 3]"

definition read32 :: "string \<Rightarrow> int" where
  "read32 s = wrap32 (int (foldr (\<lambda>c v. code c + 256 * v) (take 4 s) 0))"

definition ReadPacket :: "incoming \<Rightarrow> (int \<times> int \<times> string) option \<times> incoming" where
  "ReadPacket xs =
     (case ReadExactly 4 [] xs of
        (None, xs1) \<Rightarrow> (None, xs1)
      | (Some header, xs1) \<Rightarrow>
          (let size = read32 header
           in if size < 10 \<or> size > kMaxPacketSize then (None, xs1)
              else case ReadExactly (nat size) [] xs1 of
                (None, xs2) \<Rightarrow> (None, xs2)
              | (Some payload, xs2) \<Rightarrow>
                  (Some (read32 payload, read32 (drop 4 payload),
                         takeWhile (\<lambda>c. c \<noteq> NUL) (drop 8 payload)), xs2)))"

definition packet_bytes :: "int \<Rightarrow> int \<Rightarrow> string \<Rightarrow> string" where
  "packet_bytes pid ty body =
     le32 (wrap32 (int (4 + 4 + length body + 2))) @ le32 pid @ le32 ty @ body @ [NUL, NUL]"

definition SendPacket :: "outgoing \<Rightarrow> int \<Rightarrow> int \<Rightarrow> string \<Rightarrow> bool \<times> string \<times> outgoing" where
  "SendPacket ns pid ty body = send_all ns (packet_bytes pid ty body)"

text \<open>The loop of \<^verbatim>\<open>SendResponseBody\<close> from \<open>offset\<close>.\<close>

function send_chunks :: "outgoing \<Rightarrow> int \<Rightarrow> string \<Rightarrow> nat \<Rightarrow> bool \<times> string \<times> outgoing" where
  "send_chunks ns pid body offset =
     (if offset < length body then
        (let (ok, w, ns') = SendPacket ns pid ResponseValue (substr body offset kMaxBody)
         in if \<not> ok then (False, w, ns')
            else let (ok', w', ns'') = send_chunks ns' pid body (offset + kMaxBody) in (ok', w @ w', ns''))
      else (True, [], ns))"
  by pat_completeness auto
termination
  by (relation "measure (\<lambda>(ns, pid, body, offset). length body - offset)") (auto simp: kMaxBody_def)

declare send_chunks.simps [simp del]

definition SendResponseBody :: "outgoing \<Rightarrow> int \<Rightarrow> string \<Rightarrow> bool \<times> string \<times> outgoing" where
  "SendResponseBody ns pid body =
     (if length body \<le> kMaxBody then SendPacket ns pid ResponseValue body
      else send_chunks ns pid body 0)"


section \<open>The server\<close>

record RconServer =
  m_Config :: RconConfig
  m_ListenSocket :: int
  m_Running :: bool
  m_Connections :: int
  m_ListenerThread :: bool
  m_IpFilter :: IpFilter
  m_CommandLimiter :: RateLimiter
  m_AuthFailures :: FailureTracker

text \<open>
  A client thread's variables: the socket's two sides, what was sent so far, whether the
  client is authenticated, and whether the loop still runs.
\<close>

record Client =
  c_peer :: u32
  c_in :: incoming
  c_out :: outgoing
  c_wire :: string
  c_authenticated :: bool
  c_open :: bool

definition new_Client :: "u32 \<Rightarrow> incoming \<Rightarrow> outgoing \<Rightarrow> Client" where
  "new_Client peer xs ns = \<lparr>c_peer = peer, c_in = xs, c_out = ns, c_wire = [],
     c_authenticated = False, c_open = True\<rparr>"

definition reply :: "int \<Rightarrow> int \<Rightarrow> string \<Rightarrow> Client \<Rightarrow> Client" where
  "reply pid ty body c =
     (let (ok, w, ns) = SendPacket (c_out c) pid ty body in c\<lparr>c_wire := c_wire c @ w, c_out := ns\<rparr>)"

definition reply_body :: "int \<Rightarrow> string \<Rightarrow> Client \<Rightarrow> Client" where
  "reply_body pid body c =
     (let (ok, w, ns) = SendResponseBody (c_out c) pid body in c\<lparr>c_wire := c_wire c @ w, c_out := ns\<rparr>)"

definition hang_up :: "Client \<Rightarrow> Client" where
  "hang_up c = c\<lparr>c_open := False\<rparr>"

text \<open>The loop body for a packet that was read.\<close>

definition handle_packet ::
    "(string \<Rightarrow> 'w \<Rightarrow> string \<times> 'w) \<Rightarrow> int \<Rightarrow> int \<times> int \<times> string \<Rightarrow> Client \<Rightarrow> RconServer \<Rightarrow> 'w \<Rightarrow>
     Client \<times> RconServer \<times> 'w" where
  "handle_packet run now packet c s w =
     (case packet of (pid, ty, body) \<Rightarrow>
       if ty = Auth then
         (if SecretsMatch body (rcon_password (m_Config s)) then
            (reply pid AuthResponse [] (reply pid ResponseValue [] (c\<lparr>c_authenticated := True\<rparr>)),
             s\<lparr>m_AuthFailures := RecordSuccess now (c_peer c) (m_AuthFailures s)\<rparr>, w)
          else
            (hang_up (reply (-1) AuthResponse [] (reply pid ResponseValue [] c)),
             s\<lparr>m_AuthFailures := snd (RecordFailure now (c_peer c) (m_AuthFailures s))\<rparr>, w))
       else if \<not> c_authenticated c then (hang_up (reply (-1) AuthResponse [] c), s, w)
       else if ty \<noteq> ExecCommand then (reply_body pid (''Unsupported packet type '' @ to_string ty) c, s, w)
       else
         (let (ok, limiter) = Allow now (c_peer c) (m_CommandLimiter s);
              s' = s\<lparr>m_CommandLimiter := limiter\<rparr>
          in if \<not> ok then
               (reply_body pid (''Rate limit reached. This address may run '' @
                  to_string (rcon_commandsPerMinute (m_Config s)) @ '' commands per minute.'') c, s', w)
             else (let (text, w') = run body w in (reply_body pid text c, s', w'))))"

text \<open>One iteration of the loop of \<^verbatim>\<open>HandleClient\<close>.\<close>

definition client_step ::
    "(string \<Rightarrow> 'w \<Rightarrow> string \<times> 'w) \<Rightarrow> int \<Rightarrow> Client \<Rightarrow> RconServer \<Rightarrow> 'w \<Rightarrow> Client \<times> RconServer \<times> 'w" where
  "client_step run now c s w =
     (if \<not> m_Running s then (hang_up c, s, w)
      else case ReadPacket (c_in c) of
        (None, xs) \<Rightarrow> (hang_up (c\<lparr>c_in := xs\<rparr>), s, w)
      | (Some packet, xs) \<Rightarrow> handle_packet run now packet (c\<lparr>c_in := xs\<rparr>) s w)"

text \<open>
  \<^verbatim>\<open>HandleClient\<close> on its own: \<open>ts\<close> are the clock readings of the iterations. The loop ends
  at the first packet that cannot be read, so a list longer than the number of packets is
  enough.
\<close>

fun Server_HandleClient ::
    "(string \<Rightarrow> 'w \<Rightarrow> string \<times> 'w) \<Rightarrow> int list \<Rightarrow> Client \<Rightarrow> RconServer \<Rightarrow> 'w \<Rightarrow> Client \<times> RconServer \<times> 'w" where
  "Server_HandleClient run [] c s w = (c, s, w)"
| "Server_HandleClient run (now # ts) c s w =
     (if \<not> c_open c then (c, s, w)
      else let (c', s', w') = client_step run now c s w in Server_HandleClient run ts c' s' w')"


section \<open>Start, stop and admission\<close>

definition Server_Start ::
    "(string \<Rightarrow> u32 option) \<Rightarrow> int \<Rightarrow> (u32 \<Rightarrow> nat \<Rightarrow> bool) \<Rightarrow> bool \<Rightarrow> RconConfig \<Rightarrow> RconServer \<Rightarrow> bool \<times> RconServer" where
  "Server_Start inet_pton fd bind_ok listen_ok config s =
     (if m_Running s then (False, s)
      else
        (let s1 = s\<lparr>m_Config := config\<rparr>
         in if rcon_password config = [] then (False, s1)
            else
              (let s2 = s1\<lparr>m_IpFilter := IpFilter_Configure inet_pton (rcon_ipWhitelist config),
                          m_CommandLimiter := RateLimiter_Configure (rcon_commandsPerMinute config) (rcon_commandBurst config),
                          m_AuthFailures := FailureTracker_Configure (rcon_maxFailedAuth config)
                             (rcon_failWindowSeconds config) (rcon_banSeconds config),
                          m_ListenSocket := fd\<rparr>
               in if fd < 0 then (False, s2)
                  else if \<not> bind_ok (bind_addr inet_pton (rcon_bindAddress config)) (nat (rcon_port config mod 2 ^ 16))
                  then (False, s2\<lparr>m_ListenSocket := -1\<rparr>)
                  else if \<not> listen_ok then (False, s2\<lparr>m_ListenSocket := -1\<rparr>)
                  else (True, s2\<lparr>m_Running := True, m_ListenerThread := True\<rparr>))))"

definition Server_Stop :: "RconServer \<Rightarrow> RconServer" where
  "Server_Stop s =
     (if \<not> m_Running s then s
      else s\<lparr>m_Running := False, m_ListenerThread := False,
             m_ListenSocket := (if m_ListenSocket s \<ge> 0 then -1 else m_ListenSocket s)\<rparr>)"

text \<open>The decision of \<^verbatim>\<open>ListenerLoop\<close> on an accepted connection.\<close>

definition admit :: "int \<Rightarrow> u32 \<Rightarrow> RconServer \<Rightarrow> bool \<times> RconServer" where
  "admit now peer s =
     (if \<not> Allows (m_IpFilter s) peer then (False, s)
      else
        (let (blocked, tracker) = IsBlocked now peer (m_AuthFailures s);
             s' = s\<lparr>m_AuthFailures := tracker\<rparr>
         in if blocked then (False, s')
            else if m_Connections s' \<ge> rcon_maxConnections (m_Config s') then (False, s')
            else (True, s'\<lparr>m_Connections := m_Connections s' + 1\<rparr>)))"

fun Server_ListenerLoop ::
    "(int \<times> listener_event) list \<Rightarrow> RconServer \<Rightarrow> (int \<times> u32) list \<times> int list \<times> RconServer" where
  "Server_ListenerLoop [] s = ([], [], s)"
| "Server_ListenerLoop ((now, ev) # evs) s =
     (if \<not> m_Running s \<or> m_ListenSocket s < 0 then ([], [], s)
      else case ev of
        Idle \<Rightarrow> Server_ListenerLoop evs s
      | ClientDone \<Rightarrow> Server_ListenerLoop evs (s\<lparr>m_Connections := m_Connections s - 1\<rparr>)
      | Connection fd peer \<Rightarrow>
          (let (ok, s1) = admit now peer s; (up, down, s2) = Server_ListenerLoop evs s1
           in if ok then ((fd, peer) # up, down, s2) else (up, fd # down, s2)))"


section \<open>Secrets\<close>

lemma of_char_word_inject: "(of_char x :: 8 word) = of_char y \<longleftrightarrow> x = y"
proof
  assume "(of_char x :: 8 word) = of_char y"
  then have "unat (of_nat (code x) :: 8 word) = unat (of_nat (code y) :: 8 word)"
    by (simp add: of_nat_of_char)
  then have "code x = code y" by (simp add: unat_of_nat)
  then show "x = y" by simp
qed simp

lemma or_xor_zero: "(d :: 8 word) OR (x XOR y) = 0 \<longleftrightarrow> d = 0 \<and> x = y"
proof -
  have "x = y" if "x XOR y = 0"
  proof -
    from that have "(x XOR y) XOR y = y" by simp
    then show ?thesis by (simp add: xor.assoc)
  qed
  then show ?thesis by (auto simp: or_eq_0_iff)
qed

lemma diff_bits_zero: "length a = length b \<Longrightarrow> diff_bits a b d = 0 \<longleftrightarrow> d = 0 \<and> a = b"
  by (induction a b d rule: diff_bits.induct) (auto simp: or_xor_zero of_char_word_inject)

lemma SecretsMatch_iff: "SecretsMatch a b \<longleftrightarrow> a = b"
  by (auto simp: SecretsMatch_def diff_bits_zero)


section \<open>Reading packets off the stream\<close>

lemma ReadExactly_stream:
  "length got \<le> n \<Longrightarrow> ReadExactly n got xs = (r, xs') \<Longrightarrow>
     (if n \<le> length (got @ stream xs) then r = Some (take n (got @ stream xs)) \<and> stream xs' = drop n (got @ stream xs)
      else r = None)"
proof (induction n got xs rule: ReadExactly.induct)
  case (1 n got xs)
  show ?case
  proof (cases "length got < n")
    case False
    with "1.prems" show ?thesis by (subst (asm) ReadExactly.simps) auto
  next
    case True
    define m where "m = n - length got"
    obtain q ys where q: "recv m xs = (q, ys)" by (cases "recv m xs")
    have len: "length q \<le> m" "0 < m" using recv_length [of m xs] q True by (auto simp: m_def)
    have step: "ReadExactly n got xs = (if q = [] then (None, ys) else ReadExactly n (got @ q) ys)"
      using True q by (subst ReadExactly.simps) (simp add: m_def)
    show ?thesis
    proof (cases "q = []")
      case True
      then have "stream xs = []" using recv_empty [OF len(2), of xs] q by simp
      with step True "1.prems"(2) len \<open>length got < n\<close> show ?thesis by simp
    next
      case False
      have S: "stream xs = q @ stream ys" using recv_stream [of xs m] q False by simp
      have "if n \<le> length ((got @ q) @ stream ys)
          then r = Some (take n ((got @ q) @ stream ys)) \<and> stream xs' = drop n ((got @ q) @ stream ys) else r = None"
        using "1.prems"(2) step False len True
        by (intro "1.IH" [of "recv m xs" q ys]) (simp_all add: q [unfolded m_def] m_def)
      then show ?thesis by (simp add: S)
    qed
  qed
qed

lemma ReadExactly_exact:
  assumes "stream xs = a @ after" "length a = n" "ReadExactly n [] xs = (r, xs')"
  shows "r = Some a" "stream xs' = after"
  using ReadExactly_stream [OF _ assms(3)] assms(1,2) by auto

lemma ReadExactly_part:
  assumes "ReadExactly n [] xs = (Some a, xs')"
  shows "stream xs = a @ stream xs'"
proof -
  from ReadExactly_stream [OF _ assms] have "a = take n (stream xs)" "stream xs' = drop n (stream xs)"
    by (auto split: if_splits)
  then show ?thesis by simp
qed

lemma length_le32 [simp]: "length (le32 i) = 4"
  by (simp add: le32_def)

lemma bytes_sum:
  fixes i :: int
  shows "i mod 256 + 256 * (i div 256 mod 256 + 256 * (i div 65536 mod 256 + 256 * (i div 16777216 mod 256))) = i mod 2 ^ 32"
proof -
  have n: "(256 :: int) * 256 = 65536" "(256 :: int) * 65536 = 16777216" "(256 :: int) * 16777216 = 2 ^ 32"
    "(65536 :: int) * 256 = 16777216" by simp_all
  have d: "i div 256 div 256 = i div 65536" "i div 65536 div 256 = i div 16777216"
    using zdiv_zmult2_eq [of 256 i 256] zdiv_zmult2_eq [of 256 i 65536] unfolding n by simp_all
  have "i mod (2 ^ 32) = 256 * (i div 256 mod 16777216) + i mod 256"
    unfolding n(3) [symmetric] by (rule zmod_zmult2_eq) simp
  also have "i div 256 mod 16777216 = 256 * (i div 65536 mod 65536) + i div 256 mod 256"
    unfolding n(2) [symmetric] d(1) [symmetric] by (rule zmod_zmult2_eq) simp
  also have "i div 65536 mod 65536 = 256 * (i div 16777216 mod 256) + i div 65536 mod 256"
    unfolding d(2) [symmetric] using zmod_zmult2_eq [of 256 "i div 65536" 256] unfolding n(1) by simp
  finally show ?thesis by (simp only: add.commute)
qed

lemma read32_le32 [simp]:
  assumes "in_int32 i"
  shows "read32 (le32 i @ s) = i" "read32 (le32 i) = i"
proof -
  have b: "code (char_of (nat (x mod 256)) :: char) = nat (x mod 256)" for x :: int
    unfolding of_char_of by simp
  have "le32 i = [char_of (nat (i mod 256)), char_of (nat (i div 256 mod 256)),
      char_of (nat (i div 65536 mod 256)), char_of (nat (i div 16777216 mod 256))]"
    by (simp add: le32_def)
  then have "foldr (\<lambda>c v. code c + 256 * v) (le32 i) 0 =
      nat (i mod 256) + 256 * (nat (i div 256 mod 256) + 256 * (nat (i div 65536 mod 256) + 256 * nat (i div 16777216 mod 256)))"
    by (simp only: foldr.simps b comp_apply id_apply) simp
  then have "int (foldr (\<lambda>c v. code c + 256 * v) (le32 i) 0) =
      i mod 256 + 256 * (i div 256 mod 256 + 256 * (i div 65536 mod 256 + 256 * (i div 16777216 mod 256)))"
    by (simp only: of_nat_add of_nat_mult int_nat_eq) simp
  then have "int (foldr (\<lambda>c v. code c + 256 * v) (le32 i) 0) = i mod 2 ^ 32" by (simp only: bytes_sum)
  moreover have "wrap32 (i mod 2 ^ 32) = wrap32 i" by (simp add: wrap32_def mod_add_left_eq)
  ultimately show "read32 (le32 i @ s) = i" "read32 (le32 i) = i"
    using assms by (simp_all add: read32_def)
qed

definition wf_packet :: "int \<times> int \<times> string \<Rightarrow> bool" where
  "wf_packet p = (case p of (pid, ty, body) \<Rightarrow>
     in_int32 pid \<and> in_int32 ty \<and> NUL \<notin> set body \<and> length body \<le> 8182)"

abbreviation bytes_of :: "int \<times> int \<times> string \<Rightarrow> string" where
  "bytes_of p \<equiv> (case p of (pid, ty, body) \<Rightarrow> packet_bytes pid ty body)"

lemma ReadPacket_bytes:
  assumes "wf_packet p" "stream xs = bytes_of p @ after"
  shows "\<exists>xs'. ReadPacket xs = (Some p, xs') \<and> stream xs' = after"
proof -
  obtain pid ty body where p: "p = (pid, ty, body)" by (cases p)
  let ?n = "int (length body) + 10"
  let ?payload = "le32 pid @ le32 ty @ body @ [NUL, NUL]"
  have wf: "in_int32 pid" "in_int32 ty" "NUL \<notin> set body" "in_int32 ?n" "10 \<le> ?n" "?n \<le> kMaxPacketSize"
    using assms(1) by (auto simp: p wf_packet_def in_int32_def kMaxPacketSize_def)
  have S: "stream xs = le32 ?n @ (?payload @ after)"
    using assms(2) wf(4) by (simp add: p packet_bytes_def add.commute)
  obtain h xs1 where 1: "ReadExactly 4 [] xs = (h, xs1)" by (cases "ReadExactly 4 [] xs")
  from ReadExactly_exact [OF S length_le32 1] have h: "h = Some (le32 ?n)" "stream xs1 = ?payload @ after" .
  obtain q xs2 where 2: "ReadExactly (nat ?n) [] xs1 = (q, xs2)" by (cases "ReadExactly (nat ?n) [] xs1")
  from ReadExactly_exact [OF h(2) _ 2] have q: "q = Some ?payload" "stream xs2 = after" by simp_all
  have "takeWhile (\<lambda>c. c \<noteq> NUL) (body @ [NUL, NUL]) = body"
    using wf(3) by (subst takeWhile_append2) auto
  moreover have "drop 4 ?payload = le32 ty @ body @ [NUL, NUL]" "drop 8 ?payload = body @ [NUL, NUL]"
    by simp_all
  ultimately have "ReadPacket xs = (Some p, xs2)"
    using 1 2 h(1) q(1) wf by (simp add: ReadPacket_def p)
  with q(2) show ?thesis by blast
qed

text \<open>A packet's body is a part of the bytes read, and the rest of the stream follows it.\<close>

lemma ReadPacket_part:
  assumes "ReadPacket xs = (Some (pid, ty, body), xs')"
  shows "\<exists>a b. stream xs = a @ body @ b @ stream xs'"
proof -
  obtain h xs1 where 1: "ReadExactly 4 [] xs = (Some h, xs1)"
    using assms by (auto simp: ReadPacket_def split: prod.splits option.splits)
  then obtain q where 2: "ReadExactly (nat (read32 h)) [] xs1 = (Some q, xs')" "body = takeWhile (\<lambda>c. c \<noteq> NUL) (drop 8 q)"
    using assms by (auto simp: ReadPacket_def Let_def split: prod.splits option.splits if_splits)
  have "q = take 8 q @ body @ dropWhile (\<lambda>c. c \<noteq> NUL) (drop 8 q)" by (simp add: 2(2))
  then have "stream xs = (h @ take 8 q) @ body @ dropWhile (\<lambda>c. c \<noteq> NUL) (drop 8 q) @ stream xs'"
    using ReadExactly_part [OF 1] ReadExactly_part [OF 2(1)] by (metis append_assoc)
  then show ?thesis by blast
qed

lemma ReadPacket_fail:
  "stream xs = [] \<Longrightarrow> fst (ReadPacket xs) = None"
  using ReadExactly_stream [of "[]" 4 xs] by (auto simp: ReadPacket_def split: prod.splits option.splits)

section \<open>Long responses\<close>

text \<open>The reference: the bodies of the packets a response is cut into.\<close>

function chunks :: "string \<Rightarrow> string list" where
  "chunks body = (if body = [] then [] else take kMaxBody body # chunks (drop kMaxBody body))"
  by pat_completeness auto
termination
  by (relation "measure length") (auto simp: kMaxBody_def)

declare chunks.simps [simp del]

definition response_bodies :: "string \<Rightarrow> string list" where
  "response_bodies body = (if length body \<le> kMaxBody then [body] else chunks body)"

lemma concat_chunks: "concat (chunks body) = body"
  by (induction body rule: chunks.induct) (subst chunks.simps, simp)

lemma chunks_length: "b \<in> set (chunks body) \<Longrightarrow> length b \<le> kMaxBody"
proof (induction body rule: chunks.induct)
  case (1 body)
  then show ?case by (subst (asm) (2) chunks.simps) (auto split: if_splits)
qed

lemma accepting_send:
  "accepting ns (length s + k) \<Longrightarrow> \<exists>ns'. send_all ns s = (True, s, ns') \<and> accepting ns' k"
proof (induction ns s rule: send_all.induct)
  case (3 n ns c s)
  let ?d = "drop n (c # s)"
  have n: "0 < n" using "3.prems" by (simp add: accepting_def)
  have "length ?d \<le> length s" using n by (cases n) simp_all
  then have "accepting ns (length ?d + k)" using "3.prems" by (simp add: accepting_def)
  with "3.IH" n obtain ns' where "send_all ns ?d = (True, ?d, ns')" "accepting ns' k" by blast
  with n show ?case by (simp add: Let_def)
qed (auto simp: accepting_def)

lemma send_chunks_accepting:
  assumes "accepting ns (length (concat (map (packet_bytes pid ResponseValue) (chunks (drop offset body)))) + k)"
  shows "\<exists>ns'. send_chunks ns pid body offset =
      (True, concat (map (packet_bytes pid ResponseValue) (chunks (drop offset body))), ns') \<and> accepting ns' k"
  using assms
proof (induction ns pid body offset rule: send_chunks.induct)
  case (1 ns pid body offset)
  show ?case
  proof (cases "offset < length body")
    case False
    with "1.prems" show ?thesis by (subst send_chunks.simps) (simp add: chunks.simps)
  next
    case True
    let ?b = "substr body offset kMaxBody" and ?cs = "chunks (drop (offset + kMaxBody) body)"
    have c: "chunks (drop offset body) = ?b # ?cs"
      using True by (subst chunks.simps) (simp add: substr_def add.commute)
    have "accepting ns (length (packet_bytes pid ResponseValue ?b) +
        (length (concat (map (packet_bytes pid ResponseValue) ?cs)) + k))"
      using "1.prems" by (simp add: c add.assoc)
    from accepting_send [OF this] obtain ns1 where 1: "send_all ns (packet_bytes pid ResponseValue ?b) =
        (True, packet_bytes pid ResponseValue ?b, ns1)"
        and a: "accepting ns1 (length (concat (map (packet_bytes pid ResponseValue) ?cs)) + k)" by blast
    from "1.IH" [OF True, of "(True, packet_bytes pid ResponseValue ?b, ns1)" True] 1 a
    obtain ns' where "send_chunks ns1 pid body (offset + kMaxBody) =
        (True, concat (map (packet_bytes pid ResponseValue) ?cs), ns')" "accepting ns' k"
      by (simp add: SendPacket_def) blast
    with 1 True c show ?thesis by (subst send_chunks.simps) (simp add: SendPacket_def)
  qed
qed

lemma SendResponseBody_accepting:
  assumes "accepting ns (length (concat (map (packet_bytes pid ResponseValue) (response_bodies body))) + k)"
  shows "\<exists>ns'. SendResponseBody ns pid body =
      (True, concat (map (packet_bytes pid ResponseValue) (response_bodies body)), ns') \<and> accepting ns' k"
  using assms send_chunks_accepting [of ns pid 0 body k] accepting_send [of ns "packet_bytes pid ResponseValue body" k]
  by (auto simp: SendResponseBody_def response_bodies_def SendPacket_def)

lemma response_bodies_concat: "concat (response_bodies body) = body"
  by (simp add: response_bodies_def concat_chunks)

lemma response_bodies_length: "b \<in> set (response_bodies body) \<Longrightarrow> length b \<le> kMaxBody"
  by (auto simp: response_bodies_def chunks_length split: if_splits)

lemma response_bodies_sendable:
  assumes "b \<in> set (response_bodies body)" "NUL \<notin> set body"
  shows "length b \<le> 3900" "NUL \<notin> set b"
proof -
  show "length b \<le> 3900" using response_bodies_length [OF assms(1)] by (simp add: kMaxBody_def)
  have "set b \<subseteq> set body" using assms(1) by (subst response_bodies_concat [symmetric]) auto
  with assms(2) show "NUL \<notin> set b" by blast
qed

text \<open>Reading a sequence of packets with \<open>ReadPacket\<close>, as a client library does.\<close>

fun read_packets :: "nat \<Rightarrow> incoming \<Rightarrow> (int \<times> int \<times> string) list" where
  "read_packets 0 xs = []"
| "read_packets (Suc n) xs =
     (case ReadPacket xs of (None, _) \<Rightarrow> [] | (Some p, xs') \<Rightarrow> p # read_packets n xs')"

lemma read_packets_bytes:
  "list_all wf_packet ps \<Longrightarrow> stream xs = concat (map bytes_of ps) @ after \<Longrightarrow> read_packets (length ps) xs = ps"
proof (induction ps arbitrary: xs)
  case (Cons p ps)
  obtain xs' where "ReadPacket xs = (Some p, xs')" "stream xs' = concat (map bytes_of ps) @ after"
    using ReadPacket_bytes [of p xs "concat (map bytes_of ps) @ after"] Cons.prems by auto
  with Cons show ?case by simp
qed simp


section \<open>A session\<close>

text \<open>
  The specification of a client connection: the client sends packets, each is answered by
  \<open>handle_packet\<close> until the connection is hung up, and the end of the stream hangs up.
\<close>

fun session ::
    "(string \<Rightarrow> 'w \<Rightarrow> string \<times> 'w) \<Rightarrow> (int \<times> int \<times> int \<times> string) list \<Rightarrow> Client \<Rightarrow> RconServer \<Rightarrow> 'w \<Rightarrow>
     Client \<times> RconServer \<times> 'w" where
  "session run [] c s w = (hang_up c, s, w)"
| "session run ((now, p) # ps) c s w =
     (let (c', s', w') = handle_packet run now p c s w
      in if c_open c' then session run ps c' s' w' else (c', s', w'))"

abbreviation no_in :: "Client \<Rightarrow> Client" where
  "no_in c \<equiv> c\<lparr>c_in := []\<rparr>"

lemmas client_simps = reply_def reply_body_def hang_up_def split_beta Let_def

lemma reply_in: "reply pid ty b (c\<lparr>c_in := xs\<rparr>) = (reply pid ty b c)\<lparr>c_in := xs\<rparr>"
  "reply_body pid b (c\<lparr>c_in := xs\<rparr>) = (reply_body pid b c)\<lparr>c_in := xs\<rparr>"
  "hang_up (c\<lparr>c_in := xs\<rparr>) = (hang_up c)\<lparr>c_in := xs\<rparr>"
  by (simp_all add: client_simps)

lemma handle_packet_in:
  "handle_packet run now p (c\<lparr>c_in := xs\<rparr>) s w =
     (case handle_packet run now p c s w of (c', s', w') \<Rightarrow> (c'\<lparr>c_in := xs\<rparr>, s', w'))"
proof -
  obtain pid ty body where p: "p = (pid, ty, body)" by (cases p)
  have a: "(c\<lparr>c_in := xs\<rparr>)\<lparr>c_authenticated := True\<rparr> = (c\<lparr>c_authenticated := True\<rparr>)\<lparr>c_in := xs\<rparr>" by simp
  show ?thesis
    unfolding handle_packet_def p by (simp add: a reply_in Let_def split: prod.splits)
qed

lemma handle_packet_running:
  "handle_packet run now p c s w = (c', s', w') \<Longrightarrow> m_Running s' = m_Running s \<and> m_Config s' = m_Config s \<and>
     c_in c' = c_in c \<and> c_peer c' = c_peer c \<and> m_Connections s' = m_Connections s \<and> m_IpFilter s' = m_IpFilter s"
  by (cases p) (auto simp: handle_packet_def client_simps split: if_splits)

lemma HandleClient_closed [simp]: "\<not> c_open c \<Longrightarrow> Server_HandleClient run ts c s w = (c, s, w)"
  by (cases ts) auto

lemma client_step_packet:
  assumes "m_Running s" "ReadPacket (c_in c) = (Some p, xs)" "handle_packet run now p c s w = (c', s', w')"
  shows "client_step run now c s w = (c'\<lparr>c_in := xs\<rparr>, s', w')"
  using assms handle_packet_in [of run now p xs c s w] by (simp add: client_step_def)

lemma session_in: "session run ps (c\<lparr>c_in := xs\<rparr>) s w =
    (case session run ps c s w of (c', s', w') \<Rightarrow> (c'\<lparr>c_in := xs\<rparr>, s', w'))"
  by (induction run ps c s w rule: session.induct)
    (auto simp: reply_in handle_packet_in Let_def split: prod.splits)

lemma HandleClient_session:
  assumes "list_all (\<lambda>(now, p). wf_packet p) ps" "stream (c_in c) = concat (map (\<lambda>(now, p). bytes_of p) ps)"
    "m_Running s" "c_open c" "Server_HandleClient run (map fst ps @ [end_time]) c s w = (c', s', w')"
  shows "session run ps (no_in c) s w = (no_in c', s', w')"
  using assms
proof (induction ps arbitrary: c s w)
  case Nil
  obtain xs where "ReadPacket (c_in c) = (None, xs)"
    using ReadPacket_fail [of "c_in c"] Nil by (cases "ReadPacket (c_in c)") auto
  with Nil show ?case by (auto simp: client_step_def hang_up_def)
next
  case (Cons np ps)
  obtain now p where np: "np = (now, p)" by (cases np)
  obtain xs where xs: "ReadPacket (c_in c) = (Some p, xs)" "stream xs = concat (map (\<lambda>(now, p). bytes_of p) ps)"
    using ReadPacket_bytes [of p "c_in c"] Cons.prems by (auto simp: np)
  obtain c1 s1 w1 where h: "handle_packet run now p c s w = (c1, s1, w1)" by (cases "handle_packet run now p c s w")
  have step: "client_step run now c s w = (c1\<lparr>c_in := xs\<rparr>, s1, w1)" by (rule client_step_packet [OF Cons.prems(3) xs(1) h])
  have hn: "handle_packet run now p (no_in c) s w = (no_in c1, s1, w1)" by (simp add: handle_packet_in h)
  show ?case
  proof (cases "c_open c1")
    case False
    then show ?thesis using Cons.prems step hn by (auto simp: np)
  next
    case True
    have "session run ps (no_in (c1\<lparr>c_in := xs\<rparr>)) s1 w1 = (no_in c', s', w')"
      using Cons.prems step xs(2) True handle_packet_running [OF h] by (intro Cons.IH) (simp_all add: np)
    then show ?thesis using hn True by (simp add: np)
  qed
qed

section \<open>Listener and clients together\<close>

text \<open>
  The threads interleave: the listener admits or refuses a connection, a client thread runs
  one iteration of its loop, a client thread whose loop has ended leaves, or the server is
  stopped. \<open>sends\<close> says which byte streams the connecting clients may produce. A thread is
  identified by a number, as a socket's descriptor is reused once it is closed.
\<close>

type_synonym 'w rcon_state = "RconServer \<times> 'w \<times> (nat \<rightharpoonup> Client)"

inductive rcon_step ::
    "(string \<Rightarrow> 'w \<Rightarrow> string \<times> 'w) \<Rightarrow> (incoming \<Rightarrow> bool) \<Rightarrow> 'w rcon_state \<Rightarrow> 'w rcon_state \<Rightarrow> bool"
  for run sends where
  accepted: "m_Running s \<Longrightarrow> admit now peer s = (True, s') \<Longrightarrow> cs tid = None \<Longrightarrow> sends xs \<Longrightarrow>
    rcon_step run sends (s, w, cs) (s', w, cs(tid \<mapsto> new_Client peer xs ns))"
| refused: "m_Running s \<Longrightarrow> admit now peer s = (False, s') \<Longrightarrow> rcon_step run sends (s, w, cs) (s', w, cs)"
| client: "cs tid = Some c \<Longrightarrow> c_open c \<Longrightarrow> client_step run now c s w = (c', s', w') \<Longrightarrow>
    rcon_step run sends (s, w, cs) (s', w', cs(tid \<mapsto> c'))"
| leave: "cs tid = Some c \<Longrightarrow> \<not> c_open c \<Longrightarrow>
    rcon_step run sends (s, w, cs) (s\<lparr>m_Connections := m_Connections s - 1\<rparr>, w, cs(tid := None))"
| stopped: "rcon_step run sends (s, w, cs) (Server_Stop s, w, cs)"

inductive rcon_steps ::
    "(string \<Rightarrow> 'w \<Rightarrow> string \<times> 'w) \<Rightarrow> (incoming \<Rightarrow> bool) \<Rightarrow> 'w rcon_state \<Rightarrow> 'w rcon_state \<Rightarrow> bool"
  for run sends where
  none: "rcon_steps run sends x x"
| more: "rcon_steps run sends x y \<Longrightarrow> rcon_step run sends y z \<Longrightarrow> rcon_steps run sends x z"

lemma admit_cases:
  "admit now peer s = (ok, s') \<Longrightarrow> m_Config s' = m_Config s \<and> m_Running s' = m_Running s \<and>
     (if ok then m_Connections s < rcon_maxConnections (m_Config s) \<and> m_Connections s' = m_Connections s + 1 \<and>
        Allows (m_IpFilter s) peer \<and> \<not> fst (IsBlocked now peer (m_AuthFailures s))
      else m_Connections s' = m_Connections s)"
  by (auto simp: admit_def Let_def split: if_splits prod.splits)

lemma client_step_cases:
  assumes "client_step run now c s w = (c', s', w')"
  shows "m_Config s' = m_Config s \<and> m_Running s' = m_Running s \<and> m_Connections s' = m_Connections s"
  using assms handle_packet_running [of run now _ "c\<lparr>c_in := _\<rparr>" s w c' s' w']
  by (auto simp: client_step_def split: if_splits prod.splits option.splits)

text \<open>The connection counter is the number of live client threads and respects the limit.\<close>

definition conn_inv :: "'w rcon_state \<Rightarrow> bool" where
  "conn_inv x = (case x of (s, w, cs) \<Rightarrow> finite (dom cs) \<and> m_Connections s = int (card (dom cs)) \<and>
     m_Connections s \<le> max 0 (rcon_maxConnections (m_Config s)))"

lemma conn_inv_step: "rcon_step run sends x y \<Longrightarrow> conn_inv x \<Longrightarrow> conn_inv y"
proof (induction rule: rcon_step.induct)
  case (accepted s now peer s' cs tid xs w ns)
  have "tid \<notin> dom cs" using accepted(3) by (simp add: domIff)
  with admit_cases [OF accepted(2)] accepted show ?case by (simp add: conn_inv_def)
next
  case (refused s now peer s' w cs)
  with admit_cases [OF refused(2)] show ?case by (simp add: conn_inv_def)
next
  case (client cs tid c now s w c' s' w')
  have "insert tid (dom cs) = dom cs" using client(1) by auto
  with client_step_cases [OF client(3)] client show ?case by (simp add: conn_inv_def)
next
  case (leave cs tid c s w)
  have "tid \<in> dom cs" using leave(1) by auto
  then have "0 < card (dom cs)" "card (dom cs - {tid}) = card (dom cs) - 1"
    using leave(3) by (auto simp: conn_inv_def card_gt_0_iff)
  with leave show ?case by (auto simp: conn_inv_def)
next
  case (stopped s w cs)
  then show ?case by (simp add: conn_inv_def Server_Stop_def)
qed

lemma conn_inv_steps: "rcon_steps run sends x y \<Longrightarrow> conn_inv x \<Longrightarrow> conn_inv y"
  by (induction rule: rcon_steps.induct) (auto intro: conn_inv_step)

lemma steps_config:
  "rcon_steps run sends x y \<Longrightarrow> m_Config (fst y) = m_Config (fst x)"
proof (induction rule: rcon_steps.induct)
  case (more x y z)
  from more(2,3) show ?case
    by (induction rule: rcon_step.induct)
      (auto simp: Server_Stop_def dest: admit_cases client_step_cases)
qed simp

text \<open>
  Without the password in any client's bytes no client gets authenticated and the state of
  the program stays as it is.
\<close>

definition has_part :: "string \<Rightarrow> string \<Rightarrow> bool" where
  "has_part p s = (\<exists>a b. s = a @ p @ b)"

lemma has_part_iff: "has_part p s \<longleftrightarrow> find_sub p s \<noteq> None"
  unfolding has_part_def by (simp add: find_sub_None_iff)

definition outsider :: "string \<Rightarrow> Client \<Rightarrow> bool" where
  "outsider pw c = (\<not> c_authenticated c \<and> \<not> has_part pw (stream (c_in c)))"

lemma handle_packet_outsider:
  assumes "handle_packet run now (pid, ty, body) c s w = (c', s', w')" "body \<noteq> rcon_password (m_Config s)"
    "\<not> c_authenticated c"
  shows "w' = w \<and> \<not> c_authenticated c' \<and> \<not> c_open c'"
  using assms by (auto simp: handle_packet_def SecretsMatch_iff client_simps split: if_splits)

lemma client_step_outsider:
  assumes "client_step run now c s w = (c', s', w')" "outsider (rcon_password (m_Config s)) c"
  shows "w' = w \<and> (c_open c' \<longrightarrow> outsider (rcon_password (m_Config s)) c') \<and> \<not> c_authenticated c'"
proof (cases "m_Running s")
  case False
  with assms show ?thesis by (auto simp: client_step_def outsider_def hang_up_def)
next
  case True
  obtain p xs where p: "ReadPacket (c_in c) = (p, xs)" by (cases "ReadPacket (c_in c)")
  show ?thesis
  proof (cases p)
    case None
    with True p assms show ?thesis by (auto simp: client_step_def outsider_def hang_up_def)
  next
    case (Some q)
    obtain pid ty body where q: "q = (pid, ty, body)" by (cases q)
    from ReadPacket_part [of "c_in c" pid ty body xs] p have "has_part body (stream (c_in c))"
      by (auto simp: Some q has_part_def)
    then have "body \<noteq> rcon_password (m_Config s)" using assms(2) by (auto simp: outsider_def)
    with assms True p show ?thesis
      by (auto simp: Some q client_step_def outsider_def dest!: handle_packet_outsider)
  qed
qed

definition outsiders :: "string \<Rightarrow> (nat \<rightharpoonup> Client) \<Rightarrow> bool" where
  "outsiders pw cs = (\<forall>tid c. cs tid = Some c \<longrightarrow> \<not> c_authenticated c \<and> (c_open c \<longrightarrow> outsider pw c))"

lemma outsiders_upd:
  "outsiders pw cs \<Longrightarrow> outsiders pw (cs(tid := None))"
  "outsiders pw cs \<Longrightarrow> \<not> c_authenticated c \<Longrightarrow> (c_open c \<longrightarrow> outsider pw c) \<Longrightarrow> outsiders pw (cs(tid \<mapsto> c))"
  by (auto simp: outsiders_def)

lemma outsiders_step:
  assumes "rcon_step run sends x y" "\<And>xs. sends xs \<Longrightarrow> \<not> has_part pw (stream xs)"
    "rcon_password (m_Config (fst x)) = pw" "outsiders pw (snd (snd x))"
  shows "fst (snd y) = fst (snd x) \<and> outsiders pw (snd (snd y))"
  using assms
proof (induction rule: rcon_step.induct)
  case (accepted s now peer s' cs tid xs w ns)
  then show ?case by (auto simp: new_Client_def outsider_def simp del: fun_upd_apply intro!: outsiders_upd)
next
  case (client cs tid c now s w c' s' w')
  then have "outsider (rcon_password (m_Config s)) c" by (auto simp: outsiders_def)
  from client_step_outsider [OF client(3) this] client.prems(2,3) show ?case
    by (auto simp del: fun_upd_apply intro!: outsiders_upd)
next
  case (leave cs tid c s w)
  then show ?case by (auto simp del: fun_upd_apply intro!: outsiders_upd)
qed auto

lemma outsiders_steps:
  assumes "rcon_steps run sends x y" "\<And>xs. sends xs \<Longrightarrow> \<not> has_part pw (stream xs)"
    "rcon_password (m_Config (fst x)) = pw" "outsiders pw (snd (snd x))"
  shows "fst (snd y) = fst (snd x) \<and> outsiders pw (snd (snd y))"
  using assms
proof (induction rule: rcon_steps.induct)
  case (more x y z)
  note IH = more.IH [OF more.prems]
  have "rcon_password (m_Config (fst y)) = pw" using steps_config [OF more.hyps(1)] more.prems(2) by simp
  from outsiders_step [OF more.hyps(2) more.prems(1) this IH [THEN conjunct2]] IH show ?case by simp
qed simp

section \<open>The life cycle\<close>

definition rcon_ok :: "RconServer \<Rightarrow> bool" where
  "rcon_ok s = ((m_Running s \<longleftrightarrow> 0 \<le> m_ListenSocket s) \<and> (m_Running s \<longleftrightarrow> m_ListenerThread s) \<and>
     (m_Running s \<longrightarrow> rcon_password (m_Config s) \<noteq> []))"

interpretation rcon_life: listener rcon_ok m_Running m_ListenSocket
  "\<lambda>(p, fd, bo, lo, config). Server_Start p fd bo lo config" Server_Stop
proof unfold_locales
  fix s :: RconServer and args
  show "rcon_ok s \<Longrightarrow> rcon_ok (snd ((\<lambda>(p, fd, bo, lo, config). Server_Start p fd bo lo config) args s))"
    by (cases args) (auto simp: rcon_ok_def Server_Start_def Let_def)
  show "rcon_ok s \<Longrightarrow> rcon_ok (Server_Stop s)"
    by (auto simp: rcon_ok_def Server_Stop_def)
  show "m_Running s \<Longrightarrow> (\<lambda>(p, fd, bo, lo, config). Server_Start p fd bo lo config) args s = (False, s)"
    by (cases args) (simp add: Server_Start_def)
  show "\<not> m_Running s \<Longrightarrow> fst ((\<lambda>(p, fd, bo, lo, config). Server_Start p fd bo lo config) args s) =
      m_Running (snd ((\<lambda>(p, fd, bo, lo, config). Server_Start p fd bo lo config) args s))"
    by (cases args) (auto simp: Server_Start_def Let_def)
  show "\<not> m_Running (Server_Stop s)" by (simp add: Server_Stop_def)
  show "rcon_ok s \<Longrightarrow> m_Running s \<longleftrightarrow> 0 \<le> m_ListenSocket s" by (simp add: rcon_ok_def)
qed

definition new_RconServer :: RconServer where
  "new_RconServer = \<lparr>m_Config = default_rcon, m_ListenSocket = -1, m_Running = False, m_Connections = 0,
     m_ListenerThread = False, m_IpFilter = \<lparr>m_Rules = [], m_Rejected = []\<rparr>,
     m_CommandLimiter = \<lparr>m_Buckets = Map.empty, m_RefillPerSecond = 0, m_Burst = 0, m_LimiterEnabled = False\<rparr>,
     m_AuthFailures = \<lparr>m_Entries = Map.empty, m_MaxFailures = 0, m_WindowSeconds = 60, m_BanSeconds = 300,
        m_TrackerEnabled = False\<rparr>\<rparr>"

lemma rcon_ok_new: "rcon_ok new_RconServer"
  by (simp add: rcon_ok_def new_RconServer_def)


section \<open>Properties\<close>

text \<open>
  C7: The client loop implements the session on packets: whatever segments the client's
  packets arrive in, the loop ends after the last packet (or the one that hangs up) with the
  replies, the server and the state of the program that the specification gives for the
  packet sequence.
\<close>
theorem rcon_session_refines:
  assumes "list_all (\<lambda>(now, p). wf_packet p) ps" "stream xs = concat (map (\<lambda>(now, p). bytes_of p) ps)" "m_Running s"
  shows "case Server_HandleClient run (map fst ps @ [end_time]) (new_Client peer xs ns) s w of (c', s', w') \<Rightarrow>
    \<not> c_open c' \<and> session run ps (new_Client peer [] ns) s w = (no_in c', s', w')"
proof -
  obtain c' s' w' where r: "Server_HandleClient run (map fst ps @ [end_time]) (new_Client peer xs ns) s w = (c', s', w')"
    by (cases "Server_HandleClient run (map fst ps @ [end_time]) (new_Client peer xs ns) s w")
  have "session run ps (no_in (new_Client peer xs ns)) s w = (no_in c', s', w')"
    using assms r by (intro HandleClient_session) (simp_all add: new_Client_def)
  then have S: "session run ps (new_Client peer [] ns) s w = (no_in c', s', w')" by (simp add: new_Client_def)
  have "\<not> c_open (fst (session run ps c s w))" for c s and w :: 'a
    by (induction run ps c s w rule: session.induct) (auto simp: hang_up_def Let_def split: prod.splits)
  from this [of "new_Client peer [] ns" s w] S r show ?thesis by simp
qed

theorem rcon_session_refines_witness:
  "case Server_HandleClient (\<lambda>cmd n. (cmd, n + 1)) ([1, 2] @ [3])
      (new_Client 7 [packet_bytes 5 3 ''pw'', packet_bytes 6 2 ''list''] [])
      (new_RconServer\<lparr>m_Running := True, m_Config := default_rcon\<lparr>rcon_password := ''pw''\<rparr>\<rparr>) (0 :: nat) of
    (c', s', w') \<Rightarrow> \<not> c_open c' \<and> w' = 1"
proof -
  let ?ps = "[(1, 5, 3, ''pw''), (2, 6, 2, ''list'')] :: (int \<times> int \<times> int \<times> string) list"
  let ?xs = "[packet_bytes 5 3 ''pw'', packet_bytes 6 2 ''list'']"
  let ?s = "new_RconServer\<lparr>m_Running := True, m_Config := default_rcon\<lparr>rcon_password := ''pw''\<rparr>\<rparr>"
  let ?run = "\<lambda>cmd n. (cmd, n + 1 :: nat)"
  have w: "snd (snd (session ?run ?ps (new_Client 7 [] []) ?s 0)) = 1"
    by (simp add: handle_packet_def SecretsMatch_iff Auth_def ExecCommand_def Allow_def client_simps
        new_Client_def new_RconServer_def)
  have "case Server_HandleClient ?run (map fst ?ps @ [3]) (new_Client 7 ?xs []) ?s 0 of (c', s', w') \<Rightarrow>
      \<not> c_open c' \<and> session ?run ?ps (new_Client 7 [] []) ?s 0 = (no_in c', s', w')"
    by (rule rcon_session_refines) (simp_all add: wf_packet_def in_int32_def packet_bytes_def le32_def)
  with w show ?thesis by (auto simp del: Server_HandleClient.simps session.simps split: prod.splits)
qed

text \<open>
  C6: Nobody runs a command without the password: as long as no connecting client sends the
  password's bytes, no interleaving of the listener and any number of client threads
  authenticates a client or changes the state of the program.
\<close>
theorem rcon_needs_password:
  assumes "rcon_steps run sends (s, w, Map.empty) (s', w', cs)"
    "\<And>xs. sends xs \<Longrightarrow> \<not> has_part (rcon_password (m_Config s)) (stream xs)"
  shows "w' = w \<and> (\<forall>tid c. cs tid = Some c \<longrightarrow> \<not> c_authenticated c)"
  using outsiders_steps [OF assms(1) assms(2)] by (auto simp: outsiders_def)

theorem rcon_needs_password_witness:
  "fst (snd (client_step (\<lambda>cmd n. (cmd, n + 1)) 1 (new_Client 7 [packet_bytes 5 3 ''pX''] [])
     (new_RconServer\<lparr>m_Running := True, m_Connections := 1, m_Config := default_rcon\<lparr>rcon_password := ''pw''\<rparr>\<rparr>) (0 :: nat))) =
     new_RconServer\<lparr>m_Running := True, m_Connections := 1, m_Config := default_rcon\<lparr>rcon_password := ''pw''\<rparr>\<rparr> \<and>
   snd (snd (client_step (\<lambda>cmd n. (cmd, n + 1)) 1 (new_Client 7 [packet_bytes 5 3 ''pX''] [])
     (new_RconServer\<lparr>m_Running := True, m_Connections := 1, m_Config := default_rcon\<lparr>rcon_password := ''pw''\<rparr>\<rparr>) (0 :: nat))) = 0"
proof
  let ?run = "\<lambda>cmd n. (cmd, n + 1 :: nat)" and ?xs = "[packet_bytes 5 3 ''pX'']"
  let ?s = "new_RconServer\<lparr>m_Running := True, m_Config := default_rcon\<lparr>rcon_password := ''pw''\<rparr>\<rparr>"
  let ?s1 = "new_RconServer\<lparr>m_Running := True, m_Connections := 1, m_Config := default_rcon\<lparr>rcon_password := ''pw''\<rparr>\<rparr>"
  let ?sends = "\<lambda>xs. xs = ?xs"
  have out: "\<not> has_part ''pw'' (stream ?xs)"
    unfolding has_part_iff packet_bytes_def le32_def by code_simp
  have "admit 0 7 ?s = (True, ?s1)"
    by (simp add: admit_def Allows_def IsBlocked_def new_RconServer_def default_rcon_def)
  then have "rcon_step ?run ?sends (?s, 0, Map.empty) (?s1, 0, Map.empty(0 \<mapsto> new_Client 7 ?xs []))"
    by (intro rcon_step.accepted) (simp_all add: new_RconServer_def)
  then have 1: "rcon_steps ?run ?sends (?s, 0, Map.empty) (?s1, 0, Map.empty(0 \<mapsto> new_Client 7 ?xs []))"
    by (rule rcon_steps.more [OF rcon_steps.none])
  obtain c' s' w' where step: "client_step ?run 1 (new_Client 7 ?xs []) ?s1 0 = (c', s', w')"
    by (cases "client_step ?run 1 (new_Client 7 ?xs []) ?s1 0")
  have "rcon_step ?run ?sends (?s1, 0, Map.empty(0 \<mapsto> new_Client 7 ?xs []))
      (s', w', (Map.empty(0 \<mapsto> new_Client 7 ?xs []))(0 \<mapsto> c'))"
    by (rule rcon_step.client [OF _ _ step]) (simp_all add: new_Client_def)
  then have "rcon_steps ?run ?sends (?s, 0, Map.empty) (s', w', (Map.empty(0 \<mapsto> new_Client 7 ?xs []))(0 \<mapsto> c'))"
    by (rule rcon_steps.more [OF 1])
  then have "w' = 0"
    by (rule rcon_needs_password [THEN conjunct1]) (use out in simp)
  then show "snd (snd (client_step ?run 1 (new_Client 7 ?xs []) ?s1 0)) = 0" using step by simp
  obtain ys where "ReadPacket ?xs = (Some (5, 3, ''pX''), ys)"
    using ReadPacket_bytes [of "(5, 3, ''pX'')" ?xs "[]"] by (auto simp: wf_packet_def in_int32_def packet_bytes_def le32_def)
  then show "fst (snd (client_step ?run 1 (new_Client 7 ?xs []) ?s1 0)) = ?s1"
    by (simp add: client_step_def handle_packet_def Auth_def SecretsMatch_iff RecordFailure_def new_Client_def new_RconServer_def)
qed

text \<open>
  C27: The connection limit holds under every interleaving of the listener with its client
  threads: there are never more client threads than \<^verbatim>\<open>MaxConnections\<close>, and the counter is
  their number.
\<close>
theorem rcon_connection_bound:
  assumes "rcon_steps run sends (s, w, Map.empty) (s', w', cs)" "m_Connections s = 0"
  shows "finite (dom cs) \<and> m_Connections s' = int (card (dom cs)) \<and>
    int (card (dom cs)) \<le> max 0 (rcon_maxConnections (m_Config s))"
proof -
  have "conn_inv (s', w', cs)"
    using assms(2) by (intro conn_inv_steps [OF assms(1)]) (simp add: conn_inv_def)
  with steps_config [OF assms(1)] show ?thesis by (simp add: conn_inv_def)
qed

theorem rcon_connection_bound_witness:
  "\<exists>s cs. rcon_steps (\<lambda>cmd n. (cmd, n + 1 :: nat)) (\<lambda>xs. xs = []) (new_RconServer\<lparr>m_Running := True\<rparr>, 0, Map.empty) (s, 0, cs) \<and>
     card (dom cs) = 1 \<and> m_Connections s = int (card (dom cs)) \<and> int (card (dom cs)) \<le> 16"
proof -
  let ?s = "new_RconServer\<lparr>m_Running := True\<rparr>" and ?run = "\<lambda>cmd n. (cmd, n + 1 :: nat)" and ?sends = "\<lambda>xs. xs = []"
  have "admit 0 7 ?s = (True, ?s\<lparr>m_Connections := 1\<rparr>)"
    by (simp add: admit_def Allows_def IsBlocked_def new_RconServer_def default_rcon_def)
  then have "rcon_step ?run ?sends (?s, 0, Map.empty) (?s\<lparr>m_Connections := 1\<rparr>, 0, Map.empty(0 \<mapsto> new_Client 7 [] []))"
    by (intro rcon_step.accepted) (simp_all add: new_RconServer_def)
  then have steps: "rcon_steps ?run ?sends (?s, 0, Map.empty) (?s\<lparr>m_Connections := 1\<rparr>, 0, Map.empty(0 \<mapsto> new_Client 7 [] []))"
    by (rule rcon_steps.more [OF rcon_steps.none])
  from rcon_connection_bound [OF this] have "int (card (dom (Map.empty(0 :: nat \<mapsto> new_Client 7 [] [])))) \<le> 16"
    by (simp add: new_RconServer_def default_rcon_def)
  then show ?thesis using steps by (intro exI [of _ "?s\<lparr>m_Connections := 1\<rparr>"] exI [of _ "Map.empty(0 \<mapsto> new_Client 7 [] [])"]) simp
qed

text \<open>
  A response of any length reaches the client whole: on a socket that keeps accepting
  bytes, the packets read back from the wire all carry the request's id, each stays below
  the protocol's limit, and their bodies joined are the response (with no zero byte in it).
\<close>
lemma rcon_response_readable:
  assumes "accepting ns (length (concat (map (packet_bytes pid ResponseValue) (response_bodies body))))"
    "NUL \<notin> set body" "in_int32 pid"
  shows "case SendResponseBody ns pid body of (ok, wire, ns') \<Rightarrow> ok \<and>
    (let ps = read_packets (length (response_bodies body)) [wire]
     in list_all (\<lambda>(i, ty, b). i = pid \<and> ty = ResponseValue \<and> length b \<le> 3900) ps \<and>
        concat (map (\<lambda>(i, ty, b). b) ps) = body)"
proof -
  let ?bs = "response_bodies body"
  let ?ps = "map (\<lambda>b. (pid, ResponseValue, b)) ?bs"
  let ?wire = "concat (map (packet_bytes pid ResponseValue) ?bs)"
  obtain ns' where r: "SendResponseBody ns pid body = (True, ?wire, ns')"
    using SendResponseBody_accepting [of ns pid body 0] assms(1) by auto
  note b = response_bodies_sendable [OF _ assms(2)]
  have "list_all wf_packet ?ps"
    using assms(3) b by (fastforce simp: list_all_iff wf_packet_def ResponseValue_def in_int32_def)
  moreover have "stream [?wire] = concat (map bytes_of ?ps) @ []" by (simp add: comp_def)
  ultimately have "read_packets (length ?ps) [?wire] = ?ps" by (rule read_packets_bytes)
  then show ?thesis using b by (simp add: r list_all_iff comp_def response_bodies_concat)
qed

lemma rcon_response_readable_witness:
  "case SendResponseBody (replicate 100 4) 9 ''hello'' of (ok, wire, ns') \<Rightarrow> ok \<and>
     (let ps = read_packets (length (response_bodies ''hello'')) [wire]
      in list_all (\<lambda>(i, ty, b). i = 9 \<and> ty = ResponseValue) ps \<and> concat (map (\<lambda>(i, ty, b). b) ps) = ''hello'')"
proof -
  have "case SendResponseBody (replicate 100 4) 9 ''hello'' of (ok, wire, ns') \<Rightarrow> ok \<and>
    (let ps = read_packets (length (response_bodies ''hello'')) [wire]
     in list_all (\<lambda>(i, ty, b). i = 9 \<and> ty = ResponseValue \<and> length b \<le> 3900) ps \<and>
        concat (map (\<lambda>(i, ty, b). b) ps) = ''hello'')"
    by (rule rcon_response_readable)
      (simp_all add: accepting_def list_all_iff response_bodies_def kMaxBody_def packet_bytes_def le32_def in_int32_def)
  then show ?thesis by (auto simp: Let_def list_all_iff split: prod.splits)
qed

text \<open>
  The password comparison that looks at every byte decides equality.
\<close>
lemma secrets_match_exact: "SecretsMatch a b \<longleftrightarrow> a = b"
  by (rule SecretsMatch_iff)

text \<open>
  RCON never listens without a password, and no sequence of starts and stops leaks the
  listening socket: a stopped server holds none.
\<close>
lemma rcon_start_stop_safe:
  assumes "rcon_ok s"
  shows "(rcon_password config = [] \<longrightarrow> \<not> fst (Server_Start p fd bo lo config s)) \<and>
    rcon_ok (snd (Server_Start p fd bo lo config s)) \<and>
    m_ListenSocket (Server_Stop (snd (Server_Start p fd bo lo config s))) < 0"
  using rcon_life.inv_start [OF assms, of "(p, fd, bo, lo, config)"]
    rcon_life.no_socket_leak [OF assms, of "[Start (p, fd, bo, lo, config)]"]
  by (auto simp: Server_Start_def rcon_life.life_step_def)

lemma rcon_start_stop_safe_witness:
  "m_ListenSocket (Server_Stop (snd (Server_Start (\<lambda>_. None) 3 (\<lambda>_ _. True) True
     (default_rcon\<lparr>rcon_password := ''pw''\<rparr>) new_RconServer))) < 0"
  using rcon_start_stop_safe [OF rcon_ok_new] by blast
end
