(* ===== verification/Runtime.thy ===== *)
theory Runtime
  imports Access_Control
begin

text \<open>
  The process-wide status of \<^verbatim>\<open>src/src/runtime.cpp\<close>: which listeners are enabled and running,
  the start time and the shutdown flag, read by the health reports.
\<close>

record Runtime =
  g_Start :: int
  g_RestEnabled :: bool
  g_RestRunning :: bool
  g_RestPort :: int
  g_RconEnabled :: bool
  g_RconRunning :: bool
  g_RconPort :: int
  g_ShuttingDown :: bool

definition new_Runtime :: "int \<Rightarrow> Runtime" where
  "new_Runtime now = \<lparr>g_Start = now, g_RestEnabled = False, g_RestRunning = False, g_RestPort = 0,
     g_RconEnabled = False, g_RconRunning = False, g_RconPort = 0, g_ShuttingDown = False\<rparr>"

definition MarkStart :: "int \<Rightarrow> Runtime \<Rightarrow> Runtime" where
  "MarkStart now r = r\<lparr>g_Start := now\<rparr>"

text \<open>The seconds since the start, a double; \<open>now\<close> is the clock reading.\<close>

definition UptimeSeconds :: "int \<Rightarrow> Runtime \<Rightarrow> rat" where
  "UptimeSeconds now r = duration_seconds (now - g_Start r)"

definition SetRestState :: "bool \<Rightarrow> bool \<Rightarrow> int \<Rightarrow> Runtime \<Rightarrow> Runtime" where
  "SetRestState enabled up port r = r\<lparr>g_RestEnabled := enabled, g_RestRunning := up, g_RestPort := port\<rparr>"

definition SetRconState :: "bool \<Rightarrow> bool \<Rightarrow> int \<Rightarrow> Runtime \<Rightarrow> Runtime" where
  "SetRconState enabled up port r = r\<lparr>g_RconEnabled := enabled, g_RconRunning := up, g_RconPort := port\<rparr>"

definition Version :: string where
  "Version = ''0.1.1''"

definition BeginShutdown :: "Runtime \<Rightarrow> Runtime" where
  "BeginShutdown r = r\<lparr>g_ShuttingDown := True\<rparr>"

end
