(* ===== verification/Engine_Types.thy ===== *)
theory Engine_Types
  imports Runtime
begin

text \<open>
  The data the engine layer hands to the rest of the program
  (\<^verbatim>\<open>src/src/engine/dom_engine.h\<close>, \<^verbatim>\<open>bans.h\<close>, \<^verbatim>\<open>items.h\<close>) and the state of the program that the
  commands change. A floating-point value read from the game's memory is a sign and a
  magnitude, an infinity or a NaN; pointers are 64-bit words. What the running game does is
  given by the fields of \<open>Game\<close>: the players it lists, the objects it has loaded, and the
  outcome of each step of a native call.
\<close>

type_synonym u64 = "64 word"

datatype fp = Finite bool rat | Infinite bool | Nan bool

abbreviation fp0 :: fp where "fp0 \<equiv> Finite False 0"

record SkillInfo =
  skill_name :: string
  currentXP :: int

record AttributeInfo =
  attr_name :: string
  attr_value :: fp
  attr_baseValue :: fp
  attr_shared :: bool

record PlayerInfo =
  pl_name :: string
  playerId :: int
  pingMs :: int
  score :: fp
  startTime :: int
  isSpectator :: bool
  isBot :: bool
  isInactive :: bool
  characterGuid :: string
  characterName :: string
  platform :: string
  uniqueNetId :: string
  uniqueNetIdSource :: string
  colorHex :: string
  color :: "fp \<times> fp \<times> fp \<times> fp"
  hasColor :: bool
  spawned :: bool
  pawnClass :: string
  hasLocation :: bool
  location :: "fp \<times> fp \<times> fp"
  rotation :: "fp \<times> fp \<times> fp"
  hasVelocity :: bool
  velocity :: "fp \<times> fp \<times> fp"
  movementMode :: nat
  hasHealth :: bool
  health :: fp
  maxHealth :: fp
  canDie :: bool
  isDead :: bool
  hasSustenance :: bool
  sustenance :: fp
  maxSustenance :: fp
  hasHydration :: bool
  hydration :: fp
  maxHydration :: fp
  skills :: "SkillInfo list"
  attributes :: "AttributeInfo list"
  playerStatePtr :: u64
  pawnPtr :: u64
  controllerPtr :: u64

definition new_PlayerInfo :: PlayerInfo where
  "new_PlayerInfo = \<lparr>pl_name = [], playerId = 0, pingMs = 0, score = fp0, startTime = 0,
     isSpectator = False, isBot = False, isInactive = False, characterGuid = [], characterName = [],
     platform = [], uniqueNetId = [], uniqueNetIdSource = [], colorHex = [],
     color = (fp0, fp0, fp0, fp0), hasColor = False, spawned = False, pawnClass = [],
     hasLocation = False, location = (fp0, fp0, fp0), rotation = (fp0, fp0, fp0),
     hasVelocity = False, velocity = (fp0, fp0, fp0), movementMode = 0,
     hasHealth = False, health = fp0, maxHealth = fp0, canDie = False, isDead = False,
     hasSustenance = False, sustenance = fp0, maxSustenance = fp0,
     hasHydration = False, hydration = fp0, maxHydration = fp0,
     skills = [], attributes = [], playerStatePtr = 0, pawnPtr = 0, controllerPtr = 0\<rparr>"

record ServerInfo =
  ownerId :: string
  serverName :: string
  worldName :: string
  serverGuid :: string
  isDedicatedServer :: bool
  crossplayEnabled :: bool
  hardcoreState :: int
  srv_valid :: bool

record DiscoveryInfo =
  moduleBase :: u64
  moduleEnd :: u64
  gObjects :: u64
  gNames :: u64
  disc_world :: u64
  gObjectsSource :: string
  gNamesSource :: string
  worldSource :: string
  objectCount :: int

record KickedPlayer =
  kp_netId :: string
  kp_name :: string
  kp_reason :: string

record BanEntry =
  ban_netId :: string
  ban_name :: string
  ban_reason :: string
  ban_bannedAt :: string

record ItemInfo =
  item_name :: string
  item_object :: u64
  maxStackSize :: int

text \<open>
  A native call that reached the game: the kick of a controller with a reason, the gift of an
  item, or a chat line for the player of a controller.
\<close>

datatype game_call = Kick u64 string | Give u64 u64 int | Say u64 string

text \<open>
  The game's side. \<open>kick_function\<close>, \<open>kick_library\<close>, \<open>kick_native\<close> say whether the kick
  function and its library object are found and native; \<open>pump_ready\<close> and \<open>pump_status\<close> are
  \<^verbatim>\<open>GameThread::IsReady\<close> and \<^verbatim>\<open>Status\<close>; \<open>pump_runs\<close> whether a job finishes in time;
  \<open>text_ok\<close> whether the reason text could be built; \<open>kick_invoked\<close> and \<open>kick_result\<close> the
  outcome of the call itself. The \<open>give\<close> fields are the same for \<^verbatim>\<open>TryGiveItemToPlayer\<close>,
  the chat fields are \<^verbatim>\<open>g_ReceiveFunction\<close>, \<^verbatim>\<open>HasProcessEvent\<close>, \<^verbatim>\<open>FrameLayoutReady\<close>, whether the
  chat component of a controller can be read, and the parts of \<^verbatim>\<open>ControllerIsOwnerOrAdmin\<close>
  (\<^term>\<open>None\<close> when the call fails); \<open>item_objects\<close> are the loaded objects that are an \<^verbatim>\<open>ItemData\<close>, in the order of the object array.
  \<open>clock_text\<close> is the current time as \<^verbatim>\<open>Now()\<close> prints it and \<open>clock\<close> a reading of the
  steady clock.
\<close>

record Game =
  initialized :: bool
  GetAllPlayers :: "PlayerInfo list"
  item_objects :: "ItemInfo list"
  kick_function :: bool
  kick_library :: bool
  kick_native :: bool
  pump_ready :: bool
  pump_status :: string
  pump_runs :: bool
  text_ok :: bool
  kick_invoked :: bool
  kick_result :: "u64 \<Rightarrow> string \<Rightarrow> bool"
  give_function :: bool
  give_native :: bool
  give_invoked :: bool
  give_result :: "u64 \<Rightarrow> u64 \<Rightarrow> int \<Rightarrow> bool"
  receive_function :: bool
  has_process_event :: bool
  frame_layout_ready :: bool
  chat_component :: "u64 \<Rightarrow> bool"
  admin_function :: bool
  admin_library :: bool
  admin_native :: bool
  admin_answer :: "u64 \<Rightarrow> bool option"
  bans_writable :: bool
  clock_text :: string
  clock :: int
  server_info :: ServerInfo
  discovery_info :: DiscoveryInfo
  runtime :: Runtime

text \<open>The state of the program: the kick list, the ban list, \<^verbatim>\<open>bans.json\<close>, and the calls made.\<close>

record World =
  game :: Game
  g_Kicked :: "KickedPlayer list"
  g_Bans :: "BanEntry list"
  bans_file :: "string option"
  calls :: "game_call list"

definition call :: "game_call \<Rightarrow> World \<Rightarrow> World" where
  "call c w = w\<lparr>calls := calls w @ [c]\<rparr>"

end
