(* ===== verification/Clock.thy ===== *)
theory Clock
  imports Prelude "HOL-Library.Char_ord" "HOL-Library.List_Lexorder" "HOL-Library.Product_Lexorder"
begin

text \<open>
  Calendar times as \<^verbatim>\<open>gmtime_r\<close>, \<^verbatim>\<open>localtime_r\<close> and \<^verbatim>\<open>strftime\<close> give them, and the three formats
  the program uses: the time of a ban (\<^verbatim>\<open>Now\<close> of \<^verbatim>\<open>src/src/engine/bans.cpp\<close>), the stamp in the
  name of an archived log and the date in front of a log line (\<^verbatim>\<open>src/src/utils/logger.h\<close>). A
  \<^verbatim>\<open>time_t\<close> is the number of seconds since 1970. The main results: a calendar time determines the
  second, calendar times are ordered as the seconds are, and so are the printed forms of the
  first two formats. Local time adds an offset that depends on the second; where it is set back,
  two seconds have the same stamp.
\<close>

section \<open>The calendar\<close>

definition leap :: "nat \<Rightarrow> bool" where
  "leap y = (4 dvd y \<and> (\<not> 100 dvd y \<or> 400 dvd y))"

definition year_days :: "nat \<Rightarrow> nat" where
  "year_days y = (if leap y then 366 else 365)"

definition month_days :: "nat \<Rightarrow> nat list" where
  "month_days y = [31, if leap y then 29 else 28, 31, 30, 31, 30, 31, 31, 30, 31, 30, 31]"

text \<open>The year of day \<open>d\<close> from the first day of year \<open>y\<close>, and the days left in it.\<close>

function year_of :: "nat \<Rightarrow> nat \<Rightarrow> nat \<times> nat" where
  "year_of y d = (if d < year_days y then (y, d) else year_of (y + 1) (d - year_days y))"
  by pat_completeness auto
termination
  by (relation "measure snd") (auto simp: year_days_def split: if_splits)

declare year_of.simps [simp del]

fun month_of :: "nat list \<Rightarrow> nat \<Rightarrow> nat \<times> nat" where
  "month_of [] d = (0, d)"
| "month_of (l # ls) d = (if d < l then (0, d) else (let (m, r) = month_of ls (d - l) in (Suc m, r)))"

text \<open>Months count from 0 and days of a month from 1, as in \<^verbatim>\<open>struct tm\<close>; the year is written in full.\<close>

datatype tm = Tm (tm_year: nat) (tm_mon: nat) (tm_mday: nat) (tm_hour: nat) (tm_min: nat) (tm_sec: nat)

definition gmtime :: "nat \<Rightarrow> tm" where
  "gmtime t =
     (let (y, d) = year_of 1970 (t div 86400);
          (m, r) = month_of (month_days y) d;
          s = t mod 86400
      in Tm y m (r + 1) (s div 3600) (s mod 3600 div 60) (s mod 60))"

text \<open>\<open>zone t\<close> is the offset of local time at \<open>t\<close> in seconds.\<close>

definition localtime :: "(nat \<Rightarrow> int) \<Rightarrow> nat \<Rightarrow> tm" where
  "localtime zone t = gmtime (nat (int t + zone t))"

text \<open>The way back, and the day of the week: day 0, 1 January 1970, is a Thursday.\<close>

definition days_before :: "nat \<Rightarrow> nat" where
  "days_before y = (\<Sum>i \<leftarrow> [1970 ..< y]. year_days i)"

definition day_number :: "tm \<Rightarrow> nat" where
  "day_number b = days_before (tm_year b) + sum_list (take (tm_mon b) (month_days (tm_year b))) + (tm_mday b - 1)"

definition timegm :: "tm \<Rightarrow> nat" where
  "timegm b = day_number b * 86400 + tm_hour b * 3600 + tm_min b * 60 + tm_sec b"

definition week_day :: "tm \<Rightarrow> nat" where
  "week_day b = (day_number b + 4) mod 7"


section \<open>The formats\<close>

definition pad :: "nat \<Rightarrow> nat \<Rightarrow> string" where
  "pad w n = replicate (w - length (show_nat n)) (CHR ''0'') @ show_nat n"

definition Now :: "nat \<Rightarrow> string" where
  "Now t =
     (let b = gmtime t
      in pad 4 (tm_year b) @ ''-'' @ pad 2 (tm_mon b + 1) @ ''-'' @ pad 2 (tm_mday b) @ ''T'' @
         pad 2 (tm_hour b) @ '':'' @ pad 2 (tm_min b) @ '':'' @ pad 2 (tm_sec b) @ ''Z'')"

definition log_stamp :: "tm \<Rightarrow> string" where
  "log_stamp b =
     pad 4 (tm_year b) @ ''.'' @ pad 2 (tm_mon b + 1) @ ''.'' @ pad 2 (tm_mday b) @ ''-'' @
     pad 2 (tm_hour b) @ pad 2 (tm_min b) @ pad 2 (tm_sec b)"

definition day_names :: "string list" where
  "day_names = [''Sun'', ''Mon'', ''Tue'', ''Wed'', ''Thu'', ''Fri'', ''Sat'']"

definition month_names :: "string list" where
  "month_names = [''Jan'', ''Feb'', ''Mar'', ''Apr'', ''May'', ''Jun'',
     ''Jul'', ''Aug'', ''Sep'', ''Oct'', ''Nov'', ''Dec'']"

definition log_date :: "tm \<Rightarrow> string" where
  "log_date b =
     day_names ! week_day b @ '' '' @ month_names ! tm_mon b @ '' '' @ pad 2 (tm_mday b) @ '' '' @
     pad 2 (tm_hour b) @ '':'' @ pad 2 (tm_min b) @ '':'' @ pad 2 (tm_sec b) @ '' '' @ pad 4 (tm_year b)"

lemma digit_chars:
  "digit_char 0 = CHR ''0''" "digit_char (Suc 0) = CHR ''1''" "digit_char 1 = CHR ''1''"
  "digit_char 2 = CHR ''2''" "digit_char 3 = CHR ''3''" "digit_char 4 = CHR ''4''"
  "digit_char 5 = CHR ''5''" "digit_char 6 = CHR ''6''" "digit_char 7 = CHR ''7''"
  "digit_char 8 = CHR ''8''" "digit_char 9 = CHR ''9''"
  by (simp add: digit_char_def, code_simp)+


section \<open>Days and calendar times correspond in order\<close>

lemma year_days_bounds: "365 \<le> year_days y" "year_days y \<le> 366"
  by (simp_all add: year_days_def)

lemma year_of_ge: "y \<le> fst (year_of y d)"
proof (induction y d rule: year_of.induct)
  case (1 y d)
  then show ?case by (subst year_of.simps) auto
qed

lemma year_of_sum: "y \<le> a \<Longrightarrow> year_of y d = (a, r) \<longleftrightarrow> d = (\<Sum>i \<leftarrow> [y ..< a]. year_days i) + r \<and> r < year_days a"
proof (induction y d rule: year_of.induct)
  case (1 y d)
  show ?case
  proof (cases "y = a")
    case True
    have "fst (year_of (a + 1) (d - year_days a)) \<noteq> a" using year_of_ge [of "a + 1" "d - year_days a"] by simp
    then have "year_of (a + 1) (d - year_days a) \<noteq> (a, r)" by auto
    then show ?thesis unfolding True by (subst year_of.simps) auto
  next
    case False
    then have u: "[y ..< a] = y # [y + 1 ..< a]" using 1(2) by (simp add: upt_rec [of y])
    have "y + 1 \<le> a" using False 1(2) by simp
    with 1(1) [OF _ this] False u show ?thesis by (subst year_of.simps) auto
  qed
qed

lemma year_of_day: "(case year_of 1970 d of (y, r) \<Rightarrow> days_before y + r = d \<and> r < year_days y \<and> 1970 \<le> y)"
  using year_of_sum [of 1970 "fst (year_of 1970 d)" d "snd (year_of 1970 d)"] year_of_ge [of 1970 d]
  by (auto simp: days_before_def split: prod.splits)

lemma month_of_sum: "d < sum_list ls \<Longrightarrow> case month_of ls d of (m, r) \<Rightarrow>
    m < length ls \<and> r < ls ! m \<and> sum_list (take m ls) + r = d"
proof (induction ls arbitrary: d)
  case (Cons l ls)
  obtain m r where m: "month_of ls (d - l) = (m, r)" by fastforce
  show ?case
  proof (cases "d < l")
    case False
    then have "d - l < sum_list ls" using Cons.prems by simp
    from Cons.IH [OF this] m False show ?thesis by auto
  qed simp
qed simp

lemma sum_month_days: "sum_list (month_days y) = year_days y"
  by (simp add: month_days_def year_days_def)

lemma length_month_days: "length (month_days y) = 12"
  by (simp add: month_days_def)

lemma month_days_le: "m < 12 \<Longrightarrow> month_days y ! m \<le> 31"
  by (auto simp: month_days_def less_Suc_eq numeral_eq_Suc)

text \<open>The calendar times that occur.\<close>

definition tm_ok :: "tm \<Rightarrow> bool" where
  "tm_ok b = (1970 \<le> tm_year b \<and> tm_mon b < 12 \<and> 1 \<le> tm_mday b \<and> tm_mday b \<le> month_days (tm_year b) ! tm_mon b \<and>
     tm_hour b < 24 \<and> tm_min b < 60 \<and> tm_sec b < 60)"

lemma seconds_split: "(s :: nat) div 3600 * 3600 + s mod 3600 div 60 * 60 + s mod 60 = s"
proof -
  have "s mod 3600 mod 60 = s mod 60" by (simp add: mod_mod_cancel)
  then show ?thesis using div_mult_mod_eq [of s 3600] div_mult_mod_eq [of "s mod 3600" 60] by linarith
qed

lemma gmtime_ok: "tm_ok (gmtime t)" and timegm_gmtime: "timegm (gmtime t) = t"
proof -
  obtain y d where y: "year_of 1970 (t div 86400) = (y, d)" by fastforce
  obtain m r where m: "month_of (month_days y) d = (m, r)" by fastforce
  from year_of_day [of "t div 86400"] y have d: "days_before y + d = t div 86400" "d < year_days y" "1970 \<le> y"
    by simp_all
  from month_of_sum [of d "month_days y"] d(2) m have r: "m < 12" "r < month_days y ! m"
      "sum_list (take m (month_days y)) + r = d"
    by (simp_all add: sum_month_days length_month_days)
  have s: "t mod 86400 div 3600 < 24" by (simp add: less_mult_imp_div_less)
  have g: "gmtime t = Tm y m (r + 1) (t mod 86400 div 3600) (t mod 86400 mod 3600 div 60) (t mod 86400 mod 60)"
    by (simp add: gmtime_def y m Let_def)
  show "tm_ok (gmtime t)"
    using d r s by (auto simp: g tm_ok_def less_mult_imp_div_less)
  have "day_number (gmtime t) = t div 86400" using d(1) r(3) by (simp add: g day_number_def)
  then have "timegm (gmtime t) = t div 86400 * 86400 + t mod 86400"
    using seconds_split [of "t mod 86400"] by (simp only: g timegm_def tm.sel)
  then show "timegm (gmtime t) = t" by simp
qed


section \<open>Order\<close>

instantiation tm :: linorder
begin

definition tm_key :: "tm \<Rightarrow> nat \<times> nat \<times> nat \<times> nat \<times> nat \<times> nat" where
  "tm_key b = (tm_year b, tm_mon b, tm_mday b, tm_hour b, tm_min b, tm_sec b)"

definition less_eq_tm :: "tm \<Rightarrow> tm \<Rightarrow> bool" where
  "less_eq_tm a b = (tm_key a \<le> tm_key b)"

definition less_tm :: "tm \<Rightarrow> tm \<Rightarrow> bool" where
  "less_tm a b = (tm_key a < tm_key b)"

instance
  by standard (auto simp: less_eq_tm_def less_tm_def tm_key_def tm.expand)

end

lemma take_mono_sum: "m \<le> n \<Longrightarrow> sum_list (take m ls) \<le> sum_list (take n ls)" for ls :: "nat list"
  by (auto simp: take_add le_iff_add)

lemma days_before_mono: "y \<le> z \<Longrightarrow> days_before y \<le> days_before z"
proof (induction z)
  case (Suc z)
  then show ?case by (cases "y = Suc z") (auto simp: days_before_def)
qed (simp add: days_before_def)

lemma days_before_Suc: "1970 \<le> y \<Longrightarrow> days_before (Suc y) = days_before y + year_days y"
  by (simp add: days_before_def)

lemma month_start:
  assumes "tm_ok b"
  shows "sum_list (take (tm_mon b) (month_days (tm_year b))) + (tm_mday b - 1)
    < sum_list (take (Suc (tm_mon b)) (month_days (tm_year b)))"
  using assms by (auto simp: tm_ok_def take_Suc_conv_app_nth length_month_days)

lemma day_number_before:
  assumes "tm_ok b"
  shows "day_number b < days_before (Suc (tm_year b))"
proof -
  have "sum_list (take (Suc (tm_mon b)) (month_days (tm_year b))) \<le> sum_list (take 12 (month_days (tm_year b)))"
    using assms by (intro take_mono_sum) (simp add: tm_ok_def)
  also have "\<dots> = year_days (tm_year b)" using length_month_days sum_month_days by simp
  finally show ?thesis
    using month_start [OF assms] assms by (simp add: day_number_def days_before_Suc tm_ok_def)
qed

lemma day_number_less:
  assumes "tm_ok a" "tm_ok b" "(tm_year a, tm_mon a, tm_mday a) < (tm_year b, tm_mon b, tm_mday b)"
  shows "day_number a < day_number b"
proof -
  consider "tm_year a < tm_year b" | "tm_year a = tm_year b" "tm_mon a < tm_mon b"
    | "tm_year a = tm_year b" "tm_mon a = tm_mon b" "tm_mday a < tm_mday b"
    using assms(3) by (auto simp: le_less)
  then show ?thesis
  proof cases
    case 1
    then have "days_before (Suc (tm_year a)) \<le> days_before (tm_year b)" by (intro days_before_mono) simp
    then show ?thesis using day_number_before [OF assms(1)] by (simp add: day_number_def)
  next
    case 2
    then have "sum_list (take (Suc (tm_mon a)) (month_days (tm_year b))) \<le>
        sum_list (take (tm_mon b) (month_days (tm_year b)))" by (intro take_mono_sum) simp
    then show ?thesis using month_start [OF assms(1)] 2 by (simp add: day_number_def)
  next
    case 3
    then show ?thesis using assms(1) by (auto simp: day_number_def tm_ok_def)
  qed
qed

lemma timegm_less:
  assumes "tm_ok a" "tm_ok b" "a < b"
  shows "timegm a < timegm b"
proof (cases "(tm_year a, tm_mon a, tm_mday a) = (tm_year b, tm_mon b, tm_mday b)")
  case True
  with assms show ?thesis by (auto simp: less_tm_def tm_key_def timegm_def day_number_def tm_ok_def)
next
  case False
  with assms(3) have "(tm_year a, tm_mon a, tm_mday a) < (tm_year b, tm_mon b, tm_mday b)"
    by (auto simp: less_tm_def tm_key_def)
  with assms have "day_number a < day_number b" by (intro day_number_less)
  then show ?thesis using assms(1) by (simp add: timegm_def tm_ok_def)
qed

lemma gmtime_less_iff: "gmtime s < gmtime t \<longleftrightarrow> s < t"
  using timegm_less [OF gmtime_ok gmtime_ok, of s t] timegm_less [OF gmtime_ok gmtime_ok, of t s]
    timegm_gmtime by (metis linorder_less_linear order.asym)


section \<open>The printed forms\<close>

lemma pad_1: "n < 10 \<Longrightarrow> pad (Suc 0) n = [digit_char n]"
  by (simp add: pad_def show_nat.simps)

lemma pad_Suc:
  assumes "n < 10 ^ Suc (Suc w)"
  shows "pad (Suc (Suc w)) n = pad (Suc w) (n div 10) @ [digit_char (n mod 10)]"
proof (cases "n < 10")
  case True
  then show ?thesis by (simp add: pad_def show_nat.simps digit_chars replicate_append_same)
next
  case False
  then show ?thesis by (subst (1) pad_def, subst (1 2) show_nat.simps) (simp add: pad_def)
qed

lemma length_pad: "n < 10 ^ Suc w \<Longrightarrow> length (pad (Suc w) n) = Suc w"
  using length_show_nat [of n w] by (simp add: pad_def)

text \<open>Texts of one length compare part by part, and padded numbers as numbers.\<close>

lemma append_less:
  fixes a b c d :: "'a::linorder list"
  assumes "length a = length b"
  shows "a @ c < b @ d \<longleftrightarrow> a < b \<or> a = b \<and> c < d"
  using assms by (induction a b rule: list_induct2) auto

lemma less_div_mod: "(m :: nat) < n \<longleftrightarrow> m div k < n div k \<or> m div k = n div k \<and> m mod k < n mod k"
proof (cases "m div k = n div k")
  case True
  then show ?thesis using div_mult_mod_eq [of m k] div_mult_mod_eq [of n k] by (metis add_less_cancel_left order_less_irrefl)
next
  case False
  then show ?thesis using div_le_mono [of m n k] div_le_mono [of n m k] by (metis leD le_neq_implies_less nat_le_linear)
qed

lemma digit_char_less: "m < 10 \<Longrightarrow> n < 10 \<Longrightarrow> digit_char m < digit_char n \<longleftrightarrow> m < n"
  by (simp add: less_char_def code_digit_char)

lemma pad_less_iff: "m < 10 ^ Suc w \<Longrightarrow> n < 10 ^ Suc w \<Longrightarrow> pad (Suc w) m < pad (Suc w) n \<longleftrightarrow> m < n"
proof (induction w arbitrary: m n)
  case 0
  then show ?case by (simp add: pad_1 digit_char_less)
next
  case (Suc w)
  have d: "m div 10 < 10 ^ Suc w" "n div 10 < 10 ^ Suc w"
    using Suc.prems by (auto intro: less_mult_imp_div_less)
  have "pad (Suc w) (m div 10) = pad (Suc w) (n div 10) \<longleftrightarrow> m div 10 = n div 10"
    using Suc.IH d by (metis nat_neq_iff order_less_irrefl)
  then show ?case
    using Suc.IH [OF d] Suc.prems d
    by (simp add: pad_Suc append_less length_pad digit_char_less less_div_mod [of m n 10])
qed

lemma pad_eq_iff: "m < 10 ^ Suc w \<Longrightarrow> n < 10 ^ Suc w \<Longrightarrow> pad (Suc w) m = pad (Suc w) n \<longleftrightarrow> m = n"
  using pad_less_iff [of m w n] pad_less_iff [of n w m] by (metis nat_neq_iff order_less_irrefl)

lemma pad4: "m < 10000 \<Longrightarrow> length (pad 4 m) = 4" "m < 10000 \<Longrightarrow> n < 10000 \<Longrightarrow> pad 4 m < pad 4 n \<longleftrightarrow> m < n"
  "m < 10000 \<Longrightarrow> n < 10000 \<Longrightarrow> pad 4 m = pad 4 n \<longleftrightarrow> m = n"
  using length_pad [of m 3] pad_less_iff [of m 3 n] pad_eq_iff [of m 3 n] by simp_all

lemma pad2: "m < 100 \<Longrightarrow> length (pad 2 m) = 2" "m < 100 \<Longrightarrow> n < 100 \<Longrightarrow> pad 2 m < pad 2 n \<longleftrightarrow> m < n"
  "m < 100 \<Longrightarrow> n < 100 \<Longrightarrow> pad 2 m = pad 2 n \<longleftrightarrow> m = n"
  using length_pad [of m 1] pad_less_iff [of m 1 n] pad_eq_iff [of m 1 n] by (simp_all add: numeral_2_eq_2)

lemma tm_small: "tm_ok b \<Longrightarrow> tm_mon b + 1 < 100 \<and> tm_mday b < 100 \<and> tm_hour b < 100 \<and> tm_min b < 100 \<and> tm_sec b < 100"
  using month_days_le [of "tm_mon b" "tm_year b"] by (auto simp: tm_ok_def)

lemma pair_less: "(a, b) < (c, d) \<longleftrightarrow> a < c \<or> a = c \<and> b < d" for a c :: "'a::linorder" and b d :: "'b::linorder"
  by (auto simp: less_prod_def le_less)

lemma log_stamp_less:
  assumes "tm_ok a" "tm_ok b" "tm_year a < 10000" "tm_year b < 10000"
  shows "log_stamp a < log_stamp b \<longleftrightarrow> a < b"
  using tm_small [OF assms(1)] tm_small [OF assms(2)] assms(3,4)
  by (simp add: log_stamp_def append_less pad4 pad2 less_tm_def tm_key_def pair_less del: less_prod_simp)

lemma Now_less:
  assumes "tm_year (gmtime s) < 10000" "tm_year (gmtime t) < 10000"
  shows "Now s < Now t \<longleftrightarrow> s < t"
proof -
  have "Now s < Now t \<longleftrightarrow> gmtime s < gmtime t"
    using tm_small [OF gmtime_ok [of s]] tm_small [OF gmtime_ok [of t]] assms
    by (simp add: Now_def Let_def append_less pad4 pad2 less_tm_def tm_key_def pair_less del: less_prod_simp)
  then show ?thesis by (simp add: gmtime_less_iff)
qed

lemma printed_lengths:
  assumes "tm_ok b" "tm_year b < 10000"
  shows "length (log_stamp b) = 17" "length (log_date b) = 24"
proof -
  have "\<forall>s \<in> set day_names \<union> set month_names. length s = 3" by (simp add: day_names_def month_names_def)
  moreover have "day_names ! week_day b \<in> set day_names"
    by (rule nth_mem) (simp add: day_names_def week_day_def)
  moreover have "month_names ! tm_mon b \<in> set month_names"
    using assms(1) by (intro nth_mem) (simp add: month_names_def tm_ok_def)
  ultimately have "length (day_names ! week_day b) = 3" "length (month_names ! tm_mon b) = 3" by blast+
  then show "length (log_stamp b) = 17" "length (log_date b) = 24"
    using tm_small [OF assms(1)] assms(2) by (simp_all add: log_stamp_def log_date_def pad4 pad2)
qed

lemma length_Now: "tm_year (gmtime t) < 10000 \<Longrightarrow> length (Now t) = 20"
  using tm_small [OF gmtime_ok [of t]] by (simp add: Now_def Let_def pad4 pad2)

text \<open>
  With one offset local times are ordered as the seconds are. Where the clock is set back they
  are not even different.
\<close>

lemma localtime_fixed: "0 \<le> int s + z \<Longrightarrow> 0 \<le> int t + z \<Longrightarrow> localtime (\<lambda>_. z) s < localtime (\<lambda>_. z) t \<longleftrightarrow> s < t"
  by (auto simp: localtime_def gmtime_less_iff)

lemma localtime_repeats: "localtime zone (t + 3600) = localtime zone t" if "zone (t + 3600) = zone t - 3600"
  using that by (simp add: localtime_def)


section \<open>Two times\<close>

lemmas clock_eval = gmtime_def Let_def year_of.simps year_days_def leap_def month_days_def
  pad_def show_nat.simps digit_chars

lemma Now_billion: "Now 1000000000 = ''2001-09-09T01:46:40Z''"
  by (simp add: Now_def clock_eval) code_simp

lemma log_date_billion: "log_date (gmtime 1000000000) = ''Sun Sep 09 01:46:40 2001''"
  by (simp add: log_date_def week_day_def day_number_def days_before_def upt_rec clock_eval
      day_names_def month_names_def)

end
