(* ===== verification/Moderation.thy ===== *)
theory Moderation
  imports Engine_Types Json Clock
begin

text \<open>
  Kicks and bans (\<^verbatim>\<open>src/src/engine/kick.cpp\<close>, \<^verbatim>\<open>bans.cpp\<close>): finding the player an
  identifier means, the kick itself with its error cases, the list of kicked players that is
  enforced on reconnect, and the ban list with its file \<^verbatim>\<open>bans.json\<close>. The list of connected
  players is the game's at the time of the call.
\<close>

section \<open>Kicking\<close>

text \<open>The player fields \<^verbatim>\<open>KickPlayer\<close> compares after the player id, in order.\<close>

definition kick_fields :: "(PlayerInfo \<Rightarrow> string) list" where
  "kick_fields = [uniqueNetId, characterGuid, characterName, pl_name]"

text \<open>What is known of the target: controller, name and net id.\<close>

type_synonym target = "u64 \<times> string \<times> string"

definition target_of :: "PlayerInfo \<Rightarrow> target" where
  "target_of p = (controllerPtr p, pl_name p, uniqueNetId p)"

definition match_id :: "string \<Rightarrow> PlayerInfo list \<Rightarrow> target" where
  "match_id identifier ps =
     (case find (\<lambda>p. to_string (playerId p) = identifier) ps of
        None \<Rightarrow> (0, [], []) | Some p \<Rightarrow> target_of p)"

text \<open>The loop over the fields; it ends at the first field that gives a controller.\<close>

fun match_fields :: "(PlayerInfo \<Rightarrow> string) list \<Rightarrow> string \<Rightarrow> PlayerInfo list \<Rightarrow> target \<Rightarrow> string + target" where
  "match_fields [] identifier ps t = Inr t"
| "match_fields (f # fs) identifier ps t =
     (if fst t \<noteq> 0 then Inr t
      else
        (let hits = filter (\<lambda>p. f p \<noteq> [] \<and> f p = identifier) ps
         in if length hits > 1
            then Inl ([APOS] @ identifier @ [APOS] @ '' matches '' @ show_nat (length hits) @
                      '' players; kick by netId or playerId instead'')
            else match_fields fs identifier ps (if hits = [] then t else target_of (last hits))))"

definition find_target :: "string \<Rightarrow> PlayerInfo list \<Rightarrow> string + target" where
  "find_target identifier ps =
     (case match_fields kick_fields identifier ps (match_id identifier ps) of
        Inl e \<Rightarrow> Inl e
      | Inr t \<Rightarrow> (if fst t = 0 then Inl (''no connected player matches '' @ [APOS] @ identifier @ [APOS])
                 else Inr t))"

definition RememberKick :: "string \<Rightarrow> string \<Rightarrow> string \<Rightarrow> World \<Rightarrow> World" where
  "RememberKick netId name reason w =
     (if netId = [] then w
      else if list_ex (\<lambda>e. kp_netId e = netId) (g_Kicked w) then w
      else w\<lparr>g_Kicked := g_Kicked w @ [\<lparr>kp_netId = netId, kp_name = name, kp_reason = reason\<rparr>]\<rparr>)"

text \<open>\<^verbatim>\<open>KickPlayer\<close>: the error message, or \<^term>\<open>None\<close> for success, and the new state.\<close>

definition KickPlayer :: "string \<Rightarrow> string \<Rightarrow> World \<Rightarrow> string option \<times> World" where
  "KickPlayer identifier reason w =
     (let g = game w
      in if \<not> initialized g then (Some ''engine not initialised'', w)
         else case find_target identifier (GetAllPlayers g) of
           Inl e \<Rightarrow> (Some e, w)
         | Inr (controller, matched, matchedNetId) \<Rightarrow>
             (if \<not> kick_function g then (Some ''KickPlayerController function not found in GObjects'', w)
              else if \<not> kick_library g then (Some ''RedpointFrameworkBlueprintLibrary default object not found'', w)
              else if \<not> kick_native g then (Some ''KickPlayerController is not a native function'', w)
              else if \<not> pump_ready g then (Some (''kick needs the game thread pump: '' @ pump_status g), w)
              else if \<not> pump_runs g then (Some ''the game thread did not run the kick within 10s'', w)
              else if \<not> text_ok g then (Some ''could not build the kick reason text'', w)
              else if \<not> kick_invoked g then (Some ''could not invoke KickPlayerController'', w)
              else
                (let w' = call (Kick controller reason) w
                 in if \<not> kick_result g controller reason
                    then (Some (''the game refused the kick for '' @ [APOS] @ matched @ [APOS]), w')
                    else (None, RememberKick matchedNetId matched reason w'))))"

definition IsKicked :: "string \<Rightarrow> World \<Rightarrow> bool" where
  "IsKicked netId w = (netId \<noteq> [] \<and> list_ex (\<lambda>e. kp_netId e = netId) (g_Kicked w))"

definition KickedNetIds :: "World \<Rightarrow> string list" where
  "KickedNetIds w = map kp_netId (g_Kicked w)"

fun remove_first :: "('a \<Rightarrow> bool) \<Rightarrow> 'a list \<Rightarrow> 'a list" where
  "remove_first P [] = []"
| "remove_first P (x # xs) = (if P x then xs else x # remove_first P xs)"

definition ClearKick :: "string \<Rightarrow> World \<Rightarrow> bool \<times> World" where
  "ClearKick netId w =
     (if list_ex (\<lambda>e. kp_netId e = netId) (g_Kicked w)
      then (True, w\<lparr>g_Kicked := remove_first (\<lambda>e. kp_netId e = netId) (g_Kicked w)\<rparr>)
      else (False, w))"

definition enforce_kick :: "World \<Rightarrow> PlayerInfo \<Rightarrow> World" where
  "enforce_kick w p =
     (if uniqueNetId p = [] then w
      else case find (\<lambda>e. kp_netId e = uniqueNetId p) (g_Kicked w) of
        None \<Rightarrow> w
      | Some e \<Rightarrow> snd (KickPlayer (uniqueNetId p) (kp_reason e) w))"

definition EnforceKicks :: "World \<Rightarrow> World" where
  "EnforceKicks w =
     (if \<not> initialized (game w) \<or> \<not> pump_ready (game w) then w
      else if KickedNetIds w = [] then w
      else foldl enforce_kick w (GetAllPlayers (game w)))"


section \<open>Bans\<close>

definition ban_fields :: "BanEntry \<Rightarrow> (string \<times> string) list" where
  "ban_fields b = [(''netId'', ban_netId b), (''name'', ban_name b), (''reason'', ban_reason b), (''bannedAt'', ban_bannedAt b)]"

definition ban_text :: "BanEntry \<Rightarrow> string" where
  "ban_text b = json_object (ban_fields b)"

text \<open>The body of the loop of \<^verbatim>\<open>SaveLocked\<close> over the entries from an index on.\<close>

fun ban_lines :: "BanEntry list \<Rightarrow> string" where
  "ban_lines [] = []"
| "ban_lines [b] = ''  '' @ ban_text b @ [LF]"
| "ban_lines (b # c # bs) = ''  '' @ ban_text b @ '','' @ [LF] @ ban_lines (c # bs)"

definition bans_text :: "BanEntry list \<Rightarrow> string" where
  "bans_text bs = ''['' @ [LF] @ ban_lines bs @ '']'' @ [LF]"

definition SaveLocked :: "World \<Rightarrow> World" where
  "SaveLocked w = (if bans_writable (game w) then w\<lparr>bans_file := Some (bans_text (g_Bans w))\<rparr> else w)"

definition ban_of :: "string \<Rightarrow> BanEntry" where
  "ban_of obj = \<lparr>ban_netId = GetString_or obj ''netId'' [], ban_name = GetString_or obj ''name'' [],
     ban_reason = GetString_or obj ''reason'' [], ban_bannedAt = GetString_or obj ''bannedAt'' []\<rparr>"

text \<open>The loop of \<^verbatim>\<open>Load\<close> from position \<open>pos\<close>.\<close>

function load_from :: "string \<Rightarrow> nat \<Rightarrow> BanEntry list" where
  "load_from content pos =
     (case find_from content (CHR ''{'') pos of
        None \<Rightarrow> []
      | Some start \<Rightarrow>
          (case find_from content (CHR ''}'') start of
             None \<Rightarrow> []
           | Some stop \<Rightarrow>
               (let ban = ban_of (substr content start (stop - start + 1))
                in if ban_netId ban \<noteq> [] then ban # load_from content (stop + 1)
                   else load_from content (stop + 1))))"
  by pat_completeness auto
termination
  by (relation "measure (\<lambda>(content, pos). length content - pos)") (auto dest!: find_from_bounds)

declare load_from.simps [simp del]

definition Bans_Load :: "World \<Rightarrow> World" where
  "Bans_Load w =
     (case bans_file w of
        None \<Rightarrow> w\<lparr>g_Bans := []\<rparr>
      | Some content \<Rightarrow> w\<lparr>g_Bans := load_from content 0\<rparr>)"

definition IsBanned :: "string \<Rightarrow> World \<Rightarrow> bool" where
  "IsBanned netId w = (netId \<noteq> [] \<and> list_ex (\<lambda>b. ban_netId b = netId) (g_Bans w))"

definition names_player :: "string \<Rightarrow> PlayerInfo \<Rightarrow> bool" where
  "names_player player p =
     (let wanted = Lower player
      in to_string (playerId p) = player \<or> Lower (uniqueNetId p) = wanted \<or> Lower (characterGuid p) = wanted \<or>
         Lower (characterName p) = wanted \<or> Lower (pl_name p) = wanted)"

definition looksLikeSteamId :: "string \<Rightarrow> bool" where
  "looksLikeSteamId s = (length s = 17 \<and> find_first_not_of ''0123456789'' s = None)"

definition or_else :: "string \<Rightarrow> string \<Rightarrow> string" where
  "or_else name netId = (if name = [] then netId else name)"

text \<open>The part of \<^verbatim>\<open>Ban\<close> once the net id is known; \<open>now\<close> is the text of \<^verbatim>\<open>Now()\<close>.\<close>

definition add_ban :: "string \<Rightarrow> string \<Rightarrow> string \<Rightarrow> string \<Rightarrow> World \<Rightarrow> bool \<times> string \<times> World" where
  "add_ban now netId name reason w =
     (if list_ex (\<lambda>b. ban_netId b = netId) (g_Bans w)
      then (False, or_else name netId @ '' is already banned'', w)
      else
        (let w1 = SaveLocked (w\<lparr>g_Bans := g_Bans w @
               [\<lparr>ban_netId = netId, ban_name = name, ban_reason = reason, ban_bannedAt = now\<rparr>]\<rparr>);
             (err, w2) = KickPlayer netId reason w1
         in (True, ''banned '' @ or_else name netId @ '' ('' @ reason @ '')'' @
                   (if err = None then [] else '', not currently online''), w2)))"

text \<open>\<^verbatim>\<open>Ban\<close>: success, the message, and the new state.\<close>

definition Ban :: "string \<Rightarrow> string \<Rightarrow> string \<Rightarrow> World \<Rightarrow> bool \<times> string \<times> World" where
  "Ban now player reason w =
     (if \<not> initialized (game w) then (False, ''engine not initialised'', w)
      else
        (let (netId, name) = (case find (names_player player) (GetAllPlayers (game w)) of
                                None \<Rightarrow> ([], []) | Some p \<Rightarrow> (uniqueNetId p, pl_name p))
         in if netId = [] \<and> \<not> looksLikeSteamId player
            then (False, ''no connected player matches '' @ [APOS] @ player @ [APOS] @
                         ''; to ban someone offline use their SteamID64'', w)
            else add_ban now (if netId = [] then player else netId) name reason w))"

definition Unban :: "string \<Rightarrow> World \<Rightarrow> bool \<times> string \<times> World" where
  "Unban identifier w =
     (let wanted = Lower identifier;
          matches = (\<lambda>b. Lower (ban_netId b) = wanted \<or> Lower (ban_name b) = wanted)
      in case find matches (g_Bans w) of
           None \<Rightarrow> (False, ''no ban matches '' @ [APOS] @ identifier @ [APOS], w)
         | Some b \<Rightarrow> (True, ''unbanned '' @ or_else (ban_name b) (ban_netId b),
                     SaveLocked (w\<lparr>g_Bans := remove_first matches (g_Bans w)\<rparr>)))"

definition enforce_ban :: "BanEntry list \<Rightarrow> World \<Rightarrow> PlayerInfo \<Rightarrow> World" where
  "enforce_ban bans w p =
     (if uniqueNetId p = [] then w
      else case find (\<lambda>b. ban_netId b = uniqueNetId p) bans of
        None \<Rightarrow> w
      | Some b \<Rightarrow> snd (KickPlayer (uniqueNetId p) (ban_reason b) w))"

definition Enforce :: "World \<Rightarrow> World" where
  "Enforce w =
     (if \<not> initialized (game w) \<or> \<not> pump_ready (game w) then w
      else if g_Bans w = [] then w
      else foldl (enforce_ban (g_Bans w)) w (GetAllPlayers (game w)))"


section \<open>Reading back the ban file\<close>

lemma load_from_none: "CHR ''{'' \<notin> set (drop pos content) \<Longrightarrow> load_from content pos = []"
proof -
  assume "CHR ''{'' \<notin> set (drop pos content)"
  then have "find_from content (CHR ''{'') pos = None" by (simp add: find_from_def)
  then show ?thesis by (subst load_from.simps) simp
qed

lemma load_from_object:
  assumes "drop pos content = pre @ CHR ''{'' # body @ CHR ''}'' # after" "CHR ''{'' \<notin> set pre" "CHR ''}'' \<notin> set body"
    "ban_netId (ban_of (CHR ''{'' # body @ ''}'')) \<noteq> []"
  shows "\<exists>pos'. drop pos' content = after \<and>
    load_from content pos = ban_of (CHR ''{'' # body @ ''}'') # load_from content pos'"
proof -
  let ?start = "pos + length pre"
  let ?stop = "?start + 1 + length body"
  have d: "drop ?start content = CHR ''{'' # body @ CHR ''}'' # after"
    using arg_cong [OF assms(1), of "drop (length pre)"] by (simp add: add.commute)
  have 1: "find_from content (CHR ''{'') pos = Some ?start"
    using assms(1,2) by (simp add: find_from_def add.commute)
  have "find_char (CHR ''}'') (CHR ''{'' # body @ CHR ''}'' # after) = Some (1 + length body)"
    using assms(3) find_char_append [of "CHR ''}''" "CHR ''{'' # body" after] by simp
  then have 2: "find_from content (CHR ''}'') ?start = Some ?stop" by (simp add: find_from_def d)
  have 3: "substr content ?start (?stop - ?start + 1) = CHR ''{'' # body @ ''}''" by (simp add: substr_def d)
  have 4: "drop (?stop + 1) content = after"
    using arg_cong [OF d, of "drop (length body + 2)"] by (simp add: add.commute add.left_commute)
  have "load_from content pos = ban_of (CHR ''{'' # body @ ''}'') # load_from content (?stop + 1)"
    using assms(4) by (subst load_from.simps) (simp only: 1 2 3 option.case Let_def if_True not_False_eq_True)
  with 4 show ?thesis by blast
qed

text \<open>An entry that the file format carries: see \<open>hides_key\<close> for the last condition.\<close>

definition plain_text :: "string \<Rightarrow> bool" where
  "plain_text v = (list_all printable v \<and> CHR ''}'' \<notin> set v \<and>
     list_all (\<lambda>k. \<not> hides_key k v) [''name'', ''reason'', ''bannedAt''])"

definition wf_ban :: "BanEntry \<Rightarrow> bool" where
  "wf_ban b = (ban_netId b \<noteq> [] \<and> plain_text (ban_netId b) \<and> plain_text (ban_name b) \<and>
     plain_text (ban_reason b) \<and> plain_text (ban_bannedAt b))"

lemma ban_fields_no_brace:
  assumes "wf_ban b"
  shows "CHR ''}'' \<notin> set (json_fields (ban_fields b))"
proof -
  have "CHR ''}'' \<notin> set (Escape v)" if "plain_text v" for v
    using that by (intro Escape_notin) (simp_all add: plain_text_def)
  with assms show ?thesis by (simp add: ban_fields_def json_field_def wf_ban_def)
qed

lemma GetString_ban:
  assumes "ban_fields b = pre @ (k, v) # post" "plain_key k" "list_all printable v"
    "list_all (\<lambda>(k', v'). plain_key k' \<and> k' \<noteq> k \<and> \<not> hides_key k v') pre"
  shows "GetString_or (ban_text b) k [] = v"
proof -
  have "filter printable v = v" using assms(3) by (simp add: list_all_iff)
  with GetString_object [OF assms(2,4), of "''{''" v post "''}''"] assms(1) show ?thesis
    by (simp add: GetString_or_def ban_text_def json_object_def)
qed

lemma ban_of_text:
  assumes "wf_ban b"
  shows "ban_of (ban_text b) = b"
proof -
  note defs = wf_ban_def plain_text_def plain_key_def
  have "GetString_or (ban_text b) ''netId'' [] = ban_netId b"
    by (rule GetString_ban [where pre = "[]"]) (use assms in \<open>simp_all add: ban_fields_def defs\<close>)
  moreover have "GetString_or (ban_text b) ''name'' [] = ban_name b"
    by (rule GetString_ban [where pre = "[(''netId'', ban_netId b)]"])
      (use assms in \<open>simp_all add: ban_fields_def defs\<close>)
  moreover have "GetString_or (ban_text b) ''reason'' [] = ban_reason b"
    by (rule GetString_ban [where pre = "[(''netId'', ban_netId b), (''name'', ban_name b)]"])
      (use assms in \<open>simp_all add: ban_fields_def defs\<close>)
  moreover have "GetString_or (ban_text b) ''bannedAt'' [] = ban_bannedAt b"
    by (rule GetString_ban [where pre = "[(''netId'', ban_netId b), (''name'', ban_name b), (''reason'', ban_reason b)]"])
      (use assms in \<open>simp_all add: ban_fields_def defs\<close>)
  ultimately show ?thesis by (simp add: ban_of_def)
qed

lemma load_from_ban:
  assumes "wf_ban b" "drop pos content = pre @ ban_text b @ after" "CHR ''{'' \<notin> set pre"
  shows "\<exists>pos'. drop pos' content = after \<and> load_from content pos = b # load_from content pos'"
proof -
  let ?body = "json_fields (ban_fields b)"
  have t: "ban_text b = CHR ''{'' # ?body @ ''}''" by (simp add: ban_text_def json_object_def)
  have "drop pos content = pre @ CHR ''{'' # ?body @ CHR ''}'' # after" using assms(2) by (simp add: t)
  from load_from_object [OF this assms(3) ban_fields_no_brace [OF assms(1)]] show ?thesis
    using ban_of_text [OF assms(1)] assms(1) by (simp add: t wf_ban_def)
qed

lemma load_from_lines:
  "list_all wf_ban bs \<Longrightarrow> drop pos content = pre @ ban_lines bs @ after \<Longrightarrow> CHR ''{'' \<notin> set pre \<Longrightarrow>
     CHR ''{'' \<notin> set after \<Longrightarrow> load_from content pos = bs"
proof (induction bs arbitrary: pos pre rule: ban_lines.induct)
  case 1
  then show ?case by (simp add: load_from_none)
next
  case (2 b)
  obtain pos' where "drop pos' content = [LF] @ after" "load_from content pos = b # load_from content pos'"
    using load_from_ban [of b pos content "pre @ ''  ''" "[LF] @ after"] "2.prems" by auto
  with "2.prems" show ?case by (simp add: load_from_none)
next
  case (3 b c bs)
  obtain pos' where p: "drop pos' content = ('','' @ [LF]) @ ban_lines (c # bs) @ after"
      "load_from content pos = b # load_from content pos'"
    using load_from_ban [of b pos content "pre @ ''  ''" "('','' @ [LF]) @ ban_lines (c # bs) @ after"] "3.prems"
    by auto
  have "load_from content pos' = c # bs" by (rule "3.IH" [OF _ p(1)]) (use "3.prems" in simp_all)
  with p(2) show ?case by simp
qed

lemma load_bans_text: "list_all wf_ban bs \<Longrightarrow> load_from (bans_text bs) 0 = bs"
  by (rule load_from_lines [where pre = "''['' @ [LF]" and after = "'']'' @ [LF]"]) (simp_all add: bans_text_def)


section \<open>Targets\<close>

lemma match_fields_Inr:
  "match_fields fs ident ps t = Inr t' \<Longrightarrow> t' = t \<or> (\<exists>p \<in> set ps. t' = target_of p \<and> (\<exists>f \<in> set fs. f p = ident))"
proof (induction fs ident ps t rule: match_fields.induct)
  case (2 f fs ident ps t)
  let ?hits = "filter (\<lambda>p. f p \<noteq> [] \<and> f p = ident) ps"
  show ?case
  proof (cases "fst t = 0")
    case False
    with "2.prems" show ?thesis by simp
  next
    case True
    with "2.prems" have r: "match_fields fs ident ps (if ?hits = [] then t else target_of (last ?hits)) = Inr t'"
      and n: "\<not> length ?hits > 1" by (auto simp: Let_def split: if_splits)
    from True have "\<not> fst t \<noteq> 0" by simp
    from "2.IH" [OF this refl n r] show ?thesis
    proof
      assume t: "t' = (if ?hits = [] then t else target_of (last ?hits))"
      have "?hits \<noteq> [] \<Longrightarrow> last ?hits \<in> set ps \<and> f (last ?hits) = ident"
        using last_in_set [of ?hits] by simp
      with t show ?thesis by auto
    qed auto
  qed
qed simp

definition named :: "string \<Rightarrow> PlayerInfo \<Rightarrow> bool" where
  "named identifier p = (to_string (playerId p) = identifier \<or> list_ex (\<lambda>f. f p = identifier) kick_fields)"

lemma find_target_Inr:
  assumes "find_target identifier ps = Inr t"
  shows "\<exists>p \<in> set ps. t = target_of p \<and> controllerPtr p \<noteq> 0 \<and> named identifier p"
proof -
  have m: "match_fields kick_fields identifier ps (match_id identifier ps) = Inr t" "fst t \<noteq> 0"
    using assms by (auto simp: find_target_def split: sum.splits if_splits)
  have "match_id identifier ps = (0, [], []) \<or>
      (\<exists>p \<in> set ps. match_id identifier ps = target_of p \<and> to_string (playerId p) = identifier)"
    by (auto simp: match_id_def find_Some_iff split: option.splits)
  with match_fields_Inr [OF m(1)] m(2) show ?thesis
    by (auto simp: named_def target_of_def list_ex_iff)
qed

text \<open>The players can be told apart by net id: enforcement relies on it.\<close>

definition distinct_ids :: "PlayerInfo list \<Rightarrow> bool" where
  "distinct_ids ps = (list_all (\<lambda>p. list_all (\<lambda>q. to_string (playerId q) \<noteq> uniqueNetId p) ps \<and> controllerPtr p \<noteq> 0) ps \<and>
     distinct (map uniqueNetId (filter (\<lambda>p. uniqueNetId p \<noteq> []) ps)))"

lemma distinct_filter_eq:
  "distinct (map f xs) \<Longrightarrow> x \<in> set xs \<Longrightarrow> filter (\<lambda>y. f y = f x) xs = [x]"
  by (induction xs) (auto simp: filter_empty_conv image_iff)

lemma find_target_netId:
  assumes "distinct_ids ps" "p \<in> set ps" "uniqueNetId p \<noteq> []"
  shows "find_target (uniqueNetId p) ps = Inr (target_of p)"
proof -
  have "find (\<lambda>q. to_string (playerId q) = uniqueNetId p) ps = None"
    using assms(1,2) by (auto simp: distinct_ids_def list_all_iff find_None_iff)
  then have "match_id (uniqueNetId p) ps = (0, [], [])" by (simp add: match_id_def)
  moreover have "filter (\<lambda>q. uniqueNetId q \<noteq> [] \<and> uniqueNetId q = uniqueNetId p) ps = [p]"
    using distinct_filter_eq [of uniqueNetId "filter (\<lambda>p. uniqueNetId p \<noteq> []) ps" p] assms
    by (simp add: distinct_ids_def conj_commute)
  moreover have "controllerPtr p \<noteq> 0" using assms(1,2) by (auto simp: distinct_ids_def list_all_iff)
  ultimately show ?thesis by (simp add: find_target_def kick_fields_def target_of_def)
qed

text \<open>A game that carries out kicks.\<close>

definition kick_able :: "Game \<Rightarrow> bool" where
  "kick_able g = (initialized g \<and> kick_function g \<and> kick_library g \<and> kick_native g \<and> pump_ready g \<and>
     pump_runs g \<and> text_ok g \<and> kick_invoked g)"

lemma KickPlayer_able:
  assumes "kick_able (game w)" "find_target identifier (GetAllPlayers (game w)) = Inr (c, n, i)"
  shows "KickPlayer identifier reason w =
    (if kick_result (game w) c reason then (None, RememberKick i n reason (call (Kick c reason) w))
     else (Some (''the game refused the kick for '' @ [APOS] @ n @ [APOS]), call (Kick c reason) w))"
  using assms by (simp add: KickPlayer_def kick_able_def Let_def)

lemma RememberKick_simps [simp]:
  "calls (RememberKick i n r w) = calls w" "game (RememberKick i n r w) = game w" "g_Bans (RememberKick i n r w) = g_Bans w"
  "calls (call c w) = calls w @ [c]" "game (call c w) = game w" "g_Bans (call c w) = g_Bans w"
  "g_Kicked (call c w) = g_Kicked w" "bans_file (RememberKick i n r w) = bans_file w" "bans_file (call c w) = bans_file w"
  by (simp_all add: RememberKick_def call_def)

text \<open>What holds of the state as it is, with the call made, and with the player remembered too, holds after a kick.\<close>

lemma KickPlayer_ind:
  assumes "P w" "\<And>c. P (call (Kick c r) w)" "\<And>c m n. P (RememberKick n m r (call (Kick c r) w))"
  shows "P (snd (KickPlayer i r w))"
proof -
  have b: "P (snd x) \<Longrightarrow> P (snd y) \<Longrightarrow> P (snd (if c then x else y))" for c x y by simp
  show ?thesis
  proof (cases "find_target i (GetAllPlayers (game w))")
    case (Inl e)
    then show ?thesis unfolding KickPlayer_def Let_def by (simp only: sum.case) (intro b; simp only: snd_conv assms)
  next
    case (Inr t)
    then show ?thesis unfolding KickPlayer_def Let_def
      by (cases t) (simp only: sum.case prod.case; intro b; simp only: snd_conv assms)
  qed
qed

lemma KickPlayer_frame:
  "game (snd (KickPlayer i r w)) = game w" "g_Bans (snd (KickPlayer i r w)) = g_Bans w"
  "bans_file (snd (KickPlayer i r w)) = bans_file w"
  by (rule KickPlayer_ind; simp)+

section \<open>Enforcement\<close>

text \<open>
  Both lists are enforced the same way: every connected player with a net id that is listed
  is kicked with the listed reason. The contract asks of a list only that looking up a net
  id is not disturbed by the kicks made so far.
\<close>

definition listed_kicks :: "(string \<Rightarrow> string option) \<Rightarrow> PlayerInfo list \<Rightarrow> game_call list" where
  "listed_kicks look ps = List.map_filter (\<lambda>p. if uniqueNetId p = [] then None
     else map_option (\<lambda>r. Kick (controllerPtr p) r) (look (uniqueNetId p))) ps"

locale enforcement =
  fixes lookup :: "World \<Rightarrow> string \<Rightarrow> string option"
    and step :: "World \<Rightarrow> PlayerInfo \<Rightarrow> World"
  assumes step_eq: "step w p = (if uniqueNetId p = [] then w else case lookup w (uniqueNetId p) of
      None \<Rightarrow> w | Some r \<Rightarrow> snd (KickPlayer (uniqueNetId p) r w))"
    and lookup_call: "lookup (call c w) j = lookup w j"
    and lookup_remember: "lookup w i = Some r \<Longrightarrow> lookup (RememberKick i n r w) j = lookup w j"
begin

lemma step_exact:
  assumes "kick_able (game w)" "distinct_ids (GetAllPlayers (game w))" "p \<in> set (GetAllPlayers (game w))"
  shows "game (step w p) = game w" "lookup (step w p) = lookup w"
    "calls (step w p) = calls w @ listed_kicks (lookup w) [p]"
proof -
  show "game (step w p) = game w" by (simp add: step_eq KickPlayer_frame split: option.splits)
  have "lookup (step w p) = lookup w \<and> calls (step w p) = calls w @ listed_kicks (lookup w) [p]"
  proof (cases "uniqueNetId p = [] \<or> lookup w (uniqueNetId p) = None")
    case True
    then show ?thesis by (auto simp: step_eq listed_kicks_def List.map_filter_def)
  next
    case False
    then obtain r where r: "uniqueNetId p \<noteq> []" "lookup w (uniqueNetId p) = Some r" by auto
    have "find_target (uniqueNetId p) (GetAllPlayers (game w)) = Inr (controllerPtr p, pl_name p, uniqueNetId p)"
      using find_target_netId [OF assms(2,3) r(1)] by (simp add: target_of_def)
    note KickPlayer_able [OF assms(1) this, of r]
    then show ?thesis using r
      by (auto simp: step_eq lookup_call lookup_remember listed_kicks_def List.map_filter_def fun_eq_iff)
  qed
  then show "lookup (step w p) = lookup w" "calls (step w p) = calls w @ listed_kicks (lookup w) [p]" by auto
qed

lemma fold_exact:
  "kick_able (game w) \<Longrightarrow> distinct_ids (GetAllPlayers (game w)) \<Longrightarrow> set ps \<subseteq> set (GetAllPlayers (game w)) \<Longrightarrow>
     calls (foldl step w ps) = calls w @ listed_kicks (lookup w) ps"
proof (induction ps arbitrary: w)
  case (Cons p ps)
  note s = step_exact [OF Cons.prems(1,2), of p]
  have "calls (foldl step (step w p) ps) = calls (step w p) @ listed_kicks (lookup (step w p)) ps"
    using Cons.prems s by (intro Cons.IH) simp_all
  then show ?case using s Cons.prems by (simp add: listed_kicks_def List.map_filter_def)
qed (simp add: listed_kicks_def List.map_filter_def)

end

definition kick_reason :: "World \<Rightarrow> string \<Rightarrow> string option" where
  "kick_reason w netId = map_option kp_reason (find (\<lambda>e. kp_netId e = netId) (g_Kicked w))"

definition ban_reason_for :: "BanEntry list \<Rightarrow> string \<Rightarrow> string option" where
  "ban_reason_for bans netId = map_option ban_reason (find (\<lambda>b. ban_netId b = netId) bans)"

lemma find_ex: "find P xs = Some x \<Longrightarrow> list_ex P xs"
  by (auto simp: find_Some_iff list_ex_iff)

interpretation kl: enforcement kick_reason enforce_kick
proof unfold_locales
  fix w :: World and p i j n r c
  show "enforce_kick w p = (if uniqueNetId p = [] then w else case kick_reason w (uniqueNetId p) of
      None \<Rightarrow> w | Some r \<Rightarrow> snd (KickPlayer (uniqueNetId p) r w))"
    by (simp add: enforce_kick_def kick_reason_def split: option.splits)
  show "kick_reason (call c w) j = kick_reason w j" by (simp add: kick_reason_def)
  show "kick_reason w i = Some r \<Longrightarrow> kick_reason (RememberKick i n r w) j = kick_reason w j"
    by (auto simp: kick_reason_def RememberKick_def dest: find_ex)
qed

interpretation bl: enforcement "\<lambda>w. ban_reason_for bans" "enforce_ban bans" for bans
  by unfold_locales (simp_all add: enforce_ban_def ban_reason_for_def split: option.splits)


section \<open>The ban list\<close>

definition bans_ok :: "World \<Rightarrow> bool" where
  "bans_ok w = (distinct (map ban_netId (g_Bans w)) \<and> [] \<notin> set (map ban_netId (g_Bans w)))"

lemma SaveLocked_simps [simp]:
  "g_Bans (SaveLocked w) = g_Bans w" "game (SaveLocked w) = game w" "g_Kicked (SaveLocked w) = g_Kicked w"
  by (simp_all add: SaveLocked_def)

definition ban_entry :: "string \<Rightarrow> string \<Rightarrow> string \<Rightarrow> string \<Rightarrow> BanEntry" where
  "ban_entry now netId name reason = \<lparr>ban_netId = netId, ban_name = name, ban_reason = reason, ban_bannedAt = now\<rparr>"

lemma add_ban_cases:
  assumes "add_ban now netId name reason w = (ok, msg, w')"
  shows "ok \<longleftrightarrow> netId \<notin> set (map ban_netId (g_Bans w))" "\<not> ok \<Longrightarrow> w' = w"
    "ok \<Longrightarrow> g_Bans w' = g_Bans w @ [ban_entry now netId name reason] \<and> game w' = game w \<and>
       bans_file w' = (if bans_writable (game w) then Some (bans_text (g_Bans w')) else bans_file w)"
proof -
  let ?w1 = "SaveLocked (w\<lparr>g_Bans := g_Bans w @ [ban_entry now netId name reason]\<rparr>)"
  have ex: "list_ex (\<lambda>b. ban_netId b = netId) (g_Bans w) \<longleftrightarrow> netId \<in> set (map ban_netId (g_Bans w))"
    by (auto simp: list_ex_iff)
  show "ok \<longleftrightarrow> netId \<notin> set (map ban_netId (g_Bans w))"
    using assms ex by (auto simp: add_ban_def Let_def split: if_splits prod.splits)
  show "\<not> ok \<Longrightarrow> w' = w" using assms by (auto simp: add_ban_def Let_def split: if_splits prod.splits)
  assume ok
  then have "w' = snd (KickPlayer netId reason ?w1)"
    using assms by (auto simp: add_ban_def Let_def ban_entry_def split: if_splits prod.splits)
  then show "g_Bans w' = g_Bans w @ [ban_entry now netId name reason] \<and> game w' = game w \<and>
      bans_file w' = (if bans_writable (game w) then Some (bans_text (g_Bans w')) else bans_file w)"
    by (simp add: KickPlayer_frame) (simp add: SaveLocked_def)
qed

lemma Ban_cases:
  assumes "Ban now player reason w = (ok, msg, w')"
  shows "\<not> ok \<and> w' = w \<or> (\<exists>netId name. netId \<noteq> [] \<and> add_ban now netId name reason w = (ok, msg, w') \<and>
    ((\<exists>p \<in> set (GetAllPlayers (game w)). names_player player p \<and> uniqueNetId p = netId) \<or>
     looksLikeSteamId player \<and> netId = player))"
proof -
  have L: "looksLikeSteamId player \<Longrightarrow> player \<noteq> []" by (auto simp: looksLikeSteamId_def)
  show ?thesis
  proof (cases "find (names_player player) (GetAllPlayers (game w))")
    case None
    with assms L show ?thesis by (auto simp: Ban_def split: if_splits)
  next
    case (Some p)
    then have p: "p \<in> set (GetAllPlayers (game w))" "names_player player p" by (auto simp: find_Some_iff)
    show ?thesis
    proof (cases "uniqueNetId p = []")
      case True
      with assms L Some show ?thesis by (auto simp: Ban_def split: if_splits)
    next
      case False
      with assms Some p show ?thesis by (auto simp: Ban_def split: if_splits)
    qed
  qed
qed

lemma bans_ok_Ban: "bans_ok w \<Longrightarrow> Ban now player reason w = (ok, msg, w') \<Longrightarrow> bans_ok w'"
  using Ban_cases [of now player reason w ok msg w'] add_ban_cases [of now _ _ reason w ok msg w']
  by (cases ok) (fastforce simp: bans_ok_def ban_entry_def)+

lemma remove_first_split:
  "find P xs = Some x \<Longrightarrow> \<exists>a b. xs = a @ x # b \<and> remove_first P xs = a @ b"
  by (induction xs) (auto split: if_splits, metis append_Cons)

lemma Unban_cases:
  assumes "Unban identifier w = (ok, msg, w')"
  shows "\<not> ok \<and> w' = w \<or> ok \<and> (\<exists>a b d. g_Bans w = a @ b # d \<and> g_Bans w' = a @ d \<and>
    (Lower (ban_netId b) = Lower identifier \<or> Lower (ban_name b) = Lower identifier) \<and>
    g_Kicked w' = g_Kicked w \<and> game w' = game w \<and>
    bans_file w' = (if bans_writable (game w) then Some (bans_text (a @ d)) else bans_file w))"
proof -
  let ?P = "\<lambda>b. Lower (ban_netId b) = Lower identifier \<or> Lower (ban_name b) = Lower identifier"
  show ?thesis
  proof (cases "find ?P (g_Bans w)")
    case None
    with assms show ?thesis by (auto simp: Unban_def Let_def)
  next
    case (Some b)
    from remove_first_split [OF Some] obtain a d where ad: "g_Bans w = a @ b # d" "remove_first ?P (g_Bans w) = a @ d" by blast
    have P: "?P b" using Some by (auto simp: find_Some_iff)
    from assms Some have "ok" "w' = SaveLocked (w\<lparr>g_Bans := remove_first ?P (g_Bans w)\<rparr>)"
      by (auto simp: Unban_def Let_def)
    with ad P show ?thesis by (auto simp: SaveLocked_def)
  qed
qed

lemma bans_ok_Unban: "bans_ok w \<Longrightarrow> Unban identifier w = (ok, msg, w') \<Longrightarrow> bans_ok w'"
  using Unban_cases [of "identifier" w ok msg w'] by (auto simp: bans_ok_def)

section \<open>Properties\<close>

text \<open>
  C12: The ban file round trip: loading what was saved gives the same bans in the same order,
  for entries whose texts have no control characters, no closing brace and nothing that
  looks like one of the keys to the textual search.
\<close>
theorem bans_roundtrip:
  assumes "list_all wf_ban (g_Bans w)" "bans_writable (game w)"
  shows "g_Bans (Bans_Load (SaveLocked w)) = g_Bans w"
  using load_bans_text [OF assms(1)] assms(2) by (simp add: Bans_Load_def SaveLocked_def)

definition demo_server :: ServerInfo where
  "demo_server = \<lparr>ownerId = [], serverName = ''S'', worldName = ''W'', serverGuid = [], isDedicatedServer = True,
     crossplayEnabled = False, hardcoreState = -1, srv_valid = True\<rparr>"

definition demo_discovery :: DiscoveryInfo where
  "demo_discovery = \<lparr>moduleBase = 0, moduleEnd = 0, gObjects = 0, gNames = 0, disc_world = 0, gObjectsSource = [],
     gNamesSource = [], worldSource = [], objectCount = 0\<rparr>"

definition demo_game :: Game where
  "demo_game = \<lparr>initialized = True,
     GetAllPlayers = [new_PlayerInfo\<lparr>pl_name := ''Ann'', playerId := 256, uniqueNetId := ''76561190000000001'', controllerPtr := 16, playerStatePtr := 8\<rparr>,
                      new_PlayerInfo\<lparr>pl_name := ''Bob'', playerId := 257, uniqueNetId := ''76561190000000002'', controllerPtr := 32, playerStatePtr := 24\<rparr>],
     item_objects = [], kick_function = True, kick_library = True, kick_native = True, pump_ready = True,
     pump_status = [], pump_runs = True, text_ok = True, kick_invoked = True, kick_result = (\<lambda>_ _. True),
     give_function = True, give_native = True, give_invoked = True, give_result = (\<lambda>_ _ _. True),
     receive_function = True, has_process_event = True, frame_layout_ready = True, chat_component = (\<lambda>_. True),
     admin_function = True, admin_library = True, admin_native = True, admin_answer = (\<lambda>c. Some (c = 16)),
     bans_writable = True, clock_text = ''now'', clock = 0,
     server_info = demo_server, discovery_info = demo_discovery, runtime = new_Runtime 0\<rparr>"

definition demo_world :: World where
  "demo_world = \<lparr>game = demo_game, g_Kicked = [], g_Bans = [], bans_file = None, calls = []\<rparr>"

lemmas demo_simps = demo_game_def demo_world_def new_PlayerInfo_def

theorem bans_roundtrip_witness:
  "g_Bans (Bans_Load (SaveLocked (demo_world\<lparr>g_Bans := [ban_entry ''2025-01-01T00:00:00Z'' ''76561190000000001'' ''A, {'' ([QUOTE] @ ''x'')]\<rparr>))) =
     [ban_entry ''2025-01-01T00:00:00Z'' ''76561190000000001'' ''A, {'' ([QUOTE] @ ''x'')]"
  using bans_roundtrip [of "demo_world\<lparr>g_Bans := [ban_entry ''2025-01-01T00:00:00Z'' ''76561190000000001'' ''A, {'' ([QUOTE] @ ''x'')]\<rparr>"]
  by (simp add: wf_ban_def plain_text_def ban_entry_def printable_def hides_key_def ends_with_def Escape_char.simps
      demo_world_def demo_game_def)

lemma Ban_outcome:
  assumes "Ban now player reason w = (ok, msg, w')"
  shows "if ok then \<exists>netId name. IsBanned netId w' \<and> \<not> IsBanned netId w \<and>
      g_Bans w' = g_Bans w @ [ban_entry now netId name reason] \<and>
      (bans_writable (game w) \<longrightarrow> bans_file w' = Some (bans_text (g_Bans w'))) \<and>
      ((\<exists>p \<in> set (GetAllPlayers (game w)). names_player player p \<and> uniqueNetId p = netId) \<or>
       looksLikeSteamId player \<and> netId = player)
    else w' = w"
proof (cases ok)
  case False
  with Ban_cases [OF assms] add_ban_cases(2) show ?thesis by auto
next
  case True
  with Ban_cases [OF assms] obtain netId name where n: "netId \<noteq> []" "add_ban now netId name reason w = (ok, msg, w')"
    "(\<exists>p \<in> set (GetAllPlayers (game w)). names_player player p \<and> uniqueNetId p = netId) \<or>
       looksLikeSteamId player \<and> netId = player" by blast
  from add_ban_cases [OF n(2)] True have a: "netId \<notin> set (map ban_netId (g_Bans w))"
    "g_Bans w' = g_Bans w @ [ban_entry now netId name reason]"
    "bans_writable (game w) \<longrightarrow> bans_file w' = Some (bans_text (g_Bans w'))" by auto
  then have "IsBanned netId w'" "\<not> IsBanned netId w" using n(1) by (auto simp: IsBanned_def ban_entry_def list_ex_iff)
  with a(2,3) n(3) True show ?thesis by auto
qed


lemma demo_ban:
  "Ban ''now'' ''ann'' ''grief'' demo_world = (True, ''banned Ann (grief)'',
     demo_world\<lparr>g_Bans := [ban_entry ''now'' ''76561190000000001'' ''Ann'' ''grief''],
       bans_file := Some (bans_text [ban_entry ''now'' ''76561190000000001'' ''Ann'' ''grief'']),
       calls := [Kick 16 ''grief''],
       g_Kicked := [\<lparr>kp_netId = ''76561190000000001'', kp_name = ''Ann'', kp_reason = ''grief''\<rparr>]\<rparr>)"
proof -
  have i: "to_string 256 = ''256''" "to_string 257 = ''257''" by code_simp+
  have l: "Lower ''Ann'' = ''ann''" "Lower ''ann'' = ''ann''" "Lower ''76561190000000001'' = ''76561190000000001''"
    by code_simp+
  have t: "find_target ''76561190000000001'' (GetAllPlayers demo_game) = Inr (16, ''Ann'', ''76561190000000001'')"
    by (simp add: find_target_def match_id_def kick_fields_def target_of_def demo_game_def new_PlayerInfo_def i)
  have a: "kick_able demo_game" by (simp add: kick_able_def demo_game_def)
  let ?w1 = "SaveLocked (demo_world\<lparr>g_Bans := [ban_entry ''now'' ''76561190000000001'' ''Ann'' ''grief'']\<rparr>)"
  have g: "game demo_world = demo_game" "kick_result demo_game 16 ''grief''" by (simp_all add: demo_world_def demo_game_def)
  have k: "KickPlayer ''76561190000000001'' ''grief'' ?w1 = (None, RememberKick ''76561190000000001'' ''Ann'' ''grief'' (call (Kick 16 ''grief'') ?w1))"
    using KickPlayer_able [of ?w1 "''76561190000000001''" 16 "''Ann''" "''76561190000000001''" "''grief''"] t a
    by (simp add: g)
  have s: "initialized demo_game" "bans_writable demo_game" "g_Bans demo_world = []" "g_Kicked demo_world = []" "calls demo_world = []"
    by (simp_all add: demo_world_def demo_game_def)
  have n: "find (names_player ''ann'') (GetAllPlayers demo_game) = Some (hd (GetAllPlayers demo_game))"
    by (simp add: names_player_def demo_game_def new_PlayerInfo_def i l)
  have h: "uniqueNetId (hd (GetAllPlayers demo_game)) = ''76561190000000001''" "pl_name (hd (GetAllPlayers demo_game)) = ''Ann''"
    by (simp_all add: demo_game_def new_PlayerInfo_def)
  have b: "add_ban ''now'' ''76561190000000001'' ''Ann'' ''grief'' demo_world =
      (True, ''banned Ann (grief)'', RememberKick ''76561190000000001'' ''Ann'' ''grief'' (call (Kick 16 ''grief'') ?w1))"
    using k by (simp add: add_ban_def ban_entry_def or_else_def s)
  show ?thesis
    by (simp add: Ban_def n h b g s) (simp add: RememberKick_def call_def SaveLocked_def g s)
qed




text \<open>
  C32: An ambiguous name kicks nobody: when two connected players carry the identifier as
  their name and it is no player's id, net id, character id or character name, the kick is
  refused and nothing changes.
\<close>
theorem kick_ambiguous_refused:
  assumes "initialized (game w)" "identifier \<noteq> []"
    "length (filter (\<lambda>p. pl_name p = identifier) (GetAllPlayers (game w))) > 1"
    "list_all (\<lambda>p. to_string (playerId p) \<noteq> identifier \<and> uniqueNetId p \<noteq> identifier \<and>
       characterGuid p \<noteq> identifier \<and> characterName p \<noteq> identifier) (GetAllPlayers (game w))"
  shows "\<exists>e. KickPlayer identifier reason w = (Some e, w)"
proof -
  let ?ps = "GetAllPlayers (game w)"
  have none: "filter (\<lambda>p. f p \<noteq> [] \<and> f p = identifier) ?ps = []" if "f \<in> {uniqueNetId, characterGuid, characterName}" for f
    using that assms(4) by (auto simp: filter_empty_conv list_all_iff)
  have "find (\<lambda>p. to_string (playerId p) = identifier) ?ps = None"
    using assms(4) by (auto simp: find_None_iff list_all_iff)
  then have "match_id identifier ?ps = (0, [], [])" by (simp add: match_id_def)
  moreover have "filter (\<lambda>p. pl_name p \<noteq> [] \<and> pl_name p = identifier) ?ps = filter (\<lambda>p. pl_name p = identifier) ?ps"
    using assms(2) by (intro filter_cong) auto
  ultimately obtain e where "find_target identifier ?ps = Inl e"
    using assms(3) none [of uniqueNetId] none [of characterGuid] none [of characterName]
    by (simp add: find_target_def kick_fields_def Let_def)
  then show ?thesis using assms(1) by (simp add: KickPlayer_def Let_def)
qed

theorem kick_ambiguous_refused_witness:
  "\<exists>e. KickPlayer ''Ann'' ''x'' (demo_world\<lparr>game := demo_game\<lparr>GetAllPlayers :=
     [new_PlayerInfo\<lparr>pl_name := ''Ann'', controllerPtr := 16, playerStatePtr := 8\<rparr>, new_PlayerInfo\<lparr>pl_name := ''Ann'', controllerPtr := 32, playerStatePtr := 24\<rparr>]\<rparr>\<rparr>) =
   (Some e, demo_world\<lparr>game := demo_game\<lparr>GetAllPlayers :=
     [new_PlayerInfo\<lparr>pl_name := ''Ann'', controllerPtr := 16, playerStatePtr := 8\<rparr>, new_PlayerInfo\<lparr>pl_name := ''Ann'', controllerPtr := 32, playerStatePtr := 24\<rparr>]\<rparr>\<rparr>)"
proof -
  have "to_string 0 = ''0''" by code_simp
  then show ?thesis
    by (intro kick_ambiguous_refused) (simp_all add: demo_game_def new_PlayerInfo_def)
qed

text \<open>
  Kicks are enforced exactly: with a game that carries out kicks and players that can be
  told apart, one pass makes one kick per connected player on the kick list, with the
  listed reason and in the order of the player list, and no other call.
\<close>
lemma enforce_kicks_exact:
  assumes "kick_able (game w)" "distinct_ids (GetAllPlayers (game w))"
  shows "calls (EnforceKicks w) = calls w @ listed_kicks (kick_reason w) (GetAllPlayers (game w))"
proof -
  have "listed_kicks (kick_reason w) ps = []" if "g_Kicked w = []" for ps
    using that by (induction ps) (simp_all add: listed_kicks_def kick_reason_def List.map_filter_def)
  then show ?thesis
    using kl.fold_exact [OF assms, of "GetAllPlayers (game w)"] assms(1)
    by (simp add: EnforceKicks_def kick_able_def KickedNetIds_def)
qed

lemma demo_listed: "listed_kicks look (GetAllPlayers demo_game) =
    (case look ''76561190000000001'' of None \<Rightarrow> [] | Some r \<Rightarrow> [Kick 16 r]) @
    (case look ''76561190000000002'' of None \<Rightarrow> [] | Some r \<Rightarrow> [Kick 32 r])"
  by (auto simp: listed_kicks_def List.map_filter_def demo_game_def new_PlayerInfo_def split: option.splits)

lemma demo_distinct: "distinct_ids (GetAllPlayers demo_game)" "kick_able demo_game"
proof -
  have "to_string 256 = ''256''" "to_string 257 = ''257''" by code_simp+
  then show "distinct_ids (GetAllPlayers demo_game)" by (simp add: distinct_ids_def demo_game_def new_PlayerInfo_def)
  show "kick_able demo_game" by (simp add: kick_able_def demo_game_def)
qed

lemma enforce_kicks_exact_witness:
  "calls (EnforceKicks (demo_world\<lparr>g_Kicked := [\<lparr>kp_netId = ''76561190000000002'', kp_name = ''Bob'', kp_reason = ''spam''\<rparr>]\<rparr>)) =
     [Kick 32 ''spam'']"
proof -
  let ?w = "demo_world\<lparr>g_Kicked := [\<lparr>kp_netId = ''76561190000000002'', kp_name = ''Bob'', kp_reason = ''spam''\<rparr>]\<rparr>"
  have g: "game demo_world = demo_game" "calls demo_world = []" by (simp_all add: demo_world_def)
  have "calls (EnforceKicks ?w) = calls ?w @ listed_kicks (kick_reason ?w) (GetAllPlayers (game ?w))"
    by (rule enforce_kicks_exact) (simp_all add: g demo_distinct)
  then show ?thesis
    by (simp add: g demo_listed kick_reason_def)
qed



text \<open>
  Lifting a ban does not let the player back in: banning a connected player also puts
  the net id on the kick list, and \<^verbatim>\<open>Unban\<close> leaves it there, so the next enforcement pass
  removes the player again although no ban is left.
\<close>
lemma unban_still_kicked:
  "(let w1 = snd (snd (Ban ''now'' ''ann'' ''grief'' demo_world)); (ok, msg, w2) = Unban ''Ann'' w1
    in ok \<and> g_Bans w2 = [] \<and> calls (EnforceKicks w2) = calls w2 @ [Kick 16 ''grief''])"
proof -
  let ?w2 = "demo_world\<lparr>g_Bans := [], bans_file := Some (bans_text []), calls := [Kick 16 ''grief''],
      g_Kicked := [\<lparr>kp_netId = ''76561190000000001'', kp_name = ''Ann'', kp_reason = ''grief''\<rparr>]\<rparr>"
  have g: "game demo_world = demo_game" "bans_writable demo_game" by (simp_all add: demo_world_def demo_game_def)
  have "calls (EnforceKicks ?w2) = calls ?w2 @ listed_kicks (kick_reason ?w2) (GetAllPlayers (game ?w2))"
    using kl.fold_exact [of ?w2 "GetAllPlayers (game ?w2)"] demo_distinct
    by (simp add: EnforceKicks_def kick_able_def KickedNetIds_def g)
  then have e: "calls (EnforceKicks ?w2) = calls ?w2 @ [Kick 16 ''grief'']"
    by (simp add: g demo_listed kick_reason_def)
  have "snd (snd (Unban ''Ann'' (snd (snd (Ban ''now'' ''ann'' ''grief'' demo_world))))) = ?w2"
    "fst (Unban ''Ann'' (snd (snd (Ban ''now'' ''ann'' ''grief'' demo_world))))"
    by (simp_all add: demo_ban Unban_def SaveLocked_def ban_entry_def g)
  with e show ?thesis by (simp add: split_beta Let_def)
qed

text \<open>
  The search for the end of an entry does not look at quotes: a closing brace in a player's
  name cuts the entry short, and its reason and date are lost on the next load.
\<close>
lemma ban_brace_truncates:
  "load_from (bans_text [ban_entry ''now'' ''765'' ''}'' ''grief'']) 0 =
     [ban_entry [] ''765'' ''}'' []]"
  by code_simp
end
