(* ===== verification/Items.thy ===== *)
theory Items
  imports Moderation "HOL-Library.Char_ord" "HOL-Library.List_Lexorder"
begin

text \<open>
  Giving items (\<^verbatim>\<open>src/src/engine/items.cpp\<close>): the list of loaded items, the search for an
  item by name, and the call into the game. Strings are ordered as \<^verbatim>\<open>std::string\<close> orders
  them, byte by byte. \<^verbatim>\<open>std::sort\<close> leaves the order of items with equal names open; the
  model keeps the order of the object array.
\<close>

definition ListLoaded :: "Game \<Rightarrow> ItemInfo list" where
  "ListLoaded g =
     (if \<not> initialized g then []
      else sort_key item_name
             (filter (\<lambda>i. \<not> (item_name i = [] \<or> starts_with ''Default__'' (item_name i))) (item_objects g)))"

text \<open>
  The loop of \<^verbatim>\<open>FindItem\<close>: the number of partial matches so far and the last of them. The
  result is \<^term>\<open>None\<close> when the function returns 0.
\<close>

fun find_item_from :: "string \<Rightarrow> string \<Rightarrow> ItemInfo list \<Rightarrow> nat \<Rightarrow> ItemInfo option \<Rightarrow> ItemInfo option" where
  "find_item_from wanted prefixed [] hits part = (if hits = 1 then part else None)"
| "find_item_from wanted prefixed (i # is) hits part =
     (let lower = Lower (item_name i)
      in if lower = wanted \<or> lower = prefixed then Some i
         else if find_sub wanted lower \<noteq> None then find_item_from wanted prefixed is (hits + 1) (Some i)
         else find_item_from wanted prefixed is hits part)"

definition FindItem :: "string \<Rightarrow> Game \<Rightarrow> ItemInfo option" where
  "FindItem name g =
     (if name = [] then None
      else
        (let wanted = Lower name;
             prefixed = (if starts_with ''item_'' wanted then wanted else ''item_'' @ wanted)
         in find_item_from wanted prefixed (ListLoaded g) 0 None))"

text \<open>\<^verbatim>\<open>ResolveGive\<close>: the error, or \<^term>\<open>None\<close>.\<close>

definition ResolveGive :: "Game \<Rightarrow> string option" where
  "ResolveGive g =
     (if \<not> initialized g then Some ''engine not initialised''
      else if \<not> give_function g then Some ''TryGiveItemToPlayer not found''
      else if \<not> give_native g then Some ''TryGiveItemToPlayer is not native''
      else if \<not> pump_ready g then Some (''give needs the game thread pump: '' @ pump_status g)
      else None)"

definition GiveItemToController :: "u64 \<Rightarrow> u64 \<Rightarrow> int \<Rightarrow> World \<Rightarrow> bool \<times> World" where
  "GiveItemToController controller itemData count w =
     (let g = game w
      in if ResolveGive g \<noteq> None then (False, w)
         else if controller = 0 \<or> itemData = 0 \<or> count \<le> 0 then (False, w)
         else if \<not> pump_runs g \<or> \<not> give_invoked g then (False, w)
         else (give_result g controller itemData count, call (Give controller itemData count) w))"

definition GiveItem :: "string \<Rightarrow> string \<Rightarrow> int \<Rightarrow> World \<Rightarrow> bool \<times> string \<times> World" where
  "GiveItem player item count w =
     (case ResolveGive (game w) of
        Some e \<Rightarrow> (False, e, w)
      | None \<Rightarrow>
          (if count \<le> 0 then (False, ''count must be at least 1'', w)
           else case FindItem item (game w) of
             None \<Rightarrow> (False, ''no loaded item matches '' @ [APOS] @ item @ [APOS], w)
           | Some i \<Rightarrow>
               (if item_object i = 0 then (False, ''no loaded item matches '' @ [APOS] @ item @ [APOS], w)
                else
                  (let (controller, matched) =
                     (case find (names_player player) (GetAllPlayers (game w)) of
                        None \<Rightarrow> (0, []) | Some p \<Rightarrow> (controllerPtr p, pl_name p))
                   in if controller = 0 then (False, ''no connected player matches '' @ [APOS] @ player @ [APOS], w)
                      else
                        (let (ok, w') = GiveItemToController controller (item_object i) count w;
                             what = to_string count @ '' x '' @ item_name i @ '' to '' @ matched
                         in if \<not> ok then (False, ''the game refused to give '' @ what, w')
                            else (True, ''gave '' @ what, w'))))))"


section \<open>The search\<close>

text \<open>The reference: the first exact match, else the only partial match.\<close>

definition exact_item :: "string \<Rightarrow> ItemInfo \<Rightarrow> bool" where
  "exact_item name i = (Lower (item_name i) = Lower name \<or> Lower (item_name i) = ''item_'' @ Lower name)"

definition partial_item :: "string \<Rightarrow> ItemInfo \<Rightarrow> bool" where
  "partial_item name i = (find_sub (Lower name) (Lower (item_name i)) \<noteq> None)"

lemma find_item_from_spec:
  "find_item_from wanted prefixed xs hits part =
     (case find (\<lambda>i. Lower (item_name i) = wanted \<or> Lower (item_name i) = prefixed) xs of
        Some i \<Rightarrow> Some i
      | None \<Rightarrow> (let ps = filter (\<lambda>i. find_sub wanted (Lower (item_name i)) \<noteq> None) xs
                in if hits + length ps = 1 then (if ps = [] then part else Some (last ps)) else None))"
  by (induction xs arbitrary: hits part) (auto simp: Let_def split: option.splits)

lemma ListLoaded_mem: "i \<in> set (ListLoaded g) \<Longrightarrow> i \<in> set (item_objects g)"
  by (auto simp: ListLoaded_def split: if_splits)


section \<open>Properties\<close>

text \<open>
  An item name is resolved without guessing: for a name that does not itself start with
  \<^verbatim>\<open>item_\<close>, the result is the first loaded item with that name (or that name after
  \<^verbatim>\<open>item_\<close>), ignoring case; failing that the only item whose name contains it; and
  nothing when several do.
\<close>
lemma find_item_spec:
  assumes "name \<noteq> []" "\<not> starts_with ''item_'' (Lower name)"
  shows "FindItem name g =
    (case find (exact_item name) (ListLoaded g) of
       Some i \<Rightarrow> Some i
     | None \<Rightarrow> (case filter (partial_item name) (ListLoaded g) of [i] \<Rightarrow> Some i | _ \<Rightarrow> None))"
  using assms by (auto simp: FindItem_def find_item_from_spec exact_item_def [abs_def] partial_item_def [abs_def] Let_def
      split: option.splits list.splits)

definition demo_items :: "ItemInfo list" where
  "demo_items = [\<lparr>item_name = ''ITEM_Sword'', item_object = 64, maxStackSize = 1\<rparr>,
     \<lparr>item_name = ''ITEM_Swordfish'', item_object = 72, maxStackSize = 9\<rparr>]"

lemma find_item_spec_witness:
  "FindItem ''sword'' (demo_game\<lparr>item_objects := demo_items\<rparr>) = Some (hd demo_items) \<and>
   FindItem ''swo'' (demo_game\<lparr>item_objects := demo_items\<rparr>) = None"
proof -
  let ?g = "demo_game\<lparr>item_objects := demo_items\<rparr>"
  have L: "Lower ''ITEM_Sword'' = ''item_sword''" "Lower ''ITEM_Swordfish'' = ''item_swordfish''"
    "Lower ''sword'' = ''sword''" "Lower ''swo'' = ''swo''" by code_simp+
  have "ListLoaded ?g = demo_items"
    by (simp add: ListLoaded_def demo_items_def demo_game_def starts_with_def)
  then show ?thesis
    using find_item_spec [of "''sword''" ?g] find_item_spec [of "''swo''" ?g]
    by (simp add: L demo_items_def exact_item_def partial_item_def)
qed

text \<open>
  A gift goes where it was sent: when \<^verbatim>\<open>GiveItem\<close> succeeds it has made exactly one call,
  for the controller of the first connected player the identifier names, with the item the
  search found and the positive count asked for; when it fails it has made none, or the one
  the game refused. Kick and ban lists are untouched.
\<close>
lemma give_exact:
  "case GiveItem player item count w of (ok, msg, w') \<Rightarrow>
     g_Kicked w' = g_Kicked w \<and> g_Bans w' = g_Bans w \<and>
     (calls w' = calls w \<and> \<not> ok \<or>
      (\<exists>p i. find (names_player player) (GetAllPlayers (game w)) = Some p \<and> FindItem item (game w) = Some i \<and>
         0 < count \<and> controllerPtr p \<noteq> 0 \<and> calls w' = calls w @ [Give (controllerPtr p) (item_object i) count] \<and>
         ok = give_result (game w) (controllerPtr p) (item_object i) count))"
  by (auto simp: GiveItem_def GiveItemToController_def Let_def call_def split: option.splits prod.splits)

end
