(* ===== verification/Serialize.thy ===== *)
theory Serialize
  imports Engine_Types Json
begin

text \<open>
  The serialisers of \<^verbatim>\<open>src/src/api/serialize.cpp\<close>: players, server and discovery data as
  JSON text, and the table of the \<^verbatim>\<open>players\<close> command. The text is built from \<open>obj\<close> and
  \<open>arr\<close>, which print an object or array without white space, the form all the stream
  expressions of the source have. The result is that the text is JSON by the grammar of
  RFC 8259 (\<open>json_value\<close>) for finite numbers.
\<close>

section \<open>Text\<close>

fun commas :: "string list \<Rightarrow> string" where
  "commas [] = []"
| "commas [v] = v"
| "commas (v # w # vs) = v @ CHR '','' # commas (w # vs)"

definition obj :: "(string \<times> string) list \<Rightarrow> string" where
  "obj fs = CHR ''{'' # commas (map (\<lambda>(k, v). QUOTE # k @ [QUOTE, CHR '':''] @ v) fs) @ ''}''"

definition arr :: "string list \<Rightarrow> string" where
  "arr vs = CHR ''['' # commas vs @ '']''"

text \<open>The result of \<^verbatim>\<open>snprintf\<close> into a buffer of \<open>n\<close> bytes.\<close>

definition snprintf :: "nat \<Rightarrow> string \<Rightarrow> string" where
  "snprintf n s = take (n - 1) s"

text \<open>The conversion \<^verbatim>\<open>%.kf\<close>: the exact value rounded to \<open>k\<close> decimals, ties to even.\<close>

definition zeros :: "nat \<Rightarrow> string \<Rightarrow> string" where
  "zeros k s = replicate (k - length s) (CHR ''0'') @ s"

definition sign :: "bool \<Rightarrow> string" where
  "sign s = (if s then ''-'' else [])"

fun fixed :: "nat \<Rightarrow> fp \<Rightarrow> string" where
  "fixed k (Finite s q) =
     (let n = nat (round_even (q * 10 ^ k))
      in sign s @ show_nat (n div 10 ^ k) @ (if k = 0 then [] else ''.'' @ zeros k (show_nat (n mod 10 ^ k))))"
| "fixed k (Infinite s) = sign s @ ''inf''"
| "fixed k (Nan s) = sign s @ ''nan''"

fun show_hex :: "nat \<Rightarrow> string" where
  "show_hex n = (let d = n mod 16; c = (if d < 10 then char_of (48 + d) else char_of (55 + d))
                 in if n < 16 then [c] else show_hex (n div 16) @ [c])"

declare show_hex.simps [simp del]

definition Q :: "string \<Rightarrow> string" where
  "Q v = [QUOTE] @ Escape v @ [QUOTE]"

definition Num :: "fp \<Rightarrow> string" where
  "Num v = snprintf 64 (fixed 3 v)"

definition Serialize_Bool :: "bool \<Rightarrow> string" where
  "Serialize_Bool b = (if b then ''true'' else ''false'')"

definition Pad :: "string \<Rightarrow> nat \<Rightarrow> string" where
  "Pad v width = (let out = (if length v > width then take width v else v)
                  in out @ replicate (width - length out) (CHR '' ''))"

text \<open>A pointer inside quotes, as \<^verbatim>\<open>"0x%llX"\<close> prints it.\<close>

definition Ptr :: "u64 \<Rightarrow> string" where
  "Ptr p = [QUOTE] @ ''0x'' @ show_hex (unat p) @ [QUOTE]"


section \<open>Players\<close>

definition xyz :: "fp \<times> fp \<times> fp \<Rightarrow> string" where
  "xyz v = (case v of (x, y, z) \<Rightarrow> obj [(''x'', Num x), (''y'', Num y), (''z'', Num z)])"

definition Player_color :: "PlayerInfo \<Rightarrow> string" where
  "Player_color p = (case color p of (r, g, b, a) \<Rightarrow>
     obj [(''hex'', Q (colorHex p)), (''r'', Num r), (''g'', Num g), (''b'', Num b), (''a'', Num a)])"

definition Player_rotation :: "PlayerInfo \<Rightarrow> string" where
  "Player_rotation p = (case rotation p of (pitch, yaw, roll) \<Rightarrow>
     obj [(''pitch'', Num pitch), (''yaw'', Num yaw), (''roll'', Num roll)])"

definition Player_pointers :: "PlayerInfo \<Rightarrow> string" where
  "Player_pointers p = obj [(''playerState'', Ptr (playerStatePtr p)), (''pawn'', Ptr (pawnPtr p)),
     (''controller'', Ptr (controllerPtr p))]"

definition Player :: "PlayerInfo \<Rightarrow> string" where
  "Player p = obj
     [(''name'', Q (pl_name p)),
      (''characterName'', Q (characterName p)),
      (''playerId'', to_string (playerId p)),
      (''uniqueNetId'', Q (uniqueNetId p)),
      (''uniqueNetIdSource'', Q (uniqueNetIdSource p)),
      (''characterGuid'', Q (characterGuid p)),
      (''platform'', Q (platform p)),
      (''pingMs'', to_string (pingMs p)),
      (''score'', Num (score p)),
      (''startTime'', to_string (startTime p)),
      (''isSpectator'', Serialize_Bool (isSpectator p)),
      (''isBot'', Serialize_Bool (isBot p)),
      (''isInactive'', Serialize_Bool (isInactive p)),
      (''spawned'', Serialize_Bool (spawned p)),
      (''pawnClass'', Q (pawnClass p)),
      (''color'', Player_color p),
      (''location'', if hasLocation p then xyz (location p) else ''null''),
      (''rotation'', if hasLocation p then Player_rotation p else ''null''),
      (''velocity'', if hasVelocity p then xyz (velocity p) else ''null''),
      (''movementMode'', if hasVelocity p then show_nat (movementMode p) else ''null''),
      (''health'', if hasHealth p then obj [(''current'', Num (health p)), (''max'', Num (maxHealth p)),
         (''canDie'', Serialize_Bool (canDie p)), (''isDead'', Serialize_Bool (isDead p))] else ''null''),
      (''sustenance'', if hasSustenance p
         then obj [(''current'', Num (sustenance p)), (''max'', Num (maxSustenance p))] else ''null''),
      (''hydration'', if hasHydration p
         then obj [(''current'', Num (hydration p)), (''max'', Num (maxHydration p))] else ''null''),
      (''attributes'', arr (map (\<lambda>a. obj [(''name'', Q (attr_name a)), (''value'', Num (attr_value a)),
         (''baseValue'', Num (attr_baseValue a)), (''shared'', Serialize_Bool (attr_shared a))]) (attributes p))),
      (''skills'', arr (map (\<lambda>s. obj [(''skill'', Q (skill_name s)), (''currentXP'', to_string (currentXP s))]) (skills p))),
      (''pointers'', Player_pointers p)]"

definition Players :: "PlayerInfo list \<Rightarrow> string" where
  "Players ps = obj [(''count'', show_nat (length ps)), (''players'', arr (map Player ps))]"

definition Server :: "ServerInfo \<Rightarrow> string" where
  "Server i = obj
     [(''valid'', Serialize_Bool (srv_valid i)), (''ownerId'', Q (ownerId i)), (''serverName'', Q (serverName i)),
      (''worldName'', Q (worldName i)), (''serverGuid'', Q (serverGuid i)),
      (''isDedicatedServer'', Serialize_Bool (isDedicatedServer i)),
      (''crossplayEnabled'', Serialize_Bool (crossplayEnabled i)), (''hardcoreState'', to_string (hardcoreState i))]"

definition Discovery :: "DiscoveryInfo \<Rightarrow> string" where
  "Discovery i = obj
     [(''moduleBase'', Ptr (moduleBase i)), (''gObjects'', Ptr (gObjects i)), (''gNames'', Ptr (gNames i)),
      (''world'', Ptr (disc_world i)), (''objectCount'', to_string (objectCount i)),
      (''gObjectsSource'', Q (gObjectsSource i)), (''gNamesSource'', Q (gNamesSource i)),
      (''worldSource'', Q (worldSource i))]"

definition table_row :: "PlayerInfo \<Rightarrow> string" where
  "table_row p =
     Pad (pl_name p) 20 @ Pad (characterName p) 18 @ Pad (to_string (playerId p)) 5 @ Pad (to_string (pingMs p)) 6 @
     Pad (if hasHealth p then snprintf 32 (fixed 0 (health p) @ ''/'' @ fixed 0 (maxHealth p)) else ''-'') 12 @
     Pad (if hasSustenance p then snprintf 32 (fixed 0 (sustenance p)) else ''-'') 8 @
     Pad (if hasHydration p then snprintf 32 (fixed 0 (hydration p)) else ''-'') 8 @
     (if hasLocation p
      then (case location p of (x, y, z) \<Rightarrow> snprintf 64 (fixed 0 x @ '' '' @ fixed 0 y @ '' '' @ fixed 0 z))
      else ''not spawned'') @ [LF]"

definition PlayersTable :: "PlayerInfo list \<Rightarrow> string" where
  "PlayersTable ps =
     (if ps = [] then ''No players connected.''
      else Pad ''NAME'' 20 @ Pad ''CHARACTER'' 18 @ Pad ''ID'' 5 @ Pad ''PING'' 6 @ Pad ''HP'' 12 @ Pad ''FOOD'' 8 @
           Pad ''WATER'' 8 @ ''LOCATION'' @ [LF] @ concat (map table_row ps) @
           [LF] @ show_nat (length ps) @ '' player(s) connected.'')"


section \<open>The JSON grammar\<close>

fun json_chars :: "string \<Rightarrow> bool" where
  "json_chars [] = True"
| "json_chars [c] = (32 \<le> code c \<and> c \<noteq> QUOTE \<and> c \<noteq> BSLASH)"
| "json_chars (c # d # s) =
     (if c = BSLASH then d \<in> {QUOTE, BSLASH, CHR ''/'', CHR ''b'', CHR ''f'', CHR ''n'', CHR ''r'', CHR ''t''} \<and> json_chars s
      else 32 \<le> code c \<and> c \<noteq> QUOTE \<and> json_chars (d # s))"

definition json_nat :: "string \<Rightarrow> bool" where
  "json_nat s = (s \<noteq> [] \<and> list_all is_digit s \<and> (hd s = CHR ''0'' \<longrightarrow> s = ''0''))"

definition json_number :: "string \<Rightarrow> bool" where
  "json_number s = (\<exists>m n f. s = m @ n @ f \<and> (m = [] \<or> m = ''-'') \<and> json_nat n \<and>
     (f = [] \<or> (\<exists>ds. f = CHR ''.'' # ds \<and> ds \<noteq> [] \<and> list_all is_digit ds)))"

inductive json_value :: "string \<Rightarrow> bool" where
  jstring: "json_chars s \<Longrightarrow> json_value ([QUOTE] @ s @ [QUOTE])"
| jnumber: "json_number s \<Longrightarrow> json_value s"
| jtrue: "json_value ''true''"
| jfalse: "json_value ''false''"
| jnull: "json_value ''null''"
| jarray: "\<forall>v \<in> set vs. json_value v \<Longrightarrow> json_value (arr vs)"
| jobject: "\<forall>f \<in> set fs. json_chars (fst f) \<and> json_value (snd f) \<Longrightarrow> json_value (obj fs)"

lemma json_chars_plain: "c \<noteq> BSLASH \<Longrightarrow> json_chars (c # s) \<longleftrightarrow> 32 \<le> code c \<and> c \<noteq> QUOTE \<and> json_chars s"
  by (cases s) auto

lemma json_chars_Escape_char: "json_chars s \<Longrightarrow> json_chars (Escape_char c @ s)"
  by (auto simp: Escape_char.simps json_chars_plain)

lemma json_chars_Escape: "json_chars (Escape v)"
  by (induction v) (simp_all add: json_chars_Escape_char)

lemma json_Q [intro]: "json_value (Q v)"
  unfolding Q_def by (rule jstring [OF json_chars_Escape])

lemma json_Bool [intro]: "json_value (Serialize_Bool b)"
  by (auto simp: Serialize_Bool_def intro: json_value.intros)

lemma show_nat_hd: "hd (show_nat n) = CHR ''0'' \<Longrightarrow> n = 0"
proof (induction n rule: show_nat.induct)
  case (1 n)
  show ?case
  proof (cases "n < 10")
    case True
    then have "digit_char n = CHR ''0''" using "1.prems" by (subst (asm) show_nat.simps) simp
    then have "code (digit_char n) = 48" by simp
    with True show ?thesis by (simp add: code_digit_char)
  next
    case False
    then have "hd (show_nat (n div 10)) = CHR ''0''" using "1.prems" by (subst (asm) show_nat.simps) simp
    with "1.IH" [OF False] False show ?thesis by simp
  qed
qed

lemma json_nat_show [simp]: "json_nat (show_nat n)"
proof -
  have "show_nat 0 = ''0''" by code_simp
  then show ?thesis using show_nat_digits [of _ n] show_nat_hd [of n] by (auto simp: json_nat_def list_all_iff)
qed

lemma json_numberI:
  "m = [] \<or> m = ''-'' \<Longrightarrow> json_nat n \<Longrightarrow> f = [] \<or> (\<exists>ds. f = CHR ''.'' # ds \<and> ds \<noteq> [] \<and> list_all is_digit ds) \<Longrightarrow>
     json_value (m @ n @ f)"
  unfolding json_number_def by (rule jnumber) (auto simp: json_number_def)

lemma json_show_nat [intro]: "json_value (show_nat n)"
  using json_numberI [of "[]" "show_nat n" "[]"] by simp

lemma json_to_string [intro]: "json_value (to_string i)"
  using json_numberI [of "''-''" "show_nat (nat (- i))" "[]"] json_show_nat by (auto simp: to_string_def)

lemma show_hex_chars: "c \<in> set (show_hex n) \<Longrightarrow> 48 \<le> code c \<and> code c \<le> 70"
proof (induction n rule: show_hex.induct)
  case (1 n)
  have d: "n mod 16 < 16" by simp
  from "1.prems" have "c \<in> set (if n < 16 then [] else show_hex (n div 16)) \<or>
      c = (if n mod 16 < 10 then char_of (48 + n mod 16) else char_of (55 + n mod 16))"
    by (subst (asm) show_hex.simps) (auto simp: Let_def split: if_splits)
  with "1.IH" [OF refl refl] d show ?case by (auto split: if_splits)
qed

lemma json_chars_all: "\<forall>c \<in> set s. 48 \<le> code c \<and> code c \<le> 90 \<or> c = CHR ''x'' \<Longrightarrow> json_chars s"
proof (induction s)
  case (Cons c s)
  then have "32 \<le> code c" "c \<noteq> QUOTE" "c \<noteq> BSLASH" by auto
  with Cons show ?case by (simp add: json_chars_plain)
qed simp

lemma json_Ptr [intro]: "json_value (Ptr p)"
proof -
  have "json_chars (''0x'' @ show_hex (unat p))"
    by (intro json_chars_all) (auto dest: show_hex_chars)
  from jstring [OF this] show ?thesis by (simp add: Ptr_def)
qed

section \<open>Numbers\<close>

text \<open>Every finite \<^verbatim>\<open>float\<close> is below \<open>10 ^ 50\<close>.\<close>

definition num_ok :: "fp \<Rightarrow> bool" where
  "num_ok v = (case v of Finite s q \<Rightarrow> 0 \<le> q \<and> q \<le> 10 ^ 50 | _ \<Rightarrow> False)"

lemma round_even_le: "x \<le> of_int n \<Longrightarrow> round_even x \<le> n"
  by (auto simp: round_even_def Let_def) linarith+

lemma zeros_digits: "list_all is_digit s \<Longrightarrow> list_all is_digit (zeros k s)"
  by (auto simp: zeros_def list_all_iff is_digit_def)

lemma zeros_length: "length s \<le> k \<Longrightarrow> length (zeros k s) = k"
  by (simp add: zeros_def)

lemma fixed3_length:
  assumes "num_ok v"
  shows "length (fixed 3 v) \<le> 63"
proof -
  obtain s q where v: "v = Finite s q" and q: "0 \<le> q" "q \<le> 10 ^ 50"
    using assms by (auto simp: num_ok_def split: fp.splits)
  define n where "n = nat (round_even (q * 10 ^ 3))"
  have "q * 10 ^ 3 \<le> of_int (10 ^ 53)" using q(2) by simp
  then have "round_even (q * 10 ^ 3) \<le> 10 ^ 53" by (rule round_even_le)
  then have "n \<le> 10 ^ 53" by (simp add: n_def nat_le_iff)
  then have "n div 10 ^ 3 < 10 ^ Suc 50" by simp
  then have l1: "length (show_nat (n div 10 ^ 3)) \<le> Suc 50" by (rule length_show_nat)
  have l2: "length (show_nat (n mod 10 ^ 3)) \<le> Suc 2" by (rule length_show_nat) simp
  have "fixed 3 v = sign s @ show_nat (n div 10 ^ 3) @ ''.'' @ zeros 3 (show_nat (n mod 10 ^ 3))"
    by (simp add: v n_def Let_def)
  then show ?thesis
    using l1 l2 zeros_length [of "show_nat (n mod 10 ^ 3)" 3] by (simp add: sign_def)
qed

lemma Num_fixed: "num_ok v \<Longrightarrow> Num v = fixed 3 v"
  using fixed3_length [of v] by (simp add: Num_def snprintf_def)

lemma json_Num:
  assumes "num_ok v"
  shows "json_value (Num v)"
proof -
  obtain s q where v: "v = Finite s q" using assms by (auto simp: num_ok_def split: fp.splits)
  define n where "n = nat (round_even (q * 10 ^ 3))"
  have "fixed 3 v = sign s @ show_nat (n div 10 ^ 3) @ ''.'' @ zeros 3 (show_nat (n mod 10 ^ 3))"
    by (simp add: v n_def Let_def)
  moreover have "json_value \<dots>"
    using show_nat_digits [of _ "n mod 10 ^ 3"]
    by (intro json_numberI) (auto simp: sign_def zeros_def list_all_iff is_digit_def)
  ultimately have "json_value (fixed 3 v)" by simp
  then show ?thesis using assms by (simp add: Num_fixed)
qed


section \<open>Everything printed is JSON\<close>

definition player_ok :: "PlayerInfo \<Rightarrow> bool" where
  "player_ok p = (num_ok (score p) \<and>
     (case color p of (r, g, b, a) \<Rightarrow> list_all num_ok [r, g, b, a]) \<and>
     (case location p of (x, y, z) \<Rightarrow> list_all num_ok [x, y, z]) \<and>
     (case rotation p of (x, y, z) \<Rightarrow> list_all num_ok [x, y, z]) \<and>
     (case velocity p of (x, y, z) \<Rightarrow> list_all num_ok [x, y, z]) \<and>
     list_all num_ok [health p, maxHealth p, sustenance p, maxSustenance p, hydration p, maxHydration p] \<and>
     list_all (\<lambda>a. num_ok (attr_value a) \<and> num_ok (attr_baseValue a)) (attributes p))"

lemma json_obj: "list_all (\<lambda>(k, v). json_chars k \<and> json_value v) fs \<Longrightarrow> json_value (obj fs)"
  by (rule jobject) (auto simp: list_all_iff)

lemma json_arr: "list_all json_value vs \<Longrightarrow> json_value (arr vs)"
  by (rule jarray) (auto simp: list_all_iff)

lemma json_if: "json_value a \<Longrightarrow> json_value b \<Longrightarrow> json_value (if c then a else b)"
  by simp

lemmas json_simps = json_obj json_arr json_if json_Q json_Bool json_show_nat json_to_string json_Ptr json_Num jnull

lemma json_attributes:
  "list_all (\<lambda>a. num_ok (attr_value a) \<and> num_ok (attr_baseValue a)) as \<Longrightarrow>
     json_value (arr (map (\<lambda>a. obj [(''name'', Q (attr_name a)), (''value'', Num (attr_value a)),
         (''baseValue'', Num (attr_baseValue a)), (''shared'', Serialize_Bool (attr_shared a))]) as))"
  by (rule json_arr, induction as) (simp_all add: json_simps)

lemma json_skills:
  "json_value (arr (map (\<lambda>s. obj [(''skill'', Q (skill_name s)), (''currentXP'', to_string (currentXP s))]) ss))"
  by (rule json_arr, induction ss) (simp_all add: json_simps)

lemma json_Player:
  assumes "player_ok p"
  shows "json_value (Player p)"
proof -
  have "json_value (Player_color p)" "json_value (xyz (location p))" "json_value (Player_rotation p)" "json_value (xyz (velocity p))"
    using assms by (simp_all add: player_ok_def Player_color_def Player_rotation_def xyz_def json_simps split: prod.splits)
  moreover have "json_value (Player_pointers p)"
    by (simp add: Player_pointers_def json_simps)
  ultimately show ?thesis
    using assms unfolding Player_def player_ok_def
    by (intro json_obj) (simp add: json_simps json_attributes json_skills)
qed

lemma json_Players: "list_all player_ok ps \<Longrightarrow> json_value (Players ps)"
  by (simp add: Players_def json_simps list_all_iff json_Player)

lemma json_Server: "json_value (Server i)"
  by (simp add: Server_def json_simps)

lemma json_Discovery: "json_value (Discovery i)"
  by (simp add: Discovery_def json_simps)


section \<open>Properties\<close>

text \<open>
  The player list is always valid JSON: whatever bytes names, ids and other texts
  hold, the body of \<^verbatim>\<open>/api/players\<close> is a value of the JSON grammar, as long as the numbers
  are finite and below \<open>10 ^ 50\<close> (which every finite \<^verbatim>\<open>float\<close> is).
\<close>
lemma players_json:
  assumes "list_all player_ok ps"
  shows "json_value (Players ps)"
  by (rule json_Players [OF assms])

lemma players_json_witness:
  "json_value (Players [new_PlayerInfo\<lparr>pl_name := [QUOTE, BSLASH, LF, CHR 0x01], hasHealth := True, health := Finite True (1/3)\<rparr>])"
  by (rule players_json) (simp add: player_ok_def num_ok_def new_PlayerInfo_def)

text \<open>A value that is not a number is printed as is, which no JSON number allows.\<close>

lemma Num_nan: "Num (Nan False) = ''nan''"
  by (simp add: Num_def sign_def snprintf_def)

end
