(* ===== verification/Debounce.thy ===== *)
theory Debounce
  imports Prelude
begin

text \<open>
  Suppression of repeated reports. Two parts of the program keep the time of the last accepted
  report per key and drop another one that follows too soon: player events in
  \<^verbatim>\<open>src/src/engine/chat.cpp\<close> (3 s, with old entries pruned) and deaths in
  \<^verbatim>\<open>src/src/rsdwapi.cpp\<close> (10 s). The locale states what they share; it is interpreted where the
  operations are defined.
\<close>

locale debounce =
  fixes accept :: "int \<Rightarrow> 'k \<Rightarrow> ('k \<rightharpoonup> int) \<Rightarrow> bool \<times> ('k \<rightharpoonup> int)"
    and window :: int
  assumes window_pos: "0 < window"
    and accept_iff: "fst (accept now k m) \<longleftrightarrow> (case m k of None \<Rightarrow> True | Some t \<Rightarrow> window \<le> now - t)"
    and accept_sets: "fst (accept now k m) \<Longrightarrow> snd (accept now k m) k = Some now"
    and reject_keeps: "\<not> fst (accept now k m) \<Longrightarrow> snd (accept now k m) = m"
    and accept_others: "j \<noteq> k \<Longrightarrow> snd (accept now k m) j = m j \<or>
      (snd (accept now k m) j = None \<and> (\<exists>t. m j = Some t \<and> window \<le> now - t))"
begin

text \<open>The accepted reports of a sequence of timed reports.\<close>

fun accepted :: "(int \<times> 'k) list \<Rightarrow> ('k \<rightharpoonup> int) \<Rightarrow> (int \<times> 'k) list" where
  "accepted [] m = []"
| "accepted ((t, k) # evs) m =
     (if fst (accept t k m) then (t, k) # accepted evs (snd (accept t k m)) else accepted evs (snd (accept t k m)))"

lemma accepted_subset: "set (accepted evs m) \<subseteq> set evs"
  by (induction evs m rule: accepted.induct) auto

lemma accepted_after_entry:
  assumes "sorted (map fst evs)" "(t, k) \<in> set (accepted evs m)" "m k = Some t0"
  shows "window \<le> t - t0"
  using assms
proof (induction evs m rule: accepted.induct)
  case (2 t1 k1 evs m)
  note mem = "2.prems"(2)
  show ?case
  proof (cases "fst (accept t1 k1 m)")
    case False
    then show ?thesis using 2 reject_keeps [OF False] by simp
  next
    case True
    note acc = True
    consider "t = t1" "k = k1" | "(t, k) \<in> set (accepted evs (snd (accept t1 k1 m)))"
      using mem True by auto
    then show ?thesis
    proof cases
      case 1
      then show ?thesis using True accept_iff [of t1 k1 m] "2.prems"(3) by simp
    next
      case later: 2
      have t1: "t1 \<le> t" using later accepted_subset "2.prems"(1) by fastforce
      show ?thesis
      proof (cases "k = k1 \<or> snd (accept t1 k1 m) k \<noteq> m k")
        case True
        then have "window \<le> t1 - t0"
          using accept_others [of k k1 t1 m] accept_iff [of t1 k1 m] acc "2.prems"(3) by (cases "k = k1") auto
        then show ?thesis using t1 by simp
      qed (use 2 later acc in auto)
    qed
  qed
qed simp

text \<open>No two accepted reports of a key are closer than the window.\<close>

lemma accepted_spaced:
  "sorted (map fst evs) \<Longrightarrow> sorted_wrt (\<lambda>(t, k) (t', k'). k = k' \<longrightarrow> window \<le> t' - t) (accepted evs m)"
proof (induction evs m rule: accepted.induct)
  case (2 t k evs m)
  show ?case
  proof (cases "fst (accept t k m)")
    case True
    have "window \<le> t' - t" if "(t', k) \<in> set (accepted evs (snd (accept t k m)))" for t'
      using accepted_after_entry [OF _ that accept_sets [OF True]] "2.prems" by simp
    then show ?thesis using 2 True by auto
  qed (use 2 in simp)
qed simp

text \<open>No report is lost: one of its key was accepted within the window before it.\<close>

lemma accepted_complete:
  assumes "sorted (map fst evs)" "(t, k) \<in> set evs"
  shows "(\<exists>t'. (t', k) \<in> set (accepted evs m) \<and> t - window < t' \<and> t' \<le> t) \<or> (\<exists>t0. m k = Some t0 \<and> t - t0 < window)"
  using assms
proof (induction evs m rule: accepted.induct)
  case (2 t1 k1 evs m)
  have later: "t1 \<le> t" if "(t, k) \<in> set evs" using that "2.prems"(1) by fastforce
  show ?case
  proof (cases "fst (accept t1 k1 m)")
    case False
    then show ?thesis
      using 2 reject_keeps [OF False] accept_iff [of t1 k1 m] by (auto split: option.splits)
  next
    case True
    show ?thesis
    proof (cases "(t, k) = (t1, k1)")
      case True
      with \<open>fst (accept t1 k1 m)\<close> show ?thesis using window_pos by auto
    next
      case False
      then have mem: "(t, k) \<in> set evs" using "2.prems"(2) by auto
      from "2.IH"(1) [OF True _ mem] "2.prems"(1)
      consider t' where "(t', k) \<in> set (accepted evs (snd (accept t1 k1 m)))" "t - window < t'" "t' \<le> t"
        | t0 where "snd (accept t1 k1 m) k = Some t0" "t - t0 < window" by auto
      then show ?thesis
      proof cases
        case 1 then show ?thesis using True by auto
      next
        case entry: 2
        show ?thesis
        proof (cases "k = k1")
          case True
          then have "t0 = t1" using entry accept_sets [OF \<open>fst (accept t1 k1 m)\<close>] by simp
          then show ?thesis using True \<open>fst (accept t1 k1 m)\<close> entry later [OF mem] by auto
        qed (use entry accept_others [of k k1 t1 m] in auto)
      qed
    qed
  qed
qed simp

end

end
