(* ===== verification/Chat.thy ===== *)
theory Chat
  imports Items Debounce
begin

text \<open>
  Chat (\<^verbatim>\<open>src/src/engine/chat.cpp\<close>, \<^verbatim>\<open>chat.h\<close>): the hook on the game's chat messages with the
  administrators' commands, the relay to listeners, the suppression of repeated player events,
  and the broadcast. A message is given by what the hook reads from the call's parameters; the
  lookups that locate functions and components in the game are fields of \<^typ>\<open>Game\<close>. Jobs of
  the chat commands run on the game thread, where \<^verbatim>\<open>RunSync\<close> executes them in place.
\<close>

section \<open>Sending\<close>

record Message =
  msg_senderName :: string
  msg_senderNetId :: string
  msg_characterGuid :: string
  msg_playerId :: int
  msg_body :: string

record PlayerEvent =
  ev_senderName :: string
  ev_senderNetId :: string
  ev_characterGuid :: string
  ev_playerId :: int
  ev_tag :: string

definition SendToPlayer :: "PlayerInfo \<Rightarrow> string \<Rightarrow> World \<Rightarrow> bool \<times> World" where
  "SendToPlayer player body w =
     (let g = game w
      in if \<not> receive_function g \<or> \<not> has_process_event g then (False, w)
         else if controllerPtr player = 0 \<or> playerStatePtr player = 0 then (False, w)
         else if \<not> chat_component g (controllerPtr player) then (False, w)
         else (True, call (Say (controllerPtr player) body) w))"

fun send_each :: "PlayerInfo list \<Rightarrow> string \<Rightarrow> nat \<Rightarrow> World \<Rightarrow> nat \<times> World" where
  "send_each [] body delivered w = (delivered, w)"
| "send_each (p # ps) body delivered w =
     (case SendToPlayer p body w of (ok, w') \<Rightarrow> send_each ps body (if ok then delivered + 1 else delivered) w')"

text \<open>\<^verbatim>\<open>Broadcast\<close>: the error, or \<^term>\<open>None\<close> for success, and the new state.\<close>

definition Broadcast :: "string \<Rightarrow> World \<Rightarrow> string option \<times> World" where
  "Broadcast body w =
     (let g = game w
      in if \<not> initialized g then (Some ''engine not initialised'', w)
         else if \<not> receive_function g then (Some ''Client_ReceiveChatMessage not found'', w)
         else if \<not> pump_ready g then (Some (''broadcast needs the game thread pump: '' @ pump_status g), w)
         else if \<not> has_process_event g then (Some ''broadcast needs ProcessEvent, which has not been located yet'', w)
         else if body = [] then (Some ''message is empty'', w)
         else
           (let players = GetAllPlayers g
            in if players = [] then (Some ''no players to broadcast to'', w)
               else if \<not> pump_runs g then (Some ''the game thread did not run the broadcast within 10s'', w)
               else
                 (let (delivered, w') = send_each players body 0 w
                  in if delivered = 0 then (Some ''the game accepted no recipients'', w') else (None, w'))))"


section \<open>Commands in chat\<close>

definition IsAdmin :: "u64 \<Rightarrow> Game \<Rightarrow> bool" where
  "IsAdmin controller g =
     (if controller = 0 \<or> \<not> admin_function g \<or> \<not> admin_library g then False
      else if \<not> admin_native g then False
      else case admin_answer g controller of None \<Rightarrow> False | Some b \<Rightarrow> b)"

abbreviation say :: "PlayerInfo \<Rightarrow> string \<Rightarrow> World \<Rightarrow> World" where
  "say p line w \<equiv> snd (SendToPlayer p line w)"

definition chat_commands :: "string list" where
  "chat_commands = [''/kick'', ''/ban'', ''/unban'', ''/give'', ''/help'']"

text \<open>\<^verbatim>\<open>Join\<close>: the parts from one on, with a blank between them.\<close>

definition Join :: "string list \<Rightarrow> nat \<Rightarrow> string" where
  "Join parts from_part = foldl (\<lambda>out part. (if out \<noteq> [] then out @ '' '' else out) @ part) [] (drop from_part parts)"

lemma foldl_blank:
  "out \<noteq> [] \<Longrightarrow> foldl (\<lambda>out part. (if out \<noteq> [] then out @ '' '' else out) @ part) out ws = out @ concat (map ((#) (CHR '' '')) ws)"
  by (induction ws arbitrary: out) auto

lemma join_words_concat: "join_words (w # ws) = w @ concat (map ((#) (CHR '' '')) ws)"
  by (induction ws arbitrary: w) auto

lemma Join_words:
  assumes "list_all is_word parts"
  shows "Join parts n = join_words (drop n parts)"
proof (cases "drop n parts")
  case (Cons w ws)
  then have "w \<in> set parts" by (metis in_set_dropD list.set_intros(1))
  then have "w \<noteq> []" using assms by (auto simp: list_all_iff is_word_def)
  then show ?thesis by (simp add: Join_def Cons foldl_blank join_words_concat)
qed (simp add: Join_def)

definition chat_reason :: "string \<Rightarrow> string list \<Rightarrow> string" where
  "chat_reason fallback parts = (if length parts > 2 then Join parts 2 else fallback)"

definition chat_kick :: "PlayerInfo \<Rightarrow> string list \<Rightarrow> World \<Rightarrow> World" where
  "chat_kick sender parts w =
     (if length parts < 2 then say sender ''[Server] Usage: /kick <player> [reason]'' w
      else case KickPlayer (parts ! 1) (chat_reason ''Kicked by an administrator'' parts) w of
        (None, w') \<Rightarrow> say sender (''[Server] '' @ ''Kicked '' @ parts ! 1) w'
      | (Some e, w') \<Rightarrow> say sender (''[Server] '' @ ''Kick failed: '' @ e) w')"

definition chat_ban :: "PlayerInfo \<Rightarrow> string list \<Rightarrow> World \<Rightarrow> World" where
  "chat_ban sender parts w =
     (if length parts < 2 then say sender ''[Server] Usage: /ban <player> [reason]'' w
      else case Ban (clock_text (game w)) (parts ! 1) (chat_reason ''Banned by an administrator'' parts) w of
        (ok, message, w') \<Rightarrow> say sender (''[Server] '' @ message) w')"

definition chat_unban :: "PlayerInfo \<Rightarrow> string list \<Rightarrow> World \<Rightarrow> World" where
  "chat_unban sender parts w =
     (if length parts < 2 then say sender ''[Server] Usage: /unban <player or SteamID64>'' w
      else case Unban (parts ! 1) w of (ok, message, w') \<Rightarrow> say sender (''[Server] '' @ message) w')"

definition chat_give :: "PlayerInfo \<Rightarrow> string list \<Rightarrow> World \<Rightarrow> World" where
  "chat_give sender parts w =
     (if length parts < 3 then say sender ''[Server] Usage: /give <player> <item> [count]'' w
      else case GiveItem (parts ! 1) (parts ! 2) (if length parts > 3 then atoi (parts ! 3) else 1) w of
        (ok, message, w') \<Rightarrow> say sender (''[Server] '' @ message) w')"

definition chat_help :: "PlayerInfo \<Rightarrow> World \<Rightarrow> World" where
  "chat_help sender w =
     say sender ''[Server] /give <player> <item> [count]''
       (say sender ''[Server] /unban <player or SteamID64>''
         (say sender ''[Server] /ban <player> [reason]''
           (say sender ''[Server] /kick <player> [reason]'' w)))"

text \<open>\<^verbatim>\<open>HandleCommand\<close>: whether the message was a command, and the new state.\<close>

definition HandleCommand :: "PlayerInfo \<Rightarrow> string \<Rightarrow> World \<Rightarrow> bool \<times> World" where
  "HandleCommand sender body w =
     (let parts = tokens body
      in if parts = [] then (False, w)
         else
           (let command = Lower (hd parts)
            in if command \<notin> set chat_commands then (False, w)
               else if \<not> IsAdmin (controllerPtr sender) (game w)
                    then (True, say sender ''[Server] You are not an admin.'' w)
               else if command = ''/help'' then (True, chat_help sender w)
               else if command = ''/kick'' then (True, chat_kick sender parts w)
               else if command = ''/ban'' then (True, chat_ban sender parts w)
               else if command = ''/unban'' then (True, chat_unban sender parts w)
               else (True, chat_give sender parts w)))"

definition display_name :: "PlayerInfo \<Rightarrow> string" where
  "display_name p = (if characterName p = [] then pl_name p else characterName p)"

text \<open>The message with the sender's name and net id filled in from the player found.\<close>

definition with_sender :: "PlayerInfo option \<Rightarrow> Message \<Rightarrow> Message" where
  "with_sender sender m =
     (case sender of
        None \<Rightarrow> m
      | Some p \<Rightarrow> m\<lparr>msg_senderName := display_name p,
                    msg_senderNetId := (if msg_senderNetId m = [] then uniqueNetId p else msg_senderNetId m)\<rparr>)"

text \<open>
  \<^verbatim>\<open>SendThunk\<close>: the message delivered to the listeners, if any, whether the game's own handler
  is called, and the new state. \<open>m\<close> is what the parameters hold, \<^term>\<open>None\<close> when they can not be
  read.
\<close>

definition SendThunk :: "Message option \<Rightarrow> World \<Rightarrow> Message option \<times> bool \<times> World" where
  "SendThunk locals w =
     (if \<not> initialized (game w) \<or> \<not> frame_layout_ready (game w) then (None, True, w)
      else case locals of
        None \<Rightarrow> (None, True, w)
      | Some m \<Rightarrow>
          (if msg_body m = [] then (None, True, w)
           else
             (let sender = find (\<lambda>p. playerId p = msg_playerId m) (GetAllPlayers (game w));
                  (suppress, w') =
                    (case sender of
                       None \<Rightarrow> (False, w)
                     | Some p \<Rightarrow> if hd (msg_body m) = CHR ''/'' then HandleCommand p (msg_body m) w else (False, w))
              in (if suppress then None else Some (with_sender sender m), \<not> suppress, w'))))"


section \<open>Player events\<close>

definition event_key :: "PlayerEvent \<Rightarrow> string" where
  "event_key e = to_string (ev_playerId e) @ ''|'' @ ev_characterGuid e @ ''|'' @ ev_tag e"

definition one_second :: int where
  "one_second = 1000000000"

text \<open>The section of \<^verbatim>\<open>HandlePlayerEvent\<close> under the lock: whether the event is new.\<close>

definition recent_event :: "int \<Rightarrow> string \<Rightarrow> (string \<rightharpoonup> int) \<Rightarrow> bool \<times> (string \<rightharpoonup> int)" where
  "recent_event now key recent =
     (if (case recent key of None \<Rightarrow> False | Some t \<Rightarrow> now - t < 3 * one_second) then (False, recent)
      else (True, (\<lambda>k. case (recent(key \<mapsto> now)) k of
                         None \<Rightarrow> None | Some t \<Rightarrow> if now - t > 30 * one_second then None else Some t)))"

definition event_from :: "PlayerEvent \<Rightarrow> PlayerInfo \<Rightarrow> bool" where
  "event_from e p = (playerId p = ev_playerId e \<or>
     (ev_characterGuid e \<noteq> [] \<and> characterGuid p = ev_characterGuid e))"

definition event_with_sender :: "PlayerEvent \<Rightarrow> PlayerInfo list \<Rightarrow> PlayerEvent" where
  "event_with_sender e ps =
     (case find (event_from e) ps of
        None \<Rightarrow> e
      | Some p \<Rightarrow> e\<lparr>ev_senderName := display_name p,
                    ev_senderNetId := (if ev_senderNetId e = [] then uniqueNetId p else ev_senderNetId e)\<rparr>)"

text \<open>
  \<^verbatim>\<open>HandlePlayerEvent\<close>: the event delivered to the listeners, if any, and the times of recent
  events; \<open>e\<close> is what the parameters hold, \<^term>\<open>None\<close> when they can not be read.
\<close>

definition HandlePlayerEvent ::
  "int \<Rightarrow> Game \<Rightarrow> PlayerEvent option \<Rightarrow> (string \<rightharpoonup> int) \<Rightarrow> PlayerEvent option \<times> (string \<rightharpoonup> int)" where
  "HandlePlayerEvent now g e recent =
     (case e of
        None \<Rightarrow> (None, recent)
      | Some e \<Rightarrow>
          (if ev_tag e = [] \<or> ev_tag e = ''None'' then (None, recent)
           else case recent_event now (event_key e) recent of
             (False, recent') \<Rightarrow> (None, recent')
           | (True, recent') \<Rightarrow> (Some (event_with_sender e (GetAllPlayers g)), recent')))"

interpretation events: debounce recent_event "3 * one_second"
proof unfold_locales
  fix now k j and m :: "string \<rightharpoonup> int"
  show "0 < 3 * one_second" by (simp add: one_second_def)
  show "fst (recent_event now k m) \<longleftrightarrow> (case m k of None \<Rightarrow> True | Some t \<Rightarrow> 3 * one_second \<le> now - t)"
    by (auto simp: recent_event_def split: option.splits)
  show "fst (recent_event now k m) \<Longrightarrow> snd (recent_event now k m) k = Some now"
    by (auto simp: recent_event_def one_second_def split: option.splits if_splits)
  show "\<not> fst (recent_event now k m) \<Longrightarrow> snd (recent_event now k m) = m"
    by (auto simp: recent_event_def split: if_splits)
  show "j \<noteq> k \<Longrightarrow> snd (recent_event now k m) j = m j \<or>
      (snd (recent_event now k m) j = None \<and> (\<exists>t. m j = Some t \<and> 3 * one_second \<le> now - t))"
    by (auto simp: recent_event_def one_second_def split: option.splits)
qed


section \<open>What the pieces leave alone\<close>

lemma say_game [simp]: "game (say p line w) = game w"
  by (simp add: SendToPlayer_def call_def Let_def)

lemma send_each_calls:
  assumes "receive_function (game w)" "has_process_event (game w)"
  shows "send_each ps body n w =
    (let rs = filter (\<lambda>p. controllerPtr p \<noteq> 0 \<and> playerStatePtr p \<noteq> 0 \<and> chat_component (game w) (controllerPtr p)) ps
     in (n + length rs, w\<lparr>calls := calls w @ map (\<lambda>p. Say (controllerPtr p) body) rs\<rparr>))"
  using assms
proof (induction ps arbitrary: n w)
  case (Cons p ps)
  then show ?case by (simp add: SendToPlayer_def call_def Let_def)
qed simp

text \<open>The events of a sequence that reach the listeners, with the time each came.\<close>

fun delivered_events :: "Game \<Rightarrow> (int \<times> PlayerEvent) list \<Rightarrow> (string \<rightharpoonup> int) \<Rightarrow> (int \<times> PlayerEvent) list" where
  "delivered_events g [] recent = []"
| "delivered_events g ((now, e) # evs) recent =
     (case HandlePlayerEvent now g (Some e) recent of
        (None, recent') \<Rightarrow> delivered_events g evs recent'
      | (Some e', recent') \<Rightarrow> (now, e') # delivered_events g evs recent')"

abbreviation keyed :: "int \<times> PlayerEvent \<Rightarrow> int \<times> string" where
  "keyed \<equiv> map_prod id event_key"

lemma event_key_sender [simp]: "event_key (event_with_sender e ps) = event_key e"
  by (simp add: event_key_def event_with_sender_def split: option.split)

lemma delivered_accepted:
  assumes "list_all (\<lambda>(t, e). ev_tag e \<noteq> [] \<and> ev_tag e \<noteq> ''None'') evs"
  shows "map keyed (delivered_events g evs recent) = events.accepted (map keyed evs) recent"
  using assms
proof (induction evs arbitrary: recent)
  case (Cons te evs)
  obtain t e where te: "te = (t, e)" by (cases te)
  then show ?case using Cons
    by (cases "recent_event t (event_key e) recent") (auto simp: HandlePlayerEvent_def split: bool.splits)
qed simp


section \<open>Properties\<close>

text \<open>
  C13: Only administrators command through chat: when a chat message leaves the program's state
  different, it is one of the five commands, it is shown neither to the listeners nor to the
  other players, and either the game confirmed the player it names as an administrator, or all
  that happened is the refusal sent back to that player.
\<close>
theorem chat_admin_only:
  assumes "SendThunk locals w = (shown, forwarded, w')" "w' \<noteq> w"
  shows "shown = None \<and> \<not> forwarded \<and>
    (\<exists>m p. locals = Some m \<and> p \<in> set (GetAllPlayers (game w)) \<and> playerId p = msg_playerId m \<and>
      Lower (hd (tokens (msg_body m))) \<in> set chat_commands \<and>
      (IsAdmin (controllerPtr p) (game w) \<or>
       w' = call (Say (controllerPtr p) ''[Server] You are not an admin.'') w))"
proof -
  obtain m where m: "locals = Some m" using assms by (cases locals) (auto simp: SendThunk_def split: if_splits)
  obtain p where p: "find (\<lambda>p. playerId p = msg_playerId m) (GetAllPlayers (game w)) = Some p"
      "snd (HandleCommand p (msg_body m) w) = w'" "fst (HandleCommand p (msg_body m) w) \<longrightarrow> shown = None \<and> \<not> forwarded"
    using assms m by (auto simp: SendThunk_def Let_def split: if_splits option.splits prod.splits)
  have "fst (HandleCommand p (msg_body m) w) \<and> Lower (hd (tokens (msg_body m))) \<in> set chat_commands \<and>
      (IsAdmin (controllerPtr p) (game w) \<or> w' = say p ''[Server] You are not an admin.'' w)"
    using p(2) assms(2) by (auto simp: HandleCommand_def Let_def split: if_splits)
  moreover have "say p line w = w \<or> say p line w = call (Say (controllerPtr p) line) w" for line
    by (simp add: SendToPlayer_def Let_def)
  moreover have "p \<in> set (GetAllPlayers (game w))" "playerId p = msg_playerId m"
    using p(1) by (auto simp: find_Some_iff)
  ultimately show ?thesis using m p(3) assms(2) by (intro conjI exI [of _ m] exI [of _ p]) auto
qed

theorem chat_admin_only_witness:
  "snd (snd (SendThunk (Some \<lparr>msg_senderName = [], msg_senderNetId = [], msg_characterGuid = [], msg_playerId = 257,
      msg_body = ''/kick Ann''\<rparr>) demo_world)) = call (Say 32 ''[Server] You are not an admin.'') demo_world"
proof -
  let ?m = "\<lparr>msg_senderName = [], msg_senderNetId = [], msg_characterGuid = [], msg_playerId = 257, msg_body = ''/kick Ann''\<rparr>"
  let ?r = "SendThunk (Some ?m) demo_world"
  have "calls (snd (snd ?r)) \<noteq> calls demo_world"
    by (simp add: SendThunk_def demo_simps HandleCommand_def tokens_def is_space_def to_lower_def Lower_def
        chat_commands_def IsAdmin_def SendToPlayer_def call_def Let_def)
  then have "snd (snd ?r) \<noteq> demo_world" by auto
  from chat_admin_only [of "Some ?m" demo_world "fst ?r" "fst (snd ?r)" "snd (snd ?r)", OF _ this]
  obtain p where p: "p \<in> set (GetAllPlayers (game demo_world))" "playerId p = 257"
      "IsAdmin (controllerPtr p) (game demo_world) \<or> snd (snd ?r) = call (Say (controllerPtr p) ''[Server] You are not an admin.'') demo_world"
    by auto
  then have "controllerPtr p = 32" by (auto simp: demo_simps)
  then show ?thesis using p(3) by (simp add: IsAdmin_def demo_simps)
qed

text \<open>
  Ordinary chat passes through untouched: a message whose first word is no command reaches
  the listeners with its text, its sender's name as the game shows it and the game's own
  handler, and changes nothing.
\<close>
lemma chat_relay_exact:
  assumes "initialized (game w)" "frame_layout_ready (game w)" "msg_body m \<noteq> []"
    "tokens (msg_body m) = [] \<or> Lower (hd (tokens (msg_body m))) \<notin> set chat_commands"
  shows "SendThunk (Some m) w =
    (Some (with_sender (find (\<lambda>p. playerId p = msg_playerId m) (GetAllPlayers (game w))) m), True, w) \<and>
    msg_body (with_sender (find (\<lambda>p. playerId p = msg_playerId m) (GetAllPlayers (game w))) m) = msg_body m"
proof -
  have "HandleCommand p (msg_body m) w = (False, w)" for p
    using assms(4) by (auto simp: HandleCommand_def Let_def)
  then show ?thesis using assms(1-3) by (auto simp: SendThunk_def with_sender_def split: option.splits)
qed

lemma chat_relay_exact_witness:
  "fst (SendThunk (Some \<lparr>msg_senderName = [], msg_senderNetId = [], msg_characterGuid = [], msg_playerId = 257,
      msg_body = ''/dance''\<rparr>) demo_world) =
    Some \<lparr>msg_senderName = ''Bob'', msg_senderNetId = ''76561190000000002'', msg_characterGuid = [], msg_playerId = 257,
      msg_body = ''/dance''\<rparr>"
  by (subst chat_relay_exact [THEN conjunct1])
    (simp_all add: demo_simps tokens_def is_space_def to_lower_def Lower_def chat_commands_def with_sender_def display_name_def)

text \<open>
  A broadcast is all or nothing: it fails with an error and changes nothing, or it sends
  the text once to each connected player who can be reached, in the order of the player list,
  and there is at least one.
\<close>
lemma broadcast_exact:
  "case Broadcast body w of
     (Some e, w') \<Rightarrow> w' = w
   | (None, w') \<Rightarrow>
       (\<exists>rs. rs = filter (\<lambda>p. controllerPtr p \<noteq> 0 \<and> playerStatePtr p \<noteq> 0 \<and> chat_component (game w) (controllerPtr p))
                    (GetAllPlayers (game w)) \<and> rs \<noteq> [] \<and> body \<noteq> [] \<and>
         w' = w\<lparr>calls := calls w @ map (\<lambda>p. Say (controllerPtr p) body) rs\<rparr>)"
  by (auto simp: Broadcast_def send_each_calls Let_def split: if_splits)

text \<open>
  Player events are reported once: of a time-ordered sequence of named events no two with
  the same player, character and tag reach the listeners within 3 seconds, and none is lost:
  for each event one with the same key was delivered less than 3 seconds before it or with it.
\<close>
lemma events_once:
  assumes "sorted (map fst evs)" "list_all (\<lambda>(t, e). ev_tag e \<noteq> [] \<and> ev_tag e \<noteq> ''None'') evs"
  shows "sorted_wrt (\<lambda>(t, e) (t', e'). event_key e = event_key e' \<longrightarrow> 3 * one_second \<le> t' - t)
      (delivered_events g evs Map.empty) \<and>
    list_all (\<lambda>(t, e). list_ex (\<lambda>(t', e'). event_key e' = event_key e \<and> t - 3 * one_second < t' \<and> t' \<le> t)
      (delivered_events g evs Map.empty)) evs"
proof
  let ?ds = "delivered_events g evs Map.empty"
  have K: "map keyed ?ds = events.accepted (map keyed evs) Map.empty" by (rule delivered_accepted [OF assms(2)])
  have S: "sorted (map fst (map keyed evs))" using assms(1) by (simp add: comp_def)
  have "sorted_wrt (\<lambda>(t, k) (t', k'). k = k' \<longrightarrow> 3 * one_second \<le> t' - t) (map keyed ?ds)"
    unfolding K by (rule events.accepted_spaced [OF S])
  then show "sorted_wrt (\<lambda>(t, e) (t', e'). event_key e = event_key e' \<longrightarrow> 3 * one_second \<le> t' - t) ?ds"
    by (simp add: sorted_wrt_map case_prod_unfold)
  show "list_all (\<lambda>(t, e). list_ex (\<lambda>(t', e'). event_key e' = event_key e \<and> t - 3 * one_second < t' \<and> t' \<le> t) ?ds) evs"
    unfolding list_all_iff
  proof clarify
    fix t e assume "(t, e) \<in> set evs"
    then have "(t, event_key e) \<in> set (map keyed evs)" by force
    then obtain t' where "(t', event_key e) \<in> set (map keyed ?ds)" "t - 3 * one_second < t'" "t' \<le> t"
      using events.accepted_complete [OF S, of t "event_key e" Map.empty] unfolding K by auto
    then show "list_ex (\<lambda>(t', e'). event_key e' = event_key e \<and> t - 3 * one_second < t' \<and> t' \<le> t) ?ds"
      by (force simp: list_ex_iff)
  qed
qed

definition demo_event :: PlayerEvent where
  "demo_event = \<lparr>ev_senderName = [], ev_senderNetId = [], ev_characterGuid = [], ev_playerId = 256, ev_tag = ''Died''\<rparr>"

lemma events_once_witness:
  "sorted_wrt (\<lambda>(t, e) (t', e'). event_key e = event_key e' \<longrightarrow> 3 * one_second \<le> t' - t)
     (delivered_events demo_game [(0, demo_event), (1, demo_event), (3 * one_second, demo_event)] Map.empty)"
  by (rule events_once [THEN conjunct1]) (simp_all add: one_second_def demo_event_def)

end
