(* ===== verification/Rcon_Commands.thy ===== *)
theory Rcon_Commands
  imports Chat Serialize
begin

text \<open>
  The console commands (\<^verbatim>\<open>src/src/rcon/rcon_commands.cpp\<close>, \<^verbatim>\<open>commands_players.cpp\<close>,
  \<^verbatim>\<open>commands_system.cpp\<close>): the registry, \<^verbatim>\<open>Dispatch\<close>, and every handler. A handler gets the
  usage and description of all registered commands (for \<^verbatim>\<open>help\<close>), the arguments and the
  program's state; it may throw.
\<close>

datatype outcome = Text string | Exception string | OtherException

record Command =
  cmd_name :: string
  cmd_usage :: string
  cmd_description :: string
  cmd_handler :: "(string \<times> string) list \<Rightarrow> string list \<Rightarrow> World \<Rightarrow> outcome \<times> World"

definition Register :: "Command \<Rightarrow> Command list \<Rightarrow> Command list" where
  "Register c reg = reg @ [c]"

definition All :: "Command list \<Rightarrow> (string \<times> string) list" where
  "All reg = map (\<lambda>c. (cmd_usage c, cmd_description c)) reg"

definition Dispatch :: "Command list \<Rightarrow> string \<Rightarrow> World \<Rightarrow> string \<times> World" where
  "Dispatch reg line w =
     (case tokens line of
        [] \<Rightarrow> ([], w)
      | name # args \<Rightarrow>
          (case find (\<lambda>c. Lower (cmd_name c) = Lower name) reg of
             None \<Rightarrow> (''Unknown command '' @ [APOS] @ name @ [APOS] @ ''. Try '' @ [APOS] @ ''help'' @ [APOS] @ ''.'', w)
           | Some c \<Rightarrow>
               (case cmd_handler c (All reg) args w of
                  (Text t, w') \<Rightarrow> (t, w')
                | (Exception e, w') \<Rightarrow> (''Command failed: '' @ e, w')
                | (OtherException, w') \<Rightarrow> (''Command failed.'', w'))))"


section \<open>Player commands\<close>

definition EngineReady :: "World \<Rightarrow> bool" where
  "EngineReady w = initialized (game w)"

definition not_ready :: string where
  "not_ready = ''Engine not initialized yet.''"

definition cmd_players :: "string list \<Rightarrow> World \<Rightarrow> string \<times> World" where
  "cmd_players args w =
     (if \<not> EngineReady w then (not_ready, w)
      else if args \<noteq> [] \<and> Lower (hd args) = ''json'' then (Players (GetAllPlayers (game w)), w)
      else (PlayersTable (GetAllPlayers (game w)), w))"

definition cmd_playercount :: "string list \<Rightarrow> World \<Rightarrow> string \<times> World" where
  "cmd_playercount args w =
     (if \<not> EngineReady w then (not_ready, w) else (show_nat (length (GetAllPlayers (game w))), w))"

definition cmd_player :: "string list \<Rightarrow> World \<Rightarrow> string \<times> World" where
  "cmd_player args w =
     (if \<not> EngineReady w then (not_ready, w)
      else if args = [] then (''Usage: player <name>'', w)
      else
        (let wanted = Lower (join_words args)
         in case find (\<lambda>p. Lower (pl_name p) = wanted \<or> Lower (characterName p) = wanted \<or> Lower (uniqueNetId p) = wanted)
                  (GetAllPlayers (game w)) of
              Some p \<Rightarrow> (Player p, w)
            | None \<Rightarrow> (''No connected player matches '' @ [APOS] @ wanted @ [APOS] @ ''.'', w)))"

definition reason_of :: "string \<Rightarrow> string list \<Rightarrow> string" where
  "reason_of dflt args = (if length args > 1 then join_words (tl args) else dflt)"

definition cmd_kick :: "string list \<Rightarrow> World \<Rightarrow> string \<times> World" where
  "cmd_kick args w =
     (if \<not> EngineReady w then (not_ready, w)
      else if args = [] then (''Usage: kick <player> [reason]'', w)
      else
        (let reason = reason_of ''Kicked by an administrator'' args
         in case KickPlayer (hd args) reason w of
              (Some e, w') \<Rightarrow> (''Kick failed: '' @ e, w')
            | (None, w') \<Rightarrow> (''Kicked '' @ hd args @ '' ('' @ reason @ '')'', w')))"

definition cmd_broadcast :: "string list \<Rightarrow> World \<Rightarrow> string \<times> World" where
  "cmd_broadcast args w =
     (if \<not> EngineReady w then (not_ready, w)
      else if args = [] then (''Usage: broadcast <message>'', w)
      else case Broadcast (''[Server] '' @ join_words args) w of
        (Some e, w') \<Rightarrow> (''Broadcast failed: '' @ e, w')
      | (None, w') \<Rightarrow> (''Broadcast sent.'', w'))"

definition cmd_give :: "string list \<Rightarrow> World \<Rightarrow> string \<times> World" where
  "cmd_give args w =
     (if \<not> EngineReady w then (not_ready, w)
      else if length args < 2 then (''Usage: give <player> <item> [count]'', w)
      else
        (let count = (if length args > 2 then atoi (args ! 2) else 1);
             (ok, message, w') = GiveItem (args ! 0) (args ! 1) count w
         in (message, w')))"

definition item_matches :: "string \<Rightarrow> ItemInfo \<Rightarrow> bool" where
  "item_matches flt i = (flt = [] \<or> find_sub flt (Lower (item_name i)) \<noteq> None)"

definition cmd_items :: "string list \<Rightarrow> World \<Rightarrow> string \<times> World" where
  "cmd_items args w =
     (if \<not> EngineReady w then (not_ready, w)
      else
        (let flt = (if args = [] then [] else Lower (hd args));
             shown = filter (item_matches flt) (ListLoaded (game w))
         in (concat (map (\<lambda>i. item_name i @ [LF]) shown) @ show_nat (length shown) @ '' item(s).'', w)))"

definition cmd_ban :: "string list \<Rightarrow> World \<Rightarrow> string \<times> World" where
  "cmd_ban args w =
     (if \<not> EngineReady w then (not_ready, w)
      else if args = [] then (''Usage: ban <player> [reason]'', w)
      else
        (let (ok, message, w') = Ban (clock_text (game w)) (hd args) (reason_of ''Banned by an administrator'' args) w
         in (message, w')))"

definition cmd_unban :: "string list \<Rightarrow> World \<Rightarrow> string \<times> World" where
  "cmd_unban args w =
     (if args = [] then (''Usage: unban <player or SteamID64>'', w)
      else let (ok, message, w') = Unban (hd args) w in (message, w'))"

definition cmd_bans :: "string list \<Rightarrow> World \<Rightarrow> string \<times> World" where
  "cmd_bans args w =
     (let out = concat (map (\<lambda>b. ban_netId b @ ''  '' @ ban_name b @ ''  '' @ ban_reason b @ ''  '' @ ban_bannedAt b @ [LF]) (g_Bans w))
      in (if out = [] then ''No bans.'' else out, w))"


section \<open>System commands\<close>

definition Pad_right :: "string \<Rightarrow> nat \<Rightarrow> string" where
  "Pad_right v width = v @ replicate (width - length v) (CHR '' '')"

definition cmd_help :: "(string \<times> string) list \<Rightarrow> string list \<Rightarrow> World \<Rightarrow> string \<times> World" where
  "cmd_help all args w =
     (''RSDWRestAPI '' @ Version @ '' - available commands:'' @ [LF] @
      concat (map (\<lambda>(u, d). ''  '' @ Pad_right u 32 @ d @ [LF]) all), w)"

definition fp_of :: "rat \<Rightarrow> fp" where
  "fp_of q = Finite (q < 0) \<bar>q\<bar>"

definition cmd_health :: "string list \<Rightarrow> World \<Rightarrow> string \<times> World" where
  "cmd_health args w =
     (let g = game w; r = runtime g
      in (snprintf 256
           (''status='' @ (if EngineReady w then ''healthy'' else ''starting'') @
            '' uptime='' @ fixed 1 (fp_of (UptimeSeconds (clock g) r)) @ ''s'' @
            '' engine='' @ (if EngineReady w then ''ready'' else ''waiting'') @
            '' rest='' @ (if g_RestRunning r then ''up'' else ''down'') @ '':'' @ to_string (g_RestPort r) @
            '' rcon='' @ (if g_RconRunning r then ''up'' else ''down'') @ '':'' @ to_string (g_RconPort r)), w))"

definition yes_no :: "bool \<Rightarrow> string" where
  "yes_no b = (if b then ''yes'' else ''no'')"

definition cmd_status :: "string list \<Rightarrow> World \<Rightarrow> string \<times> World" where
  "cmd_status args w =
     (if \<not> EngineReady w then (not_ready, w)
      else
        (let s = server_info (game w); d = discovery_info (game w)
         in (''Server name   : '' @ serverName s @ [LF] @
             ''World         : '' @ worldName s @ [LF] @
             ''Owner id      : '' @ ownerId s @ [LF] @
             ''Server guid   : '' @ serverGuid s @ [LF] @
             ''Dedicated     : '' @ yes_no (isDedicatedServer s) @ [LF] @
             ''Crossplay     : '' @ yes_no (crossplayEnabled s) @ [LF] @
             ''Hardcore state: '' @ to_string (hardcoreState s) @ [LF] @
             ''Objects       : '' @ to_string (objectCount d) @ [LF] @
             ''GObjects      : '' @ gObjectsSource d @ [LF] @
             ''GNames        : '' @ gNamesSource d @ [LF] @
             ''World lookup  : '' @ worldSource d, w)))"


section \<open>Registration\<close>

definition plain :: "(string list \<Rightarrow> World \<Rightarrow> string \<times> World) \<Rightarrow> (string \<times> string) list \<Rightarrow> string list \<Rightarrow> World \<Rightarrow> outcome \<times> World" where
  "plain h all args w = (case h args w of (t, w') \<Rightarrow> (Text t, w'))"

definition mk_Command :: "string \<Rightarrow> string \<Rightarrow> string \<Rightarrow> ((string \<times> string) list \<Rightarrow> string list \<Rightarrow> World \<Rightarrow> outcome \<times> World) \<Rightarrow> Command" where
  "mk_Command n u d h = \<lparr>cmd_name = n, cmd_usage = u, cmd_description = d, cmd_handler = h\<rparr>"

definition RegisterSystemCommands :: "Command list \<Rightarrow> Command list" where
  "RegisterSystemCommands reg = reg @
     [mk_Command ''help'' ''help'' ''List available commands.'' (\<lambda>all args w. case cmd_help all args w of (t, w') \<Rightarrow> (Text t, w')),
      mk_Command ''health'' ''health'' ''Mod and engine readiness in one line.'' (plain cmd_health),
      mk_Command ''status'' ''status'' ''Server identity, world and engine discovery.'' (plain cmd_status)]"

definition RegisterPlayerCommands :: "Command list \<Rightarrow> Command list" where
  "RegisterPlayerCommands reg = reg @
     [mk_Command ''players'' ''players [json]'' (''List connected players. '' @ [APOS] @ ''json'' @ [APOS] @ '' returns the API payload.'') (plain cmd_players),
      mk_Command ''playercount'' ''playercount'' ''Number of connected players.'' (plain cmd_playercount),
      mk_Command ''player'' ''player <name>'' ''Everything known about one player, as JSON.'' (plain cmd_player),
      mk_Command ''kick'' ''kick <player> [reason]'' ''Disconnect a player from the server.'' (plain cmd_kick),
      mk_Command ''broadcast'' ''broadcast <message>'' ''Send a message to every player.'' (plain cmd_broadcast),
      mk_Command ''give'' ''give <player> <item> [count]'' ''Give an item to a player.'' (plain cmd_give),
      mk_Command ''items'' ''items [search]'' ''List loaded items.'' (plain cmd_items),
      mk_Command ''ban'' ''ban <player> [reason]'' ''Ban a player. Offline players by SteamID64.'' (plain cmd_ban),
      mk_Command ''unban'' ''unban <player or SteamID64>'' ''Remove a ban.'' (plain cmd_unban),
      mk_Command ''bans'' ''bans'' ''List bans.'' (plain cmd_bans)]"

definition RegisterAll :: "Command list" where
  "RegisterAll = RegisterPlayerCommands (RegisterSystemCommands [])"


section \<open>Lemmas\<close>

lemma mk_Command_simps [simp]:
  "cmd_name (mk_Command n u d h) = n" "cmd_usage (mk_Command n u d h) = u"
  "cmd_description (mk_Command n u d h) = d" "cmd_handler (mk_Command n u d h) = h"
  by (simp_all add: mk_Command_def)

lemma registry_names:
  "map cmd_name RegisterAll = [''help'', ''health'', ''status'', ''players'', ''playercount'', ''player'', ''kick'',
     ''broadcast'', ''give'', ''items'', ''ban'', ''unban'', ''bans'']"
  by (simp add: RegisterAll_def RegisterPlayerCommands_def RegisterSystemCommands_def)

lemma registry_lower: "c \<in> set RegisterAll \<Longrightarrow> Lower (cmd_name c) = cmd_name c"
proof -
  have L: "list_all (\<lambda>n. Lower n = n) (map cmd_name RegisterAll)" unfolding registry_names by code_simp
  assume "c \<in> set RegisterAll"
  with L show ?thesis by (auto simp: list_all_iff)
qed

text \<open>The commands that only look.\<close>

definition readonly_names :: "string list" where
  "readonly_names = [''help'', ''health'', ''status'', ''players'', ''playercount'', ''player'', ''items'', ''bans'']"

lemma readonly_commands [simp]:
  "snd (cmd_help all args w) = w" "snd (cmd_health args w) = w" "snd (cmd_status args w) = w"
  "snd (cmd_players args w) = w" "snd (cmd_playercount args w) = w" "snd (cmd_player args w) = w"
  "snd (cmd_items args w) = w" "snd (cmd_bans args w) = w"
  by (simp_all add: cmd_help_def cmd_health_def cmd_status_def cmd_players_def cmd_playercount_def cmd_player_def
      cmd_items_def cmd_bans_def Let_def split: option.splits)

lemma snd_plain [simp]: "snd (plain h all args w) = snd (h args w)"
  by (simp add: plain_def split_beta)

lemma readonly_handler:
  assumes "c \<in> set RegisterAll" "cmd_name c \<in> set readonly_names"
  shows "snd (cmd_handler c all args w) = w"
proof -
  have "list_all (\<lambda>c. cmd_name c \<in> set readonly_names \<longrightarrow> snd (cmd_handler c all args w) = w) RegisterAll"
    by (simp add: RegisterAll_def RegisterPlayerCommands_def RegisterSystemCommands_def readonly_names_def split_beta)
  with assms show ?thesis by (simp add: list_all_iff)
qed

lemma Dispatch_word:
  assumes "is_word name" "list_all is_word args" "c \<in> set RegisterAll" "Lower name = cmd_name c"
  shows "Dispatch RegisterAll (join_words (name # args)) w =
    (case cmd_handler c (All RegisterAll) args w of
       (Text t, w') \<Rightarrow> (t, w') | (Exception e, w') \<Rightarrow> (''Command failed: '' @ e, w') | (OtherException, w') \<Rightarrow> (''Command failed.'', w'))"
proof -
  have "tokens (join_words (name # args)) = name # args" using assms(1,2) by (intro tokens_join_words) simp
  moreover have "find (\<lambda>d. Lower (cmd_name d) = Lower name) RegisterAll = Some c"
  proof -
    have u: "\<exists>i < length RegisterAll. RegisterAll ! i = c" using assms(3) by (simp add: in_set_conv_nth)
    then obtain i where i: "i < length RegisterAll" "RegisterAll ! i = c" by blast
    have d: "distinct (map cmd_name RegisterAll)" unfolding registry_names by simp
    have "Lower (cmd_name (RegisterAll ! j)) = Lower name \<Longrightarrow> j < length RegisterAll \<Longrightarrow> j = i" for j
      using d i registry_lower [of "RegisterAll ! j"] assms(4)
      by (auto simp: distinct_conv_nth)
    with i registry_lower [OF assms(3)] assms(4) show ?thesis
      unfolding find_Some_iff by (metis Lower_idem nth_mem not_less_iff_gr_or_eq order.strict_trans)
  qed
  ultimately show ?thesis by (simp add: Dispatch_def)
qed


section \<open>Properties\<close>

lemma Dispatch_effect:
  assumes "snd (Dispatch RegisterAll line w) \<noteq> w"
  shows "\<exists>name args. tokens line = name # args \<and>
    Lower name \<in> {''kick'', ''broadcast'', ''give'', ''ban'', ''unban''}"
proof -
  obtain name args where t: "tokens line = name # args"
    using assms by (cases "tokens line") (auto simp: Dispatch_def)
  then obtain c where c: "find (\<lambda>c. Lower (cmd_name c) = Lower name) RegisterAll = Some c"
    using assms by (cases "find (\<lambda>c. Lower (cmd_name c) = Lower name) RegisterAll") (auto simp: Dispatch_def)
  then have m: "c \<in> set RegisterAll" "Lower name = cmd_name c"
    using registry_lower by (auto simp: find_Some_iff in_set_conv_nth) (metis nth_mem)
  have "snd (cmd_handler c (All RegisterAll) args w) \<noteq> w"
    using assms t c by (auto simp: Dispatch_def split: prod.splits outcome.splits)
  then have "cmd_name c \<notin> set readonly_names" using readonly_handler [OF m(1)] by blast
  moreover have "cmd_name c \<in> set (map cmd_name RegisterAll)" using m(1) by simp
  ultimately show ?thesis using t m(2) by (auto simp: registry_names readonly_names_def)
qed

text \<open>
  Only the five commands \<^verbatim>\<open>kick\<close>, \<^verbatim>\<open>broadcast\<close>, \<^verbatim>\<open>give\<close>, \<^verbatim>\<open>ban\<close> and \<^verbatim>\<open>unban\<close> change
  anything: a console line that leaves the state of the program different starts, up to
  case, with one of these names.
\<close>
lemma only_five_commands_change:
  assumes "snd (Dispatch RegisterAll line w) \<noteq> w"
  shows "\<exists>name args. tokens line = name # args \<and>
    Lower name \<in> {''kick'', ''broadcast'', ''give'', ''ban'', ''unban''}"
  by (rule Dispatch_effect [OF assms])

lemma only_five_commands_change_witness:
  "\<exists>name args. tokens ''UNBAN Ann'' = name # args \<and> Lower name \<in> {''kick'', ''broadcast'', ''give'', ''ban'', ''unban''}"
proof (rule only_five_commands_change)
  let ?w = "demo_world\<lparr>g_Bans := [ban_entry ''t'' ''1'' ''Ann'' ''r'']\<rparr>"
  have "Dispatch RegisterAll (join_words (''UNBAN'' # [''Ann''])) ?w =
      (case cmd_handler (mk_Command ''unban'' ''unban <player or SteamID64>'' ''Remove a ban.'' (plain cmd_unban)) (All RegisterAll) [''Ann''] ?w of
       (Text t, w') \<Rightarrow> (t, w') | (Exception e, w') \<Rightarrow> (''Command failed: '' @ e, w') | (OtherException, w') \<Rightarrow> (''Command failed.'', w'))"
  proof (rule Dispatch_word)
    show "Lower ''UNBAN'' = cmd_name (mk_Command ''unban'' ''unban <player or SteamID64>'' ''Remove a ban.'' (plain cmd_unban))"
      by simp code_simp
  qed (simp_all add: is_word_def is_space_def RegisterAll_def RegisterPlayerCommands_def)
  moreover have "g_Bans (snd (snd (Unban ''Ann'' ?w))) = []"
    by (simp add: Unban_def ban_entry_def)
  ultimately have "g_Bans (snd (Dispatch RegisterAll ''UNBAN Ann'' ?w)) = []"
    by (simp add: plain_def cmd_unban_def split_beta)
  then show "snd (Dispatch RegisterAll ''UNBAN Ann'' ?w) \<noteq> ?w" by (auto dest: arg_cong [where f = g_Bans])
qed

end
