(* ===== verification/Api_Routes.thy ===== *)
theory Api_Routes
  imports Http Rcon_Commands
begin

text \<open>
  The REST endpoints (\<^verbatim>\<open>src/src/api/api_routes.h\<close>, \<^verbatim>\<open>player_routes.cpp\<close>,
  \<^verbatim>\<open>system_routes.cpp\<close>): every route handler as a function of the request and the program's
  state, and their registration with the HTTP server.
\<close>

section \<open>Responses\<close>

definition JsonResponse :: "string \<Rightarrow> HttpResponse" where
  "JsonResponse body = (Response 200)\<lparr>resp_body := body\<rparr>"

definition Error :: "int \<Rightarrow> string \<Rightarrow> HttpResponse" where
  "Error status message = (Response status)\<lparr>resp_body := obj [(''error'', Q message)]\<rparr>"

definition EngineUnavailable :: HttpResponse where
  "EngineUnavailable = Error 503 ''Engine not initialized''"

definition Ok :: "string \<Rightarrow> HttpResponse" where
  "Ok message = JsonResponse (obj [(''status'', Q ''ok''), (''message'', Q message)])"


section \<open>Player routes\<close>

definition query_filter :: "dict \<Rightarrow> string \<Rightarrow> (PlayerInfo \<Rightarrow> string) \<Rightarrow> PlayerInfo list \<Rightarrow> PlayerInfo list" where
  "query_filter q key field ps =
     (case q key of
        None \<Rightarrow> ps
      | Some v \<Rightarrow> (if v = [] then ps else filter (\<lambda>p. Lower (field p) = Lower v) ps))"

type_synonym route = "HttpRequest \<Rightarrow> World \<Rightarrow> HttpResponse \<times> World"

definition get_players :: route where
  "get_players req w =
     (if \<not> EngineReady w then (EngineUnavailable, w)
      else
        (let q = req_query req;
             ps = query_filter q ''characterGuid'' characterGuid
                    (query_filter q ''netId'' uniqueNetId
                      (query_filter q ''characterName'' characterName
                        (query_filter q ''name'' pl_name (GetAllPlayers (game w)))))
         in (JsonResponse (Players ps), w)))"

text \<open>A required string of the request's body: missing or empty is an error.\<close>

definition required :: "string \<Rightarrow> string \<Rightarrow> string option" where
  "required body key = (case GetString body key of None \<Rightarrow> None | Some v \<Rightarrow> (if v = [] then None else Some v))"

definition post_kick :: route where
  "post_kick req w =
     (if \<not> EngineReady w then (EngineUnavailable, w)
      else case required (req_body req) ''player'' of
        None \<Rightarrow> (Error 400 ''player required (name, characterName, netId or playerId)'', w)
      | Some target \<Rightarrow>
          (case KickPlayer target (GetString_or (req_body req) ''reason'' ''Kicked by an administrator'') w of
             (Some e, w') \<Rightarrow> (Error 500 e, w')
           | (None, w') \<Rightarrow> (Ok (''kicked '' @ target), w')))"

definition post_broadcast :: route where
  "post_broadcast req w =
     (if \<not> EngineReady w then (EngineUnavailable, w)
      else case required (req_body req) ''message'' of
        None \<Rightarrow> (Error 400 ''message required'', w)
      | Some message \<Rightarrow>
          (let sender = GetString_or (req_body req) ''sender'' ''Server'';
               line = (if sender = [] then message else ''['' @ sender @ ''] '' @ message)
           in case Broadcast line w of
                (Some e, w') \<Rightarrow> (Error 500 e, w')
              | (None, w') \<Rightarrow> (Ok ''broadcast sent'', w')))"

definition post_give :: route where
  "post_give req w =
     (if \<not> EngineReady w then (EngineUnavailable, w)
      else case required (req_body req) ''player'' of
        None \<Rightarrow> (Error 400 ''player required'', w)
      | Some player \<Rightarrow>
          (case required (req_body req) ''item'' of
             None \<Rightarrow> (Error 400 ''item required'', w)
           | Some item \<Rightarrow>
               (let (ok, message, w') = GiveItem player item (GetInt_or (req_body req) ''count'' 1) w
                in (if \<not> ok then Error 500 message else Ok message, w'))))"

definition get_items :: route where
  "get_items req w =
     (if \<not> EngineReady w then (EngineUnavailable, w)
      else
        (let flt = (case req_query req ''search'' of None \<Rightarrow> [] | Some v \<Rightarrow> Lower v);
             shown = filter (item_matches flt) (ListLoaded (game w))
         in (JsonResponse (obj [(''items'', arr (map (\<lambda>i. obj [(''name'', Q (item_name i)),
               (''maxStackSize'', to_string (maxStackSize i))]) shown))]), w)))"

definition post_ban :: route where
  "post_ban req w =
     (if \<not> EngineReady w then (EngineUnavailable, w)
      else case required (req_body req) ''player'' of
        None \<Rightarrow> (Error 400 ''player required (name, netId or SteamID64 for offline players)'', w)
      | Some player \<Rightarrow>
          (let (ok, message, w') = Ban (clock_text (game w)) player
                 (GetString_or (req_body req) ''reason'' ''Banned by an administrator'') w
           in (if \<not> ok then Error 500 message else Ok message, w')))"

definition post_unban :: route where
  "post_unban req w =
     (case required (req_body req) ''player'' of
        None \<Rightarrow> (Error 400 ''player required (name or SteamID64)'', w)
      | Some player \<Rightarrow>
          (let (ok, message, w') = Unban player w
           in (if \<not> ok then Error 404 message else Ok message, w')))"

definition get_bans :: route where
  "get_bans req w =
     (JsonResponse (obj [(''bans'', arr (map (\<lambda>b. obj [(''netId'', Q (ban_netId b)), (''name'', Q (ban_name b)),
        (''reason'', Q (ban_reason b)), (''bannedAt'', Q (ban_bannedAt b))]) (g_Bans w)))]), w)"


section \<open>System routes\<close>

definition lit :: "string \<Rightarrow> string" where
  "lit s = [QUOTE] @ s @ [QUOTE]"

definition get_hello :: route where
  "get_hello req w =
     (JsonResponse (obj [(''message'', lit ''Hello from RSDWRestAPI!''), (''status'', lit ''ok'')]), w)"

definition get_health :: route where
  "get_health req w =
     (JsonResponse (obj
        [(''status'', lit (if EngineReady w then ''healthy'' else ''starting'')),
         (''version'', lit Version),
         (''uptimeSeconds'', snprintf 32 (fixed 1 (fp_of (UptimeSeconds (clock (game w)) (runtime (game w)))))),
         (''engineReady'', Serialize_Bool (EngineReady w))]), w)"


section \<open>Registration\<close>

text \<open>The handlers of the source do not throw.\<close>

definition no_throw :: "route \<Rightarrow> World RouteHandler" where
  "no_throw h req w = (case h req w of (resp, w') \<Rightarrow> (Some resp, w'))"

definition RegisterSystem :: "World HttpServer \<Rightarrow> World HttpServer" where
  "RegisterSystem s = Get ''/api/health'' (no_throw get_health) (Get ''/api/hello'' (no_throw get_hello) s)"

definition RegisterPlayers :: "World HttpServer \<Rightarrow> World HttpServer" where
  "RegisterPlayers s =
     Get ''/api/bans'' (no_throw get_bans)
     (Post ''/api/unban'' (no_throw post_unban)
     (Post ''/api/ban'' (no_throw post_ban)
     (Get ''/api/items'' (no_throw get_items)
     (Post ''/api/give'' (no_throw post_give)
     (Post ''/api/broadcast'' (no_throw post_broadcast)
     (Post ''/api/kick'' (no_throw post_kick)
     (Get ''/api/players'' (no_throw get_players) s)))))))"

definition ApiRoutes_RegisterAll :: "World HttpServer \<Rightarrow> World HttpServer" where
  "ApiRoutes_RegisterAll s = RegisterPlayers (RegisterSystem s)"

definition mk_route :: "string \<Rightarrow> string \<Rightarrow> route \<Rightarrow> World RouteEntry" where
  "mk_route m p h = \<lparr>route_method = m, route_path = p, route_handler = no_throw h\<rparr>"

lemma api_routes:
  "routes (ApiRoutes_RegisterAll s) = routes s @
     [mk_route ''GET'' ''/api/hello'' get_hello, mk_route ''GET'' ''/api/health'' get_health,
      mk_route ''GET'' ''/api/players'' get_players, mk_route ''POST'' ''/api/kick'' post_kick,
      mk_route ''POST'' ''/api/broadcast'' post_broadcast, mk_route ''POST'' ''/api/give'' post_give,
      mk_route ''GET'' ''/api/items'' get_items, mk_route ''POST'' ''/api/ban'' post_ban,
      mk_route ''POST'' ''/api/unban'' post_unban, mk_route ''GET'' ''/api/bans'' get_bans]"
  by (simp add: ApiRoutes_RegisterAll_def RegisterPlayers_def RegisterSystem_def Get_def Post_def Route_def mk_route_def)

lemma mk_route_simps [simp]:
  "route_method (mk_route m p h) = m" "route_path (mk_route m p h) = p" "route_handler (mk_route m p h) = no_throw h"
  by (simp_all add: mk_route_def)


section \<open>Lemmas\<close>

lemma get_routes_readonly [simp]:
  "snd (get_hello req w) = w" "snd (get_health req w) = w" "snd (get_players req w) = w"
  "snd (get_items req w) = w" "snd (get_bans req w) = w"
  by (simp_all add: get_hello_def get_health_def get_players_def get_items_def get_bans_def Let_def)

lemma snd_no_throw [simp]: "snd (no_throw h req w) = snd (h req w)"
  by (simp add: no_throw_def split_beta)

lemma json_Error [simp]: "json_value (resp_body (Error st m))"
  by (simp add: Error_def json_simps)

lemma json_Ok [simp]: "json_value (resp_body (Ok m))"
  by (simp add: Ok_def JsonResponse_def json_simps)

lemma resp_json [simp]: "resp_body (JsonResponse b) = b"
  by (simp add: JsonResponse_def)

lemma json_lit: "json_chars s \<Longrightarrow> json_value (lit s)"
  using jstring [of s] by (simp add: lit_def)

lemma json_EngineUnavailable [simp]: "json_value (resp_body EngineUnavailable)"
  by (simp add: EngineUnavailable_def)

lemma json_list: "(\<And>x. x \<in> set xs \<Longrightarrow> json_value (f x)) \<Longrightarrow> json_value (arr (map f xs))"
  by (rule json_arr) (simp add: list_all_iff)

lemma query_filter_subset: "set (query_filter q k f ps) \<subseteq> set ps"
  by (auto simp: query_filter_def split: option.splits)

lemma json_get_players:
  assumes "list_all player_ok (GetAllPlayers (game w))"
  shows "json_value (resp_body (fst (get_players req w)))"
proof -
  have "list_all player_ok (query_filter q k f ps)" if "list_all player_ok ps" for q k f ps
    using that query_filter_subset [of q k f ps] by (auto simp: list_all_iff)
  with assms show ?thesis by (simp add: get_players_def Let_def json_Players)
qed

lemma json_changing:
  "json_value (resp_body (fst (post_kick req w)))" "json_value (resp_body (fst (post_broadcast req w)))"
  "json_value (resp_body (fst (post_give req w)))" "json_value (resp_body (fst (post_ban req w)))"
  "json_value (resp_body (fst (post_unban req w)))"
  by (simp_all add: post_kick_def post_broadcast_def post_give_def post_ban_def post_unban_def Let_def
      split: option.splits prod.splits)

text \<open>An uptime of a process: not negative and below \<open>10 ^ 20\<close> seconds.\<close>

definition uptime_ok :: "World \<Rightarrow> bool" where
  "uptime_ok w = (let u = UptimeSeconds (clock (game w)) (runtime (game w)) in 0 \<le> u \<and> u \<le> 10 ^ 20)"

lemma json_fixed1:
  assumes "0 \<le> q" "q \<le> 10 ^ 20"
  shows "json_value (snprintf 32 (fixed (Suc 0) (fp_of q)))"
proof -
  define n where "n = nat (round_even (q * 10))"
  have "q * 10 \<le> of_int (10 ^ 21)" using assms(2) by simp
  then have "round_even (q * 10) \<le> 10 ^ 21" by (rule round_even_le)
  then have "n \<le> 10 ^ 21" by (simp add: n_def nat_le_iff)
  then have "n div 10 < 10 ^ Suc 20" by simp
  then have l1: "length (show_nat (n div 10)) \<le> Suc 20" by (rule length_show_nat)
  have l2: "length (show_nat (n mod 10)) \<le> Suc 0" by (rule length_show_nat) simp
  have f: "fixed (Suc 0) (fp_of q) = [] @ show_nat (n div 10) @ ''.'' @ zeros (Suc 0) (show_nat (n mod 10))"
    using assms(1) by (simp add: fp_of_def n_def Let_def sign_def)
  have "length (fixed (Suc 0) (fp_of q)) \<le> 31"
    using l1 l2 zeros_length [of "show_nat (n mod 10)" "Suc 0"] by (simp add: f)
  moreover have "json_value (fixed (Suc 0) (fp_of q))"
    unfolding f using show_nat_digits [of _ "n mod 10"]
    by (intro json_numberI) (auto simp: zeros_def list_all_iff is_digit_def)
  ultimately show ?thesis by (simp add: snprintf_def)
qed

lemma json_reading:
  "json_value (resp_body (fst (get_hello req w)))" "json_value (resp_body (fst (get_items req w)))"
  "json_value (resp_body (fst (get_bans req w)))"
  "uptime_ok w \<Longrightarrow> json_value (resp_body (fst (get_health req w)))"
  by (auto simp: get_hello_def get_items_def get_bans_def get_health_def Version_def uptime_ok_def Let_def
      intro!: json_obj json_list json_Q json_to_string json_Bool json_fixed1 json_lit)


section \<open>Properties\<close>



lemma dispatch_effect:
  assumes "snd (dispatch (routes (ApiRoutes_RegisterAll new_HttpServer)) req w) \<noteq> w"
  shows "req_method req = ''POST'' \<and>
    req_path req \<in> {''/api/kick'', ''/api/broadcast'', ''/api/give'', ''/api/ban'', ''/api/unban''}"
proof -
  let ?rs = "routes (ApiRoutes_RegisterAll new_HttpServer)"
  obtain r where r: "find_route ?rs req = Some r"
    using assms by (cases "find_route ?rs req") (auto simp: dispatch_def)
  then have m: "r \<in> set ?rs" "route_method r = req_method req" "route_path r = req_path req"
    by (auto simp: find_route_def find_Some_iff)
  have "snd (route_handler r req w) \<noteq> w"
    using assms r by (auto simp: dispatch_def split: prod.splits option.splits)
  with m show ?thesis by (auto simp: api_routes new_HttpServer_def)
qed

text \<open>
  Reading is safe: a GET request, and any other request that is not one of the five
  registered POST paths, leaves the state of the program as it was.
\<close>
lemma api_get_readonly:
  assumes "snd (dispatch (routes (ApiRoutes_RegisterAll new_HttpServer)) req w) \<noteq> w"
  shows "req_method req = ''POST'' \<and>
    req_path req \<in> {''/api/kick'', ''/api/broadcast'', ''/api/give'', ''/api/ban'', ''/api/unban''}"
  by (rule dispatch_effect [OF assms])


lemma api_get_readonly_witness:
  "req_path \<lparr>req_method = ''POST'', req_path = ''/api/unban'', req_body = json_object [(''player'', ''Ann'')],
     req_headers = Map.empty, req_query = Map.empty\<rparr> \<in>
   {''/api/kick'', ''/api/broadcast'', ''/api/give'', ''/api/ban'', ''/api/unban''}"
proof -
  let ?req = "\<lparr>req_method = ''POST'', req_path = ''/api/unban'', req_body = json_object [(''player'', ''Ann'')],
     req_headers = Map.empty, req_query = Map.empty\<rparr>"
  let ?w = "demo_world\<lparr>g_Bans := [ban_entry ''t'' ''1'' ''Ann'' ''r'']\<rparr>"
  have "GetString (''{'' @ json_fields ([] @ (''player'', ''Ann'') # []) @ ''}'') ''player'' = Some (filter printable ''Ann'')"
    by (rule GetString_object) (simp_all add: plain_key_def)
  then have "required (json_object [(''player'', ''Ann'')]) ''player'' = Some ''Ann''"
    by (simp add: required_def json_object_def printable_def)
  moreover have "g_Bans (snd (snd (Unban ''Ann'' ?w))) = []" by (simp add: Unban_def ban_entry_def)
  moreover have "find_route (routes (ApiRoutes_RegisterAll new_HttpServer)) ?req = Some (mk_route ''POST'' ''/api/unban'' post_unban)"
    by (simp add: find_route_def api_routes new_HttpServer_def)
  ultimately have "g_Bans (snd (dispatch (routes (ApiRoutes_RegisterAll new_HttpServer)) ?req ?w)) = []"
    by (simp add: dispatch_def no_throw_def post_unban_def split_beta)
  then have "snd (dispatch (routes (ApiRoutes_RegisterAll new_HttpServer)) ?req ?w) \<noteq> ?w"
    by (auto dest: arg_cong [where f = g_Bans])
  from api_get_readonly [OF this] show ?thesis by blast
qed

end
