(* ===== verification/Discord.thy ===== *)
theory Discord
  imports Access_Control Json
begin

text \<open>
  The Discord relay (\<^verbatim>\<open>src/src/discord/webhook.cpp\<close>): the check of the webhook URL, the shell
  command that posts a message, the bounded queue and its batching, and the life cycle of
  a sender. The command goes through \<^verbatim>\<open>popen\<close>, hence through a POSIX shell, whose word
  splitting is specified by \<open>sh_words\<close>; the main result is that the shell sees exactly the
  intended arguments, whatever a player writes in the chat.
\<close>

section \<open>The webhook URL and the command\<close>

definition url_forbidden :: "char list" where
  "url_forbidden = [APOS, QUOTE, CHR 0x60, CHR ''$'', CHR '';'', CHR ''|'', CHR ''&'', CHR ''<'', CHR ''>'', BSLASH, LF, CR]"

definition UrlIsSafe :: "string \<Rightarrow> bool" where
  "UrlIsSafe url = (starts_with ''https://'' url \<and> \<not> list_ex (\<lambda>c. c \<in> set url_forbidden) url)"

definition payload :: "string \<Rightarrow> string \<Rightarrow> string" where
  "payload username content =
     ''{'' @ [QUOTE] @ ''username'' @ [QUOTE] @ '':'' @ [QUOTE] @ Escape username @ [QUOTE] @ '','' @
     [QUOTE] @ ''content'' @ [QUOTE] @ '':'' @ [QUOTE] @ Escape content @ [QUOTE] @ '','' @
     [QUOTE] @ ''allowed_mentions'' @ [QUOTE] @ '':{'' @ [QUOTE] @ ''parse'' @ [QUOTE] @ '':[]}}''"

definition shell_quote :: "string \<Rightarrow> string" where
  "shell_quote s = [APOS] @ concat (map (\<lambda>c. if c = APOS then [APOS, BSLASH, APOS, APOS] else [c]) s) @ [APOS]"

definition curl_command :: "string \<Rightarrow> string \<Rightarrow> string" where
  "curl_command data url =
     ''curl -s -o /dev/null -m 10 -X POST -H '' @ [APOS] @ ''Content-Type: application/json'' @ [APOS] @ '' -d '' @
     shell_quote data @ '' '' @ [APOS] @ url @ [APOS]"


section \<open>The sender\<close>

record Sender =
  s_url :: string
  s_username :: string
  s_enabled :: bool
  s_running :: bool
  s_queue :: "string list"

definition new_Sender :: Sender where
  "new_Sender = \<lparr>s_url = [], s_username = ''Dragonwilds'', s_enabled = False, s_running = False, s_queue = []\<rparr>"

text \<open>The string handed to \<^verbatim>\<open>popen\<close> by \<^verbatim>\<open>Send\<close>.\<close>

definition Send :: "string \<Rightarrow> Sender \<Rightarrow> string" where
  "Send content s = c_str (curl_command (payload (s_username s) content) (s_url s))"

text \<open>The inner loop of \<^verbatim>\<open>Run\<close>: it moves lines from the queue to the batch.\<close>

fun fill_batch :: "string \<Rightarrow> string list \<Rightarrow> string \<times> string list" where
  "fill_batch batch [] = (batch, [])"
| "fill_batch batch (line # queue) =
     (if batch \<noteq> [] \<and> length batch + length line + 1 > 1900 then (batch, line # queue)
      else fill_batch ((if batch \<noteq> [] then batch @ [LF] else batch) @ line) queue)"

text \<open>
  One iteration of \<^verbatim>\<open>Run\<close>: whether the thread goes on, the command run (if any), and the
  sender afterwards.
\<close>

definition Run_step :: "Sender \<Rightarrow> bool \<times> string option \<times> Sender" where
  "Run_step s =
     (if \<not> s_running s \<and> s_queue s = [] then (False, None, s)
      else
        (let (batch, queue) = fill_batch [] (s_queue s); s' = s\<lparr>s_queue := queue\<rparr>
         in (s_running s', if batch \<noteq> [] then Some (Send batch s') else None, s')))"

definition Sender_Start :: "string \<Rightarrow> string \<Rightarrow> Sender \<Rightarrow> Sender" where
  "Sender_Start webhookUrl webhookUsername s =
     (if s_enabled s then s
      else if webhookUrl = [] then s
      else if \<not> UrlIsSafe webhookUrl then s
      else s\<lparr>s_url := webhookUrl,
             s_username := (if webhookUsername \<noteq> [] then webhookUsername else s_username s),
             s_enabled := True, s_running := True\<rparr>)"

definition Sender_Stop :: "Sender \<Rightarrow> Sender" where
  "Sender_Stop s = (if \<not> s_running s then s else s\<lparr>s_running := False, s_enabled := False\<rparr>)"

definition Sender_Post :: "string \<Rightarrow> Sender \<Rightarrow> Sender" where
  "Sender_Post line s =
     (if \<not> s_enabled s \<or> line = [] then s
      else s\<lparr>s_queue := (if length (s_queue s) \<ge> 200 then tl (s_queue s) else s_queue s) @ [line]\<rparr>)"

datatype Channel = Chat | Deaths

type_synonym Discord = "Channel \<Rightarrow> Sender"

definition Discord_Start :: "Channel \<Rightarrow> string \<Rightarrow> string \<Rightarrow> Discord \<Rightarrow> Discord" where
  "Discord_Start ch url user d = d(ch := Sender_Start url user (d ch))"

definition Discord_Post :: "Channel \<Rightarrow> string \<Rightarrow> Discord \<Rightarrow> Discord" where
  "Discord_Post ch line d = d(ch := Sender_Post line (d ch))"

definition Discord_Stop :: "Discord \<Rightarrow> Discord" where
  "Discord_Stop d = d(Chat := Sender_Stop (d Chat), Deaths := Sender_Stop (d Deaths))"


section \<open>The words of a shell command\<close>

text \<open>
  The part of the POSIX shell's token recognition that the command uses: blanks separate
  words, single quotes keep everything up to the next one, a backslash outside quotes keeps
  the next character. Any character that can start an expansion, a redirection or another
  command makes the result \<^term>\<open>None\<close>.
\<close>

definition sh_special :: "char \<Rightarrow> bool" where
  "sh_special c = (c \<in> set [QUOTE, CHR ''$'', CHR 0x60, CHR '';'', CHR ''|'', CHR ''&'', CHR ''<'', CHR ''>'',
     CHR ''('', CHR '')'', CHR ''*'', CHR ''?'', CHR ''['', CHR ''#'', CHR ''~'', CHR ''{'', CHR ''}'', CHR ''!'', LF, NUL])"

definition word_done :: "string option \<Rightarrow> string list" where
  "word_done w = (case w of None \<Rightarrow> [] | Some v \<Rightarrow> [v])"

definition add_text :: "string option \<Rightarrow> string \<Rightarrow> string option" where
  "add_text w t = Some ((case w of None \<Rightarrow> [] | Some v \<Rightarrow> v) @ t)"

function sh_lex :: "string option \<Rightarrow> string \<Rightarrow> string list option" where
  "sh_lex w [] = Some (word_done w)"
| "sh_lex w (c # s) =
     (if blank c then map_option (\<lambda>ws. word_done w @ ws) (sh_lex None s)
      else if c = APOS then
        (case find_char APOS s of None \<Rightarrow> None | Some i \<Rightarrow> sh_lex (add_text w (take i s)) (drop (i + 1) s))
      else if c = BSLASH then (case s of [] \<Rightarrow> None | d # s' \<Rightarrow> sh_lex (add_text w [d]) s')
      else if sh_special c then None
      else sh_lex (add_text w [c]) s)"
  by pat_completeness auto
termination
  by (relation "measure (\<lambda>(w, s). length s)") auto

definition sh_words :: "string \<Rightarrow> string list option" where
  "sh_words s = sh_lex None s"

lemma sh_lex_quoted:
  "APOS \<notin> set t \<Longrightarrow> sh_lex w ([APOS] @ t @ [APOS] @ s) = sh_lex (add_text w t) s"
  by simp

text \<open>Inside the quotes of \<open>shell_quote\<close> the text before the first apostrophe is kept whole.\<close>

lemma sh_lex_shell_quote: "sh_lex w (shell_quote t @ s) = sh_lex (add_text w t) s"
proof (induction "length t" arbitrary: t w rule: less_induct)
  case less
  let ?q = "\<lambda>t. concat (map (\<lambda>c. if c = APOS then [APOS, BSLASH, APOS, APOS] else [c]) t)"
  have plain: "?q a = a" if "APOS \<notin> set a" for a using that by (induction a) auto
  show ?case
  proof (cases "APOS \<in> set t")
    case False
    then have "shell_quote t @ s = [APOS] @ t @ [APOS] @ s" by (simp add: shell_quote_def plain)
    with False show ?thesis by (simp only: sh_lex_quoted not_False_eq_True)
  next
    case True
    then obtain a b where ab: "t = a @ APOS # b" "APOS \<notin> set a" by (meson split_list_first)
    have "shell_quote t @ s = [APOS] @ a @ [APOS] @ [BSLASH, APOS] @ shell_quote b @ s"
      by (simp add: shell_quote_def ab plain)
    then have "sh_lex w (shell_quote t @ s) = sh_lex (add_text w a) ([BSLASH, APOS] @ shell_quote b @ s)"
      using sh_lex_quoted [OF ab(2)] by simp
    also have "\<dots> = sh_lex (add_text (add_text w a) [APOS]) (shell_quote b @ s)" by simp
    also have "\<dots> = sh_lex (add_text (add_text (add_text w a) [APOS]) b) s"
      using less [of b] by (simp add: ab(1))
    finally show ?thesis by (simp add: add_text_def ab(1))
  qed
qed

definition curl_words :: "string list" where
  "curl_words = [''curl'', ''-s'', ''-o'', ''/dev/null'', ''-m'', ''10'', ''-X'', ''POST'', ''-H'', ''Content-Type: application/json'', ''-d'']"

lemma curl_prefix:
  "sh_lex None (''curl -s -o /dev/null -m 10 -X POST -H '' @ [APOS] @ ''Content-Type: application/json'' @ [APOS] @ '' -d '' @ s) =
     map_option (\<lambda>ws. curl_words @ ws) (sh_lex None s)"
  by (simp add: sh_special_def add_text_def word_done_def curl_words_def option.map_comp comp_def)

lemma sh_words_curl:
  assumes "APOS \<notin> set url"
  shows "sh_words (curl_command data url) = Some (curl_words @ [data, url])"
proof -
  have "sh_lex None (shell_quote data @ '' '' @ [APOS] @ url @ [APOS]) = Some [data, url]"
    using assms sh_lex_quoted [of url None "[]"] by (simp add: sh_lex_shell_quote add_text_def word_done_def)
  then show ?thesis
    using curl_prefix [of "shell_quote data @ '' '' @ [APOS] @ url @ [APOS]"]
    by (simp add: sh_words_def curl_command_def)
qed

lemma payload_no_NUL: "NUL \<notin> set (payload u t)"
proof -
  have "NUL \<notin> set (Escape s)" for s using Escape_no_control [of NUL s] by auto
  then show ?thesis by (simp add: payload_def)
qed

lemma curl_no_NUL: "NUL \<notin> set data \<Longrightarrow> NUL \<notin> set url \<Longrightarrow> NUL \<notin> set (curl_command data url)"
  by (auto simp: curl_command_def shell_quote_def split: if_splits)

lemma c_str_id: "NUL \<notin> set s \<Longrightarrow> c_str s = s"
  by (auto simp: c_str_def takeWhile_eq_all_conv)


section \<open>The queue\<close>

definition queue_ok :: "Sender \<Rightarrow> bool" where
  "queue_ok s = (length (s_queue s) \<le> 200 \<and> [] \<notin> set (s_queue s) \<and> (s_enabled s \<longrightarrow> UrlIsSafe (s_url s)))"

lemma queue_ok_Post: "queue_ok s \<Longrightarrow> queue_ok (Sender_Post line s)"
  by (cases "s_queue s") (auto simp: queue_ok_def Sender_Post_def)

lemma queue_ok_Start: "queue_ok s \<Longrightarrow> queue_ok (Sender_Start u n s)"
  by (auto simp: queue_ok_def Sender_Start_def)

lemma queue_ok_Stop: "queue_ok s \<Longrightarrow> queue_ok (Sender_Stop s)"
  by (auto simp: queue_ok_def Sender_Stop_def)

fun join_lines :: "string list \<Rightarrow> string" where
  "join_lines [] = []"
| "join_lines [l] = l"
| "join_lines (l # m # ls) = l @ LF # join_lines (m # ls)"

lemma join_lines_snoc: "ls \<noteq> [] \<Longrightarrow> join_lines (ls @ [l]) = join_lines ls @ LF # l"
  by (induction ls rule: join_lines.induct) auto

lemma fill_batch_more:
  "ls \<noteq> [] \<Longrightarrow> join_lines ls \<noteq> [] \<Longrightarrow> length ls > 1 \<longrightarrow> length (join_lines ls) \<le> 1900 \<Longrightarrow>
     \<exists>taken later. q = taken @ later \<and> fill_batch (join_lines ls) q = (join_lines (ls @ taken), later) \<and>
       (length (ls @ taken) > 1 \<longrightarrow> length (join_lines (ls @ taken)) \<le> 1900)"
proof (induction q arbitrary: ls)
  case (Cons l q)
  show ?case
  proof (cases "length (join_lines ls) + length l + 1 > 1900")
    case True
    with Cons.prems show ?thesis by - (rule exI [of _ "[]"], rule exI [of _ "l # q"], simp)
  next
    case False
    have j: "join_lines (ls @ [l]) = join_lines ls @ LF # l" by (rule join_lines_snoc [OF Cons.prems(1)])
    obtain taken later where t: "q = taken @ later"
        "fill_batch (join_lines (ls @ [l])) q = (join_lines ((ls @ [l]) @ taken), later)"
        "length ((ls @ [l]) @ taken) > 1 \<longrightarrow> length (join_lines ((ls @ [l]) @ taken)) \<le> 1900"
      using Cons.IH [of "ls @ [l]"] False by (auto simp: j)
    then show ?thesis
      using False Cons.prems(2) by - (rule exI [of _ "l # taken"], rule exI [of _ later], simp add: j)
  qed
qed simp

lemma fill_batch_split:
  assumes "q \<noteq> []" "[] \<notin> set q"
  shows "\<exists>taken later. q = taken @ later \<and> taken \<noteq> [] \<and> fill_batch [] q = (join_lines taken, later) \<and>
    (length taken > 1 \<longrightarrow> length (join_lines taken) \<le> 1900)"
proof -
  obtain l q' where q: "q = l # q'" "l \<noteq> []" using assms by (cases q) auto
  from fill_batch_more [of "[l]" q'] q(2) obtain taken later where
    "q' = taken @ later" "fill_batch l q' = (join_lines (l # taken), later)"
    "length (l # taken) > 1 \<longrightarrow> length (join_lines (l # taken)) \<le> 1900" by auto
  then show ?thesis using q by - (rule exI [of _ "l # taken"], rule exI [of _ later], simp)
qed


section \<open>Properties\<close>

text \<open>
  C11: A chat message cannot reach the shell: for a webhook URL that passed the check, the
  words the shell makes of the command are the fixed options of \<^verbatim>\<open>curl\<close>, the JSON payload as
  one argument and the URL as one argument, whatever bytes the message and the user name
  contain.
\<close>
theorem discord_no_injection:
  assumes "UrlIsSafe (s_url s)" "NUL \<notin> set (s_url s)"
  shows "sh_words (Send content s) = Some (curl_words @ [payload (s_username s) content, s_url s])"
proof -
  have "APOS \<notin> set (s_url s)" using assms(1) by (auto simp: UrlIsSafe_def url_forbidden_def list_ex_iff)
  with assms(2) show ?thesis
    by (simp add: Send_def c_str_id curl_no_NUL payload_no_NUL sh_words_curl)
qed

theorem discord_no_injection_witness:
  "sh_words (Send ([APOS] @ ''; rm -rf / #'' @ [APOS, LF] @ ''$(id)'') (new_Sender\<lparr>s_url := ''https://d/x''\<rparr>)) =
     Some (curl_words @ [payload ''Dragonwilds'' ([APOS] @ ''; rm -rf / #'' @ [APOS, LF] @ ''$(id)''), ''https://d/x''])"
  using discord_no_injection [of "new_Sender\<lparr>s_url := ''https://d/x''\<rparr>" "[APOS] @ ''; rm -rf / #'' @ [APOS, LF] @ ''$(id)''"]
  by (simp add: UrlIsSafe_def url_forbidden_def new_Sender_def starts_with_def)

text \<open>
  The worker sends every queued line once and in order: an iteration takes a non-empty
  prefix of a non-empty queue, joined by line feeds, and a batch of more than one line stays
  within 1900 bytes.
\<close>
lemma discord_batch:
  assumes "queue_ok s" "s_queue s \<noteq> []"
  shows "\<exists>taken later. s_queue s = taken @ later \<and> taken \<noteq> [] \<and>
    Run_step s = (s_running s, Some (Send (join_lines taken) (s\<lparr>s_queue := later\<rparr>)), s\<lparr>s_queue := later\<rparr>) \<and>
    (length taken > 1 \<longrightarrow> length (join_lines taken) \<le> 1900)"
proof -
  obtain taken later where t: "s_queue s = taken @ later" "taken \<noteq> []" "fill_batch [] (s_queue s) = (join_lines taken, later)"
      "length taken > 1 \<longrightarrow> length (join_lines taken) \<le> 1900"
    using fill_batch_split [of "s_queue s"] assms by (auto simp: queue_ok_def)
  moreover have "join_lines taken \<noteq> []"
    using t(1,2) assms(1) by (cases taken rule: join_lines.cases) (auto simp: queue_ok_def)
  ultimately show ?thesis using assms(2) by - (rule exI [of _ taken], rule exI [of _ later], simp add: Run_step_def Let_def)
qed

lemma discord_batch_witness:
  "\<exists>taken later. [''a'', ''b''] = taken @ later \<and> taken \<noteq> []"
  using discord_batch [of "new_Sender\<lparr>s_queue := [''a'', ''b'']\<rparr>"] by (auto simp: queue_ok_def new_Sender_def)

end
