(* ===== verification/Game_Thread.thy ===== *)
theory Game_Thread
  imports Prelude "HOL-Library.Sublist"
begin

text \<open>
  The job queue that carries work onto the game thread (\<^verbatim>\<open>Drain\<close>, \<^verbatim>\<open>HookedProcessEvent\<close>,
  \<^verbatim>\<open>PumpThunk\<close> and \<^verbatim>\<open>RunSync\<close> of \<^verbatim>\<open>src/src/engine/process_event.cpp\<close>). A job lives on the
  stack of the caller of \<^verbatim>\<open>RunSync\<close>. The operations are the sections the code runs under
  \<^verbatim>\<open>g_QueueMutex\<close>, plus the execution of a job's work between two of them; any number of
  drains and callers interleave in \<open>job_step\<close>: the hooks can be entered again from inside a
  job (the work calls into the game) and from other engine threads. The clock only decides
  whether a waiting caller may time out, so a time-out is a step that can happen whenever the
  job is not done.
\<close>

section \<open>The queue\<close>

text \<open>
  Of the fields \<open>g_Ready\<close>, \<open>g_Queue\<close> and \<open>job_done\<close> (the \<^verbatim>\<open>done\<close> flags) are the code's. The
  others record what happened: \<open>running\<close> the jobs taken and not finished, \<open>live\<close> the jobs
  whose \<^verbatim>\<open>RunSync\<close> frame still exists, \<open>started\<close> the jobs taken from the queue in order,
  \<open>inline_run\<close> the work done in the caller because it was on the game thread, \<open>returned\<close> what
  \<^verbatim>\<open>RunSync\<close> returned, \<open>submitted\<close> all jobs ever queued.
\<close>

record JobQueue =
  g_Ready :: bool
  g_Queue :: "nat list"
  job_done :: "nat set"
  running :: "nat list"
  live :: "nat set"
  started :: "nat list"
  inline_run :: "nat list"
  returned :: "nat \<rightharpoonup> bool"
  submitted :: "nat list"

definition new_JobQueue :: JobQueue where
  "new_JobQueue = \<lparr>g_Ready = False, g_Queue = [], job_done = {}, running = [], live = {}, started = [],
     inline_run = [], returned = Map.empty, submitted = []\<rparr>"

text \<open>
  \<^verbatim>\<open>RunSync\<close> up to its wait: refused before the pump is ready, run in place on the game
  thread, else queued.
\<close>

definition RunSync_submit :: "bool \<Rightarrow> nat \<Rightarrow> JobQueue \<Rightarrow> JobQueue" where
  "RunSync_submit onGameThread j q =
     (if \<not> g_Ready q then q\<lparr>returned := (returned q)(j \<mapsto> False)\<rparr>
      else if onGameThread
           then q\<lparr>inline_run := inline_run q @ [j], returned := (returned q)(j \<mapsto> True)\<rparr>
      else q\<lparr>g_Queue := g_Queue q @ [j], live := insert j (live q), submitted := submitted q @ [j]\<rparr>)"

definition RunSync_wake :: "nat \<Rightarrow> JobQueue \<Rightarrow> JobQueue" where
  "RunSync_wake j q = q\<lparr>live := live q - {j}, returned := (returned q)(j \<mapsto> True)\<rparr>"

definition RunSync_timeout :: "nat \<Rightarrow> JobQueue \<Rightarrow> JobQueue" where
  "RunSync_timeout j q = q\<lparr>g_Queue := remove1 j (g_Queue q), live := live q - {j}, returned := (returned q)(j \<mapsto> False)\<rparr>"

definition Drain_pop :: "JobQueue \<Rightarrow> JobQueue" where
  "Drain_pop q = (case g_Queue q of [] \<Rightarrow> q
     | j # js \<Rightarrow> q\<lparr>g_Queue := js, running := j # running q, started := started q @ [j]\<rparr>)"

definition Drain_run :: "nat \<Rightarrow> JobQueue \<Rightarrow> JobQueue" where
  "Drain_run j q = q\<lparr>running := remove1 j (running q), job_done := insert j (job_done q)\<rparr>"

text \<open>A drain that nothing interrupts.\<close>

function Drain :: "JobQueue \<Rightarrow> JobQueue" where
  "Drain q = (case g_Queue q of [] \<Rightarrow> q | j # js \<Rightarrow> Drain (Drain_run j (Drain_pop q)))"
  by pat_completeness auto
termination
  by (relation "measure (\<lambda>q. length (g_Queue q))") (auto simp: Drain_run_def Drain_pop_def)

declare Drain.simps [simp del]

inductive job_step :: "JobQueue \<Rightarrow> JobQueue \<Rightarrow> bool" where
  ready: "job_step q (q\<lparr>g_Ready := b\<rparr>)"
| submit: "j \<notin> set (submitted q) \<Longrightarrow> j \<notin> dom (returned q) \<Longrightarrow> job_step q (RunSync_submit b j q)"
| wake: "j \<in> live q \<Longrightarrow> j \<in> job_done q \<Longrightarrow> job_step q (RunSync_wake j q)"
| timeout: "j \<in> live q \<Longrightarrow> j \<notin> job_done q \<Longrightarrow> job_step q (RunSync_timeout j q)"
| pop: "g_Queue q \<noteq> [] \<Longrightarrow> job_step q (Drain_pop q)"
| work: "j \<in> set (running q) \<Longrightarrow> job_step q (Drain_run j q)"

inductive job_steps :: "JobQueue \<Rightarrow> JobQueue \<Rightarrow> bool" where
  none: "job_steps q q"
| more: "job_steps q q' \<Longrightarrow> job_step q' q'' \<Longrightarrow> job_steps q q''"

abbreviation job_reachable :: "JobQueue \<Rightarrow> bool" where
  "job_reachable \<equiv> job_steps new_JobQueue"

inductive_simps job_steps_none [simp]: "job_steps q q"


section \<open>The invariant\<close>

definition job_inv :: "JobQueue \<Rightarrow> bool" where
  "job_inv q = (distinct (submitted q) \<and> subseq (started q @ g_Queue q) (submitted q) \<and>
     distinct (running q) \<and> job_done q \<inter> set (running q) = {} \<and>
     set (started q) = job_done q \<union> set (running q) \<and>
     live q \<subseteq> set (started q @ g_Queue q) \<and> dom (returned q) \<inter> live q = {} \<and>
     set (g_Queue q) \<subseteq> live q \<and>
     set (submitted q) \<subseteq> live q \<union> dom (returned q) \<and> set (inline_run q) \<subseteq> dom (returned q) \<and>
     set (inline_run q) \<inter> set (submitted q) = {} \<and> distinct (inline_run q) \<and>
     (\<forall>j. returned q j = Some True \<longrightarrow> j \<in> job_done q \<union> set (inline_run q)))"

lemma subseq_remove1: "subseq (remove1 j xs) xs"
  by (induction xs) auto

lemma subseq_distinctD: "subseq xs ys \<Longrightarrow> distinct ys \<Longrightarrow> distinct xs"
  by (auto simp: subseq_conv_nths)

lemma subseq_setD: "subseq xs ys \<Longrightarrow> x \<in> set xs \<Longrightarrow> x \<in> set ys"
  by (auto simp: subseq_conv_nths dest: in_set_nthsD)

lemma taken_distinct: "job_inv q \<Longrightarrow> distinct (started q @ g_Queue q)"
  unfolding job_inv_def using subseq_distinctD by blast

lemma taken_submitted: "job_inv q \<Longrightarrow> set (started q @ g_Queue q) \<subseteq> set (submitted q)"
proof
  fix j assume "job_inv q" "j \<in> set (started q @ g_Queue q)"
  then show "j \<in> set (submitted q)" using subseq_setD [of "started q @ g_Queue q"] by (simp add: job_inv_def)
qed

lemma job_inv_new: "job_inv new_JobQueue"
  by (simp add: job_inv_def new_JobQueue_def)

lemma job_inv_submit:
  assumes "j \<notin> set (submitted q)" "j \<notin> dom (returned q)" "job_inv q"
  shows "job_inv (RunSync_submit b j q)"
proof -
  have t: "live q \<subseteq> set (started q @ g_Queue q)" "job_done q \<subseteq> set (started q @ g_Queue q)"
    "set (inline_run q) \<subseteq> dom (returned q)"
    using assms(3) by (auto simp: job_inv_def)
  have "j \<notin> live q" "j \<notin> job_done q" "j \<notin> set (inline_run q)"
    using assms(1,2) t taken_submitted [OF assms(3)] by blast+
  moreover have "subseq (started q @ g_Queue q @ [j]) (submitted q @ [j])"
    using assms(3) list_emb_append_mono [of "(=)" "started q @ g_Queue q" "submitted q" "[j]" "[j]"]
    by (simp add: job_inv_def)
  ultimately show ?thesis using assms by (auto simp: job_inv_def RunSync_submit_def)
qed

lemma job_inv_timeout:
  assumes "j \<in> live q" "j \<notin> job_done q" "job_inv q"
  shows "job_inv (RunSync_timeout j q)"
proof -
  have d: "distinct (g_Queue q)" using taken_distinct [OF assms(3)] by simp
  have "subseq (started q @ remove1 j (g_Queue q)) (started q @ g_Queue q)"
    by (intro list_emb_append_mono subseq_remove1) simp
  then have "subseq (started q @ remove1 j (g_Queue q)) (submitted q)"
    using assms(3) subseq_order.trans by (auto simp: job_inv_def)
  then show ?thesis using assms d by (auto simp: job_inv_def RunSync_timeout_def)
qed

lemma job_inv_pop: "job_inv q \<Longrightarrow> job_inv (Drain_pop q)"
proof (cases "g_Queue q")
  case (Cons i js)
  assume I: "job_inv q"
  have "i \<notin> set (started q)" using taken_distinct [OF I] Cons by simp
  then show ?thesis using I Cons by (auto simp: job_inv_def Drain_pop_def)
qed (simp add: Drain_pop_def)

lemma job_inv_run: "j \<in> set (running q) \<Longrightarrow> job_inv q \<Longrightarrow> job_inv (Drain_run j q)"
  by (auto simp: job_inv_def Drain_run_def)

lemma job_inv_step: "job_step q q' \<Longrightarrow> job_inv q \<Longrightarrow> job_inv q'"
proof (induction rule: job_step.induct)
  case (wake j q)
  then show ?case using taken_distinct [OF wake(3)] by (auto simp: job_inv_def RunSync_wake_def)
qed (auto simp: job_inv_submit job_inv_timeout job_inv_pop job_inv_run, auto simp: job_inv_def)

lemma job_inv_reachable: "job_reachable q \<Longrightarrow> job_inv q"
proof -
  have "job_steps p q \<Longrightarrow> job_inv p \<Longrightarrow> job_inv q" for p
    by (induction rule: job_steps.induct) (auto intro: job_inv_step)
  then show "job_reachable q \<Longrightarrow> job_inv q" using job_inv_new by blast
qed


section \<open>A drain\<close>

lemma job_steps_two: "job_steps p q \<Longrightarrow> job_step q r \<Longrightarrow> job_step r s \<Longrightarrow> job_steps p s"
  by (blast intro: job_steps.more)

lemma Drain_steps: "job_steps p q \<Longrightarrow> job_steps p (Drain q)"
proof (induction q rule: Drain.induct)
  case (1 q)
  show ?case
  proof (cases "g_Queue q")
    case (Cons j js)
    have "job_steps p (Drain_run j (Drain_pop q))" using 1(2)
      by (rule job_steps_two) (auto intro!: job_step.pop job_step.work simp: Cons, simp add: Drain_pop_def Cons)
    then show ?thesis using 1(1) [OF Cons] Cons by (simp add: Drain.simps [of q])
  qed (use 1 in \<open>simp add: Drain.simps [of q]\<close>)
qed

lemma Drain_empty: "g_Queue (Drain q) = []"
  by (induction q rule: Drain.induct) (subst Drain.simps, auto split: list.split)

lemma Drain_done: "job_done (Drain q) = job_done q \<union> set (g_Queue q)"
proof (induction q rule: Drain.induct)
  case (1 q)
  then show ?case
    by (cases "g_Queue q") (auto simp: Drain.simps [of q] Drain_run_def Drain_pop_def)
qed

lemma Drain_started: "started (Drain q) = started q @ g_Queue q"
proof (induction q rule: Drain.induct)
  case (1 q)
  then show ?case
    by (cases "g_Queue q") (auto simp: Drain.simps [of q] Drain_run_def Drain_pop_def)
qed


section \<open>Properties\<close>


definition dangling :: JobQueue where
  "dangling = \<lparr>g_Ready = True, g_Queue = [], job_done = {}, running = [1], live = {}, started = [1],
     inline_run = [], returned = [1 \<mapsto> False], submitted = [1]\<rparr>"

lemma demo_dangling: "job_reachable dangling"
proof -
  have "job_steps new_JobQueue (RunSync_submit False 1 (new_JobQueue\<lparr>g_Ready := True\<rparr>))"
    by (rule job_steps_two [OF job_steps.none job_step.ready [of _ True] job_step.submit]) (simp_all add: new_JobQueue_def)
  then have "job_steps new_JobQueue (Drain_pop (RunSync_submit False 1 (new_JobQueue\<lparr>g_Ready := True\<rparr>)))"
    by (rule job_steps.more, intro job_step.pop) (simp_all add: new_JobQueue_def RunSync_submit_def)
  then have "job_steps new_JobQueue (RunSync_timeout 1 (Drain_pop (RunSync_submit False 1 (new_JobQueue\<lparr>g_Ready := True\<rparr>))))"
    by (rule job_steps.more, intro job_step.timeout) (simp_all add: new_JobQueue_def RunSync_submit_def Drain_pop_def)
  then show ?thesis by (simp add: new_JobQueue_def RunSync_submit_def Drain_pop_def RunSync_timeout_def dangling_def)
qed


text \<open>
  C40: A drain serves everybody who is waiting: after it the queue is empty, it has started
  exactly the queued jobs, in order, and every caller still in \<^verbatim>\<open>RunSync\<close> whose job no other
  drain is running finds its job done, so that its next step returns true.
\<close>
theorem drain_serves_waiting:
  assumes "job_reachable q"
  shows "job_reachable (Drain q) \<and> g_Queue (Drain q) = [] \<and> started (Drain q) = started q @ g_Queue q \<and>
    (\<forall>j. j \<in> live q \<and> j \<notin> set (running q) \<longrightarrow> j \<in> job_done (Drain q))"
  using job_inv_reachable [OF assms] Drain_steps [OF assms]
  by (auto simp: Drain_empty Drain_started Drain_done job_inv_def)

theorem drain_serves_waiting_witness: "g_Queue (Drain dangling) = [] \<and> started (Drain dangling) = [1]"
  using drain_serves_waiting [OF demo_dangling] by (simp add: dangling_def)

text \<open>
  A time-out does not stop a job that a drain has already taken: there is a run in which
  \<^verbatim>\<open>RunSync\<close> has returned false, so that its stack frame with the job and the work is gone,
  while the game thread still executes the job.
\<close>
lemma timeout_leaves_job_running:
  "\<exists>q j. job_reachable q \<and> j \<in> set (running q) \<and> j \<notin> live q \<and> returned q j = Some False"
  using demo_dangling by (intro exI conjI) (assumption, simp_all add: dangling_def)

end
