(* ===== verification/Memory.thy ===== *)
theory Memory
  imports Engine_Types
begin

text \<open>
  Guarded reads of the process's own memory (\<^verbatim>\<open>src/src/utils/memory.h\<close>, \<^verbatim>\<open>memory.cpp\<close>): the
  cached list of readable regions, its refresh, the lookup by binary search, the bounds of the
  program image and the typed reads. The contents of \<^verbatim>\<open>/proc/self/maps\<close> are a parameter: per
  line the start, end and permissions that \<^verbatim>\<open>sscanf\<close> converts, or \<^term>\<open>None\<close> when it does not
  convert all three; the file is \<^term>\<open>None\<close> when it can not be opened. So are the program
  headers and the bytes in memory.
\<close>

section \<open>Regions\<close>

record Region =
  r_start :: u64
  r_end :: u64

type_synonym maps_line = "(u64 \<times> u64 \<times> string) option"
type_synonym maps = "maps_line list option"

record Memory =
  g_Regions :: "Region list"
  g_LastRefresh :: int
  g_Loaded :: bool
  g_ImageStart :: u64
  g_ImageEnd :: u64

definition new_Memory :: Memory where
  "new_Memory = \<lparr>g_Regions = [], g_LastRefresh = 0, g_Loaded = False, g_ImageStart = 0, g_ImageEnd = 0\<rparr>"

text \<open>The body of the loop over the lines: a region that continues the last one extends it.\<close>

definition add_region :: "Region list \<Rightarrow> maps_line \<Rightarrow> Region list" where
  "add_region regions line =
     (case line of
        None \<Rightarrow> regions
      | Some (start, stop, perms) \<Rightarrow>
          (if perms = [] \<or> hd perms \<noteq> CHR ''r'' then regions
           else if regions \<noteq> [] \<and> r_end (last regions) = start
                then butlast regions @ [(last regions)\<lparr>r_end := stop\<rparr>]
           else regions @ [\<lparr>r_start = start, r_end = stop\<rparr>]))"

definition read_regions :: "maps_line list \<Rightarrow> Region list" where
  "read_regions lines = sort_key r_start (foldl add_region [] lines)"

definition LoadRegionsLocked :: "maps \<Rightarrow> int \<Rightarrow> Memory \<Rightarrow> Memory" where
  "LoadRegionsLocked maps now m =
     (case maps of
        None \<Rightarrow> m
      | Some lines \<Rightarrow> m\<lparr>g_Regions := read_regions lines, g_LastRefresh := now, g_Loaded := True\<rparr>)"

text \<open>\<^verbatim>\<open>std::upper_bound\<close> on the start addresses: the index of the first region beyond \<open>addr\<close>.\<close>

definition upper_bound :: "Region list \<Rightarrow> u64 \<Rightarrow> nat" where
  "upper_bound regions addr = length (takeWhile (\<lambda>r. \<not> addr < r_start r) regions)"

definition in_region :: "u64 \<Rightarrow> u64 \<Rightarrow> Region \<Rightarrow> bool" where
  "in_region addr sz r = (addr \<ge> r_start r \<and> addr + sz \<le> r_end r)"

definition ContainsLocked :: "u64 \<Rightarrow> u64 \<Rightarrow> Memory \<Rightarrow> bool" where
  "ContainsLocked addr sz m =
     (if g_Regions m = [] then False
      else let it = upper_bound (g_Regions m) addr
           in if it = 0 then False else in_region addr sz (g_Regions m ! (it - 1)))"

definition Refresh :: "maps \<Rightarrow> int \<Rightarrow> Memory \<Rightarrow> Memory" where
  "Refresh maps now m = LoadRegionsLocked maps now m"

text \<open>A refusal refreshes the regions when they are at least 100 ms (in nanoseconds) old.\<close>

definition Readable :: "maps \<Rightarrow> int \<Rightarrow> u64 \<Rightarrow> u64 \<Rightarrow> Memory \<Rightarrow> bool \<times> Memory" where
  "Readable maps now addr sz m =
     (if addr = 0 \<or> sz = 0 then (False, m)
      else if addr < 0x10000 \<or> addr \<ge> 0x0000800000000000 then (False, m)
      else if addr + sz < addr then (False, m)
      else
        (let m1 = (if \<not> g_Loaded m then LoadRegionsLocked maps now m else m)
         in if ContainsLocked addr sz m1 then (True, m1)
            else if now - g_LastRefresh m1 < 100000000 then (False, m1)
            else (let m2 = LoadRegionsLocked maps now m1 in (ContainsLocked addr sz m2, m2))))"


section \<open>The program image\<close>

record Phdr =
  p_type :: nat
  p_flags :: nat
  p_vaddr :: u64
  p_memsz :: u64

abbreviation PT_LOAD :: nat where "PT_LOAD \<equiv> 1"

text \<open>An entry of \<^verbatim>\<open>dl_iterate_phdr\<close>: name (empty for the main program), base address, headers.\<close>

type_synonym dl_info = "string \<times> u64 \<times> Phdr list"

fun image_bounds :: "u64 \<Rightarrow> Phdr list \<Rightarrow> (u64 \<times> u64) option \<Rightarrow> (u64 \<times> u64) option" where
  "image_bounds base [] acc = acc"
| "image_bounds base (phdr # phdrs) acc =
     (if p_type phdr \<noteq> PT_LOAD then image_bounds base phdrs acc
      else
        (let start = base + p_vaddr phdr; stop = start + p_memsz phdr
         in image_bounds base phdrs
              (case acc of None \<Rightarrow> Some (start, stop)
               | Some (lowest, highest) \<Rightarrow>
                   Some (if start < lowest then start else lowest, if stop > highest then stop else highest))))"

definition ImagePhdrCallback :: "dl_info \<Rightarrow> (u64 \<times> u64) option" where
  "ImagePhdrCallback info =
     (case info of (name, base, phdrs) \<Rightarrow> if name \<noteq> [] then None else image_bounds base phdrs None)"

text \<open>\<^verbatim>\<open>dl_iterate_phdr\<close> ends at the first entry for which the callback returns 1.\<close>

fun dl_iterate_phdr :: "dl_info list \<Rightarrow> u64 \<times> u64" where
  "dl_iterate_phdr [] = (0, 0)"
| "dl_iterate_phdr (info # infos) =
     (case ImagePhdrCallback info of Some bounds \<Rightarrow> bounds | None \<Rightarrow> dl_iterate_phdr infos)"

definition Mem_Init :: "maps \<Rightarrow> int \<Rightarrow> dl_info list \<Rightarrow> Memory \<Rightarrow> Memory" where
  "Mem_Init maps now infos m =
     (let m1 = (if \<not> g_Loaded m then LoadRegionsLocked maps now m else m)
      in if g_ImageStart m1 = 0
         then (case dl_iterate_phdr infos of (lo, hi) \<Rightarrow> m1\<lparr>g_ImageStart := lo, g_ImageEnd := hi\<rparr>)
         else m1)"

definition InImage :: "u64 \<Rightarrow> Memory \<Rightarrow> bool" where
  "InImage addr m = (g_ImageStart m \<noteq> 0 \<and> addr \<ge> g_ImageStart m \<and> addr < g_ImageEnd m)"


section \<open>Typed reads\<close>

text \<open>
  \<open>bytes\<close> is the content of memory. \<open>Read\<close> copies \<open>n\<close> bytes when the guard allows it; a
  pointer is eight bytes in little-endian order.
\<close>

definition load :: "(u64 \<Rightarrow> 8 word) \<Rightarrow> u64 \<Rightarrow> nat \<Rightarrow> 8 word list" where
  "load bytes addr n = map (\<lambda>k. bytes (addr + word_of_nat k)) [0 ..< n]"

definition little_endian :: "8 word list \<Rightarrow> int" where
  "little_endian bs = foldr (\<lambda>b v. uint b + 256 * v) bs 0"

definition Read :: "maps \<Rightarrow> int \<Rightarrow> (u64 \<Rightarrow> 8 word) \<Rightarrow> nat \<Rightarrow> u64 \<Rightarrow> Memory \<Rightarrow> 8 word list option \<times> Memory" where
  "Read maps now bytes n addr m =
     (if addr = 0 then (None, m)
      else case Readable maps now addr (word_of_nat n) m of
        (ok, m') \<Rightarrow> (if \<not> ok then None else Some (load bytes addr n), m'))"

definition ReadPtr :: "maps \<Rightarrow> int \<Rightarrow> (u64 \<Rightarrow> 8 word) \<Rightarrow> u64 \<Rightarrow> Memory \<Rightarrow> u64 \<times> Memory" where
  "ReadPtr maps now bytes addr m =
     (case Read maps now bytes 8 addr m of
        (None, m') \<Rightarrow> (0, m') | (Some bs, m') \<Rightarrow> (word_of_int (little_endian bs), m'))"

definition ReadI32 :: "maps \<Rightarrow> int \<Rightarrow> (u64 \<Rightarrow> 8 word) \<Rightarrow> u64 \<Rightarrow> int \<Rightarrow> Memory \<Rightarrow> int \<times> Memory" where
  "ReadI32 maps now bytes addr fallback m =
     (case Read maps now bytes 4 addr m of
        (None, m') \<Rightarrow> (fallback, m') | (Some bs, m') \<Rightarrow> (sint (word_of_int (little_endian bs) :: 32 word), m'))"

definition ReadU8 :: "maps \<Rightarrow> int \<Rightarrow> (u64 \<Rightarrow> 8 word) \<Rightarrow> u64 \<Rightarrow> nat \<Rightarrow> Memory \<Rightarrow> nat \<times> Memory" where
  "ReadU8 maps now bytes addr fallback m =
     (case Read maps now bytes 1 addr m of
        (None, m') \<Rightarrow> (fallback, m') | (Some bs, m') \<Rightarrow> (nat (little_endian bs), m'))"


section \<open>The regions of a well-formed map\<close>

text \<open>
  The kernel lists the mappings in ascending order without overlap. A byte is mapped readable
  by a list of lines when one of them covers it.
\<close>

fun maps_from :: "u64 \<Rightarrow> maps_line list \<Rightarrow> bool" where
  "maps_from b [] = True"
| "maps_from b (None # ls) = maps_from b ls"
| "maps_from b (Some (s, e, p) # ls) = (b \<le> s \<and> s < e \<and> maps_from e ls)"

definition readable_line :: "maps_line \<Rightarrow> u64 \<Rightarrow> bool" where
  "readable_line l x = (case l of None \<Rightarrow> False
     | Some (s, e, p) \<Rightarrow> p \<noteq> [] \<and> hd p = CHR ''r'' \<and> s \<le> x \<and> x < e)"

definition byte_readable :: "maps_line list \<Rightarrow> u64 \<Rightarrow> bool" where
  "byte_readable ls x = list_ex (\<lambda>l. readable_line l x) ls"

definition region_has :: "Region \<Rightarrow> u64 \<Rightarrow> bool" where
  "region_has r x = (r_start r \<le> x \<and> x < r_end r)"

definition regions_ok :: "Region list \<Rightarrow> bool" where
  "regions_ok rs = (sorted_wrt (\<lambda>a b. r_end a < r_start b) rs \<and> (\<forall>r \<in> set rs. r_start r < r_end r))"

lemma regions_ok_snoc:
  "regions_ok (rs @ [r]) \<longleftrightarrow> regions_ok rs \<and> r_start r < r_end r \<and> (\<forall>a \<in> set rs. r_end a < r_start r)"
  by (auto simp: regions_ok_def sorted_wrt_append)

lemma add_region_step:
  assumes "regions_ok rs" "\<forall>r \<in> set rs. r_end r \<le> b" "b \<le> s" "s < e"
  shows "regions_ok (add_region rs (Some (s, e, p)))" "\<forall>r \<in> set (add_region rs (Some (s, e, p))). r_end r \<le> e"
    "(\<exists>r \<in> set (add_region rs (Some (s, e, p))). region_has r x) \<longleftrightarrow>
       (\<exists>r \<in> set rs. region_has r x) \<or> readable_line (Some (s, e, p)) x"
proof -
  have old: "\<forall>r \<in> set rs. r_end r \<le> e" using assms by force
  consider (skip) "add_region rs (Some (s, e, p)) = rs" "p = [] \<or> hd p \<noteq> CHR ''r''"
    | (extend) qs q where "rs = qs @ [q]" "r_end q = s" "p \<noteq> []" "hd p = CHR ''r''"
        "add_region rs (Some (s, e, p)) = qs @ [q\<lparr>r_end := e\<rparr>]"
    | (append) "rs = [] \<or> r_end (last rs) \<noteq> s" "p \<noteq> []" "hd p = CHR ''r''"
        "add_region rs (Some (s, e, p)) = rs @ [\<lparr>r_start = s, r_end = e\<rparr>]"
    by (cases rs rule: rev_cases) (auto simp: add_region_def)
  note splits = this
  have far: "\<forall>a \<in> set rs. r_end a < s" if "rs = [] \<or> r_end (last rs) \<noteq> s"
  proof (cases rs rule: rev_cases)
    case (snoc qs q)
    then have "r_end q < s" using that assms(2,3) by force
    moreover have "\<forall>a \<in> set qs. r_end a < r_end q" using assms(1) snoc by (force simp: regions_ok_snoc)
    ultimately show ?thesis using snoc by force
  qed simp
  from splits show "regions_ok (add_region rs (Some (s, e, p)))"
  proof cases
    case extend then show ?thesis using assms by (force simp: regions_ok_snoc)
  next
    case append then show ?thesis using assms far by (simp add: regions_ok_snoc)
  qed (use assms in simp)
  from splits show "\<forall>r \<in> set (add_region rs (Some (s, e, p))). r_end r \<le> e"
    by cases (use old in auto)
  from splits show "(\<exists>r \<in> set (add_region rs (Some (s, e, p))). region_has r x) \<longleftrightarrow>
       (\<exists>r \<in> set rs. region_has r x) \<or> readable_line (Some (s, e, p)) x"
  proof cases
    case extend
    have "r_start q < s" using assms(1) extend by (force simp: regions_ok_snoc)
    then have "region_has (q\<lparr>r_end := e\<rparr>) x \<longleftrightarrow> region_has q x \<or> s \<le> x \<and> x < e"
      using extend assms(4) by (auto simp: region_has_def)
    then show ?thesis using extend by (auto simp: readable_line_def)
  qed (auto simp: readable_line_def region_has_def)
qed

lemma add_regions:
  assumes "regions_ok rs" "\<forall>r \<in> set rs. r_end r \<le> b" "maps_from b ls"
  shows "regions_ok (foldl add_region rs ls) \<and>
    ((\<exists>r \<in> set (foldl add_region rs ls). region_has r x) \<longleftrightarrow> (\<exists>r \<in> set rs. region_has r x) \<or> byte_readable ls x)"
  using assms
proof (induction ls arbitrary: rs b)
  case (Cons l ls)
  show ?case
  proof (cases l)
    case None
    then show ?thesis using Cons by (simp add: add_region_def byte_readable_def readable_line_def)
  next
    case (Some t)
    obtain s e p where t: "t = (s, e, p)" by (cases t)
    have b: "b \<le> s" "s < e" "maps_from e ls" using Cons.prems(3) Some t by simp_all
    note st = add_region_step [OF Cons.prems(1,2) b(1,2)]
    show ?thesis using Cons.IH [OF st(1,2) b(3)] st(3) by (auto simp: Some t byte_readable_def)
  qed
qed (simp add: byte_readable_def)

lemma regions_sorted: "regions_ok rs \<Longrightarrow> sorted (map r_start rs)"
  by (induction rs) (fastforce simp: regions_ok_def)+

lemma sorted_regions: "regions_ok rs \<Longrightarrow> sort_key r_start rs = rs"
  by (rule sort_key_id_if_sorted, rule regions_sorted)

lemma read_regions_ok:
  assumes "maps_from 0 ls"
  shows "regions_ok (read_regions ls)" "(\<exists>r \<in> set (read_regions ls). region_has r x) \<longleftrightarrow> byte_readable ls x"
  using add_regions [of "[]" 0 ls x] assms sorted_regions
  by (simp_all add: read_regions_def regions_ok_def)


section \<open>The lookup\<close>

lemma lookup_region:
  assumes "regions_ok (g_Regions m)" "r \<in> set (g_Regions m)" "region_has r a"
  shows "g_Regions m ! (upper_bound (g_Regions m) a - 1) = r \<and> upper_bound (g_Regions m) a \<noteq> 0"
proof -
  obtain xs ys where rs: "g_Regions m = xs @ r # ys" using assms(2) by (meson split_list)
  have "\<forall>q \<in> set xs. r_end q < r_start r" "\<forall>q \<in> set ys. r_end r < r_start q" "\<forall>q \<in> set xs. r_start q < r_end q"
    using assms(1) by (auto simp: rs regions_ok_def sorted_wrt_append)
  then have "\<forall>q \<in> set xs. r_start q \<le> a" "\<forall>q \<in> set ys. a < r_start q"
    using assms(3) by (force simp: region_has_def)+
  then have "takeWhile (\<lambda>q. \<not> a < r_start q) (g_Regions m) = xs @ [r]"
    using assms(3) by (cases ys) (auto simp: rs region_has_def not_less takeWhile_append2)
  then show ?thesis by (simp add: upper_bound_def rs)
qed

lemma lookup_member: "upper_bound rs a \<noteq> 0 \<Longrightarrow> rs ! (upper_bound rs a - 1) \<in> set rs"
  using length_takeWhile_le [of "\<lambda>r. \<not> a < r_start r" rs]
  by (intro nth_mem) (unfold upper_bound_def, arith)

lemma contains_iff:
  assumes "regions_ok (g_Regions m)" "a < a + n"
  shows "ContainsLocked a n m \<longleftrightarrow> (\<exists>r \<in> set (g_Regions m). in_region a n r)"
proof
  assume "ContainsLocked a n m"
  then show "\<exists>r \<in> set (g_Regions m). in_region a n r"
    using lookup_member by (auto simp: ContainsLocked_def Let_def split: if_splits)
next
  assume "\<exists>r \<in> set (g_Regions m). in_region a n r"
  then obtain r where r: "r \<in> set (g_Regions m)" "in_region a n r" by blast
  then have "region_has r a" using assms(2) by (auto simp: in_region_def region_has_def)
  then show "ContainsLocked a n m"
    using lookup_region [OF assms(1) r(1)] r by (auto simp: ContainsLocked_def)
qed

text \<open>Separated regions contain a whole range exactly when they contain each of its bytes.\<close>

lemma range_in_one:
  assumes ok: "regions_ok rs" and n: "a < a + n"
  shows "(\<exists>r \<in> set rs. in_region a n r) \<longleftrightarrow> (\<forall>x. a \<le> x \<and> x < a + n \<longrightarrow> (\<exists>r \<in> set rs. region_has r x))"
proof
  assume "\<exists>r \<in> set rs. in_region a n r"
  then show "\<forall>x. a \<le> x \<and> x < a + n \<longrightarrow> (\<exists>r \<in> set rs. region_has r x)"
    by (force simp: in_region_def region_has_def)
next
  assume all: "\<forall>x. a \<le> x \<and> x < a + n \<longrightarrow> (\<exists>r \<in> set rs. region_has r x)"
  then obtain r where r: "r \<in> set rs" "region_has r a" using n by blast
  have "a + n \<le> r_end r"
  proof (rule ccontr)
    assume "\<not> a + n \<le> r_end r"
    then have "a \<le> r_end r" "r_end r < a + n" using r(2) by (auto simp: region_has_def)
    then obtain q where q: "q \<in> set rs" "region_has q (r_end r)" using all by blast
    then have "q \<noteq> r" by (auto simp: region_has_def)
    then have "r_end q < r_start r \<or> r_end r < r_start q"
      using ok q(1) r(1) by (auto simp: regions_ok_def in_set_conv_nth sorted_wrt_iff_nth_less) (metis nat_neq_iff)
    then show False using q r ok by (force simp: region_has_def regions_ok_def)
  qed
  then show "\<exists>r \<in> set rs. in_region a n r" using r by (auto simp: in_region_def region_has_def)
qed

definition range_readable :: "maps_line list \<Rightarrow> u64 \<Rightarrow> u64 \<Rightarrow> bool" where
  "range_readable ls a n = (\<forall>x. a \<le> x \<and> x < a + n \<longrightarrow> byte_readable ls x)"

lemma contains_exact:
  assumes "maps_from 0 ls" "g_Regions m = read_regions ls" "a < a + n"
  shows "ContainsLocked a n m \<longleftrightarrow> range_readable ls a n"
  using contains_iff [of m a n] range_in_one [OF read_regions_ok(1) [OF assms(1)] assms(3)]
    read_regions_ok [OF assms(1)] assms(2,3)
  by (simp add: range_readable_def)

lemma no_wrap: "n \<noteq> 0 \<Longrightarrow> \<not> a + n < a \<Longrightarrow> a < a + (n :: u64)"
  by (metis add_cancel_left_right linorder_neqE)

lemma contains_after_load:
  "maps_from 0 ls \<Longrightarrow> a < a + n \<Longrightarrow> ContainsLocked a n (LoadRegionsLocked (Some ls) now m) \<longleftrightarrow> range_readable ls a n"
  by (rule contains_exact) (simp_all add: LoadRegionsLocked_def)


section \<open>The image\<close>

lemma image_bounds_acc:
  assumes "image_bounds base ps (Some (l, h)) = Some (lo, hi)"
  shows "lo \<le> l \<and> h \<le> hi \<and>
    (\<forall>p \<in> set ps. p_type p = PT_LOAD \<longrightarrow> lo \<le> base + p_vaddr p \<and> base + p_vaddr p + p_memsz p \<le> hi)"
  using assms
proof (induction ps arbitrary: l h)
  case (Cons p ps)
  show ?case
  proof (cases "p_type p = PT_LOAD")
    case True
    have "image_bounds base ps (Some (if base + p_vaddr p < l then base + p_vaddr p else l,
        if base + p_vaddr p + p_memsz p > h then base + p_vaddr p + p_memsz p else h)) = Some (lo, hi)"
      using Cons.prems True by (simp add: Let_def)
    from Cons.IH [OF this] show ?thesis by (auto split: if_splits)
  qed (use Cons in simp)
qed simp

lemma image_bounds_cover:
  assumes "image_bounds base ps None = Some (lo, hi)" "p \<in> set ps" "p_type p = PT_LOAD"
  shows "lo \<le> base + p_vaddr p \<and> base + p_vaddr p + p_memsz p \<le> hi"
  using assms
proof (induction ps)
  case (Cons q ps)
  show ?case
  proof (cases "p_type q = PT_LOAD")
    case True
    then have "image_bounds base ps (Some (base + p_vaddr q, base + p_vaddr q + p_memsz q)) = Some (lo, hi)"
      using Cons.prems(1) by (simp add: Let_def)
    from image_bounds_acc [OF this] show ?thesis using Cons.prems by auto
  qed (use Cons in auto)
qed simp


section \<open>Properties\<close>

text \<open>
  C19: The guard in front of every read is exact. With \<open>ls0\<close> the mappings at the last refresh
  and \<open>ls\<close> the mappings now, both listed the way the kernel lists them, \<^verbatim>\<open>Readable\<close> accepts a
  range exactly when it is not empty, lies in the user half of the address space above
  64 KiB without wrapping around, and each of its bytes is readable in the cached mappings, or
  in the current ones if the cache was never loaded or is 100 ms old. The merged regions and
  the binary search lose nothing: a range over two adjacent mappings is accepted.
\<close>
theorem readable_exact:
  assumes "maps_from 0 ls0" "maps_from 0 ls" "g_Loaded m \<longrightarrow> g_Regions m = read_regions ls0"
  shows "fst (Readable (Some ls) now a n m) \<longleftrightarrow>
    n \<noteq> 0 \<and> 0x10000 \<le> a \<and> a < 0x800000000000 \<and> a < a + n \<and>
    (g_Loaded m \<and> range_readable ls0 a n \<or>
     (\<not> g_Loaded m \<or> now - g_LastRefresh m \<ge> 100000000) \<and> range_readable ls a n)"
proof (cases "n \<noteq> 0 \<and> 0x10000 \<le> a \<and> a < 0x800000000000 \<and> \<not> a + n < a")
  case True
  then have w: "a < a + n" by (simp add: no_wrap)
  have nz: "a \<noteq> 0" using True by auto
  have l: "g_LastRefresh (LoadRegionsLocked (Some ls) now m) = now" by (simp add: LoadRegionsLocked_def)
  show ?thesis
    using True w nz l contains_after_load [OF assms(2) w] contains_exact [OF assms(1) _ w, of m] assms(3)
    by (cases "g_Loaded m") (auto simp: Readable_def Let_def)
next
  case False
  then show ?thesis by (auto simp: Readable_def no_wrap not_le)
qed

theorem readable_exact_witness:
  "fst (Readable (Some [Some (0x10000, 0x20000, ''r-xp''), Some (0x20000, 0x30000, ''rw-p'')]) 0 0x1FFF8 16 new_Memory)"
proof -
  have "range_readable [Some (0x10000, 0x20000, ''r-xp''), Some (0x20000, 0x30000, ''rw-p'')] 0x1FFF8 16"
    by (auto simp: range_readable_def byte_readable_def readable_line_def word_le_nat_alt word_less_nat_alt)
  then show ?thesis
    by (subst readable_exact [of "[]" "[Some (0x10000, 0x20000, ''r-xp''), Some (0x20000, 0x30000, ''rw-p'')]" new_Memory])
       (simp_all add: new_Memory_def)
qed

text \<open>
  The image bounds cover the program: after \<^verbatim>\<open>Init\<close> an address inside a loaded segment
  of the main program (which does not start at address 0 or wrap around) is in the image,
  whatever other objects are loaded before or after it.
\<close>
lemma image_covers_segments:
  assumes "g_ImageStart m = 0" "\<forall>i \<in> set before. fst i \<noteq> []" "ImagePhdrCallback ([], base, ps) = Some (lo, hi)"
    and "lo \<noteq> 0" "p \<in> set ps" "p_type p = PT_LOAD" "base + p_vaddr p \<le> a" "a < base + p_vaddr p + p_memsz p"
  shows "InImage a (Mem_Init maps now (before @ ([], base, ps) # after) m)"
proof -
  have d: "dl_iterate_phdr (before @ ([], base, ps) # after) = (lo, hi)"
    using assms(2) by (induction before) (auto simp: assms(3), auto simp: ImagePhdrCallback_def)
  have z: "g_ImageStart (LoadRegionsLocked maps now m) = 0"
    using assms(1) by (simp add: LoadRegionsLocked_def split: option.split)
  have "lo \<le> base + p_vaddr p \<and> base + p_vaddr p + p_memsz p \<le> hi"
    using image_bounds_cover assms(3,5,6) by (simp add: ImagePhdrCallback_def)
  then show ?thesis using assms(1,4,7,8) d z by (auto simp: InImage_def Mem_Init_def Let_def)
qed

lemma image_covers_segments_witness:
  "InImage 0x401000 (Mem_Init None 0 ([(''libc'', 0x7000, [])] @ ([], 0x400000, [\<lparr>p_type = 1, p_flags = 5, p_vaddr = 0x1000, p_memsz = 0x800\<rparr>]) # []) new_Memory)"
  by (rule image_covers_segments [where p = "\<lparr>p_type = 1, p_flags = 5, p_vaddr = 0x1000, p_memsz = 0x800\<rparr>" and lo = "0x401000" and hi = "0x401800"])
     (simp_all add: new_Memory_def ImagePhdrCallback_def)

end
