(* ===== verification/Lifecycle.thy ===== *)
theory Lifecycle
  imports Api_Routes Rcon_Commands Rcon_Server Discord Chat
begin

text \<open>
  The program's start, its watch loop and its end (\<^verbatim>\<open>src/src/rsdwapi.cpp\<close>): the two listeners and
  the status they leave in \<^verbatim>\<open>Runtime\<close>, the wait for the engine, the Discord channels, the periodic
  enforcement with the detection of deaths, and the shutdown. What the system calls of a start
  return is given per listener.
\<close>

section \<open>Listeners\<close>

record Net =
  net_pton :: "string \<Rightarrow> u32 option"
  net_fd :: int
  net_bind :: "u32 \<Rightarrow> nat \<Rightarrow> bool"
  net_listen :: bool

record Process =
  p_config :: APIConfig
  p_http :: "World HttpServer option"
  p_commands :: "Command list"
  p_rcon :: "RconServer option"
  p_discord :: Discord
  p_world :: World
  p_shutdown :: bool
  p_stopped :: bool

definition set_runtime :: "(Runtime \<Rightarrow> Runtime) \<Rightarrow> World \<Rightarrow> World" where
  "set_runtime f w = w\<lparr>game := (game w)\<lparr>runtime := f (runtime (game w))\<rparr>\<rparr>"

definition start_rest :: "Net \<Rightarrow> Process \<Rightarrow> Process" where
  "start_rest net p =
     (let c = rest (p_config p)
      in if rest_enabled c then
           (let s = ApiRoutes_RegisterAll (SetIpWhitelist (net_pton net) (rest_ipWhitelist c) new_HttpServer);
                (up, s') = HttpServer_Start (net_pton net) (net_fd net) (net_bind net) (net_listen net)
                             (rest_port c) (rest_bindAddress c) s
            in p\<lparr>p_http := Some s', p_world := set_runtime (SetRestState True up (rest_port c)) (p_world p)\<rparr>)
         else p\<lparr>p_world := set_runtime (SetRestState False False (rest_port c)) (p_world p)\<rparr>)"

definition start_rcon :: "Net \<Rightarrow> Process \<Rightarrow> Process" where
  "start_rcon net p =
     (let c = rcon (p_config p)
      in if rcon_enabled c then
           (let (up, s) = Server_Start (net_pton net) (net_fd net) (net_bind net) (net_listen net) c new_RconServer
            in p\<lparr>p_commands := RegisterAll, p_rcon := Some s,
                 p_world := set_runtime (SetRconState True up (rcon_port c)) (p_world p)\<rparr>)
         else p\<lparr>p_world := set_runtime (SetRconState False False (rcon_port c)) (p_world p)\<rparr>)"

definition StartListeners :: "Net \<Rightarrow> Net \<Rightarrow> Process \<Rightarrow> Process" where
  "StartListeners rest_net rcon_net p = start_rcon rcon_net (start_rest rest_net p)"

definition ShutdownListeners :: "Process \<Rightarrow> Process" where
  "ShutdownListeners p =
     (if p_stopped p then p
      else p\<lparr>p_stopped := True, p_shutdown := True,
             p_http := map_option HttpServer_Stop (p_http p),
             p_rcon := map_option Server_Stop (p_rcon p),
             p_discord := Discord_Stop (p_discord p),
             p_world := set_runtime BeginShutdown (p_world p)\<rparr>)"

definition new_Process :: "APIConfig \<Rightarrow> World \<Rightarrow> Process" where
  "new_Process c w = \<lparr>p_config = c, p_http = None, p_commands = [], p_rcon = None, p_discord = (\<lambda>_. new_Sender),
     p_world = w, p_shutdown = False, p_stopped = False\<rparr>"


section \<open>Waiting for the engine\<close>

text \<open>
  The loop that tries to initialise the engine: \<open>results\<close> are the outcomes of the coming calls
  of \<^verbatim>\<open>Initialize\<close> (the end of the list: the shutdown flag is seen). The result is the list of
  waits in seconds and whether the engine came up.
\<close>

definition waitSeconds :: "nat \<Rightarrow> nat" where
  "waitSeconds attempt = (if attempt < 10 then 1 else if attempt < 30 then 5 else 30)"

fun wait_engine :: "nat \<Rightarrow> bool list \<Rightarrow> nat list \<times> bool" where
  "wait_engine attempt [] = ([], False)"
| "wait_engine attempt (up # results) =
     (if up then ([], True)
      else case wait_engine (attempt + 1) results of (ws, ok) \<Rightarrow> (waitSeconds attempt # ws, ok))"


section \<open>Discord channels and deaths\<close>

definition start_discord :: "DiscordConfig \<Rightarrow> Discord \<Rightarrow> Discord" where
  "start_discord c d =
     (if \<not> discord_enabled c then d
      else
        (let d1 = Discord_Start Chat (discord_webhookUrl c) (discord_username c) d;
             deathUrl = (if discord_deathWebhookUrl c = [] then discord_webhookUrl c else discord_deathWebhookUrl c)
         in Discord_Start Deaths deathUrl (discord_username c) d1))"

text \<open>The listener that relays chat, registered when the chat channel is enabled.\<close>

definition chat_line :: "Message \<Rightarrow> string" where
  "chat_line m = ''**'' @ (if msg_senderName m = [] then ''Unknown'' else msg_senderName m) @ ''**: '' @ msg_body m"

definition relay_chat :: "Message \<Rightarrow> Discord \<Rightarrow> Discord" where
  "relay_chat m d = Discord_Post Chat (chat_line m) d"

text \<open>
  What \<^verbatim>\<open>InitThread\<close> does once the engine is up; \<open>pump\<close> says whether one of the two ways onto the
  game thread could be installed. Without it the thread ends there.
\<close>

definition engine_ready :: "bool \<Rightarrow> APIConfig \<Rightarrow> Discord \<times> World \<Rightarrow> Discord \<times> World" where
  "engine_ready pump c st =
     (case st of (d, w) \<Rightarrow> if \<not> pump then (d, w) else (start_discord (discord c) d, Bans_Load w))"

text \<open>\<^verbatim>\<open>reportDeath\<close>: the section under the lock, the text posted, and the whole.\<close>

definition fresh_death :: "int \<Rightarrow> string \<Rightarrow> (string \<rightharpoonup> int) \<Rightarrow> bool \<times> (string \<rightharpoonup> int)" where
  "fresh_death now key posted =
     (if (case posted key of None \<Rightarrow> False | Some t \<Rightarrow> now - t < 10 * one_second) then (False, posted)
      else (True, posted(key \<mapsto> now)))"

definition death_text :: "string \<Rightarrow> string \<Rightarrow> string" where
  "death_text name place = '':skull: **'' @ name @ ''** died'' @ (if place = [] then [] else '' at `'' @ place @ ''`'')"

definition reportDeath ::
    "int \<Rightarrow> string \<Rightarrow> string \<Rightarrow> string \<Rightarrow> (string \<rightharpoonup> int) \<times> Discord \<Rightarrow> (string \<rightharpoonup> int) \<times> Discord" where
  "reportDeath now key name place st =
     (case st of (posted, d) \<Rightarrow>
        (case fresh_death now key posted of
           (False, posted') \<Rightarrow> (posted', d)
         | (True, posted') \<Rightarrow>
             (posted', if s_enabled (d Deaths) then Discord_Post Deaths (death_text name place) d else d)))"

definition place_text :: "PlayerInfo \<Rightarrow> string" where
  "place_text p = (case location p of (x, y, z) \<Rightarrow>
     snprintf 96 (fixed 0 x @ '', '' @ fixed 0 y @ '', '' @ fixed 0 z))"

text \<open>The listener for player events.\<close>

definition death_event :: "PlayerEvent \<Rightarrow> bool" where
  "death_event e = (let tag = Lower (ev_tag e)
     in find_sub ''death'' tag \<noteq> None \<or> find_sub ''died'' tag \<noteq> None \<or> find_sub ''die'' tag \<noteq> None)"

definition on_event :: "int \<Rightarrow> Game \<Rightarrow> PlayerEvent \<Rightarrow> (string \<rightharpoonup> int) \<times> Discord \<Rightarrow> (string \<rightharpoonup> int) \<times> Discord" where
  "on_event now g e st =
     (if \<not> death_event e then st
      else
        (let name = (if ev_senderName e = [] then ''playerId '' @ to_string (ev_playerId e) else ev_senderName e);
             key = (if ev_senderNetId e = [] then to_string (ev_playerId e) else ev_senderNetId e);
             place = (case find (\<lambda>p. playerId p = ev_playerId e) (GetAllPlayers g) of
                        None \<Rightarrow> [] | Some p \<Rightarrow> if hasLocation p then place_text p else [])
         in reportDeath now key name place st))"

text \<open>One pass of the watch loop over the players: who is dead now, and the deaths seen.\<close>

definition watched :: "PlayerInfo \<Rightarrow> bool" where
  "watched p = (uniqueNetId p \<noteq> [] \<and> hasHealth p)"

definition just_died :: "(string \<rightharpoonup> bool) \<Rightarrow> PlayerInfo \<Rightarrow> bool" where
  "just_died wasDead p = (isDead p \<and> wasDead (uniqueNetId p) = Some False)"

fun watch_deaths ::
    "int \<Rightarrow> (string \<rightharpoonup> bool) \<Rightarrow> PlayerInfo list \<Rightarrow> (string \<rightharpoonup> bool) \<Rightarrow> (string \<rightharpoonup> int) \<times> Discord \<Rightarrow>
     (string \<rightharpoonup> bool) \<times> (string \<rightharpoonup> int) \<times> Discord" where
  "watch_deaths now wasDead [] nowDead st = (nowDead, st)"
| "watch_deaths now wasDead (p # ps) nowDead st =
     (if \<not> watched p then watch_deaths now wasDead ps nowDead st
      else
        (let nowDead' = nowDead(uniqueNetId p \<mapsto> isDead p);
             st' = (if just_died wasDead p
                    then reportDeath now (uniqueNetId p) (display_name p) (place_text p) st else st)
         in watch_deaths now wasDead ps nowDead' st'))"

text \<open>
  One iteration of the watch loop after its pause (the installation of event hooks in
  \<^verbatim>\<open>DomChat::Poll\<close> has no effect on this state).
\<close>

record Watch =
  wt_world :: World
  wasDead :: "string \<rightharpoonup> bool"
  deathPosted :: "string \<rightharpoonup> int"
  wt_discord :: Discord

definition watch_tick :: "int \<Rightarrow> Watch \<Rightarrow> Watch" where
  "watch_tick now s =
     (let w = Enforce (EnforceKicks (wt_world s));
          (nowDead, posted, d) = watch_deaths now (wasDead s) (GetAllPlayers (game w)) Map.empty (deathPosted s, wt_discord s)
      in s\<lparr>wt_world := w, wasDead := nowDead, deathPosted := posted, wt_discord := d\<rparr>)"

interpretation deaths: debounce fresh_death "10 * one_second"
proof unfold_locales
  fix now k j and m :: "string \<rightharpoonup> int"
  show "0 < 10 * one_second" by (simp add: one_second_def)
  show "fst (fresh_death now k m) \<longleftrightarrow> (case m k of None \<Rightarrow> True | Some t \<Rightarrow> 10 * one_second \<le> now - t)"
    by (auto simp: fresh_death_def split: option.splits)
  show "fst (fresh_death now k m) \<Longrightarrow> snd (fresh_death now k m) k = Some now"
    by (auto simp: fresh_death_def split: if_splits)
  show "\<not> fst (fresh_death now k m) \<Longrightarrow> snd (fresh_death now k m) = m"
    by (auto simp: fresh_death_def split: if_splits)
  show "j \<noteq> k \<Longrightarrow> snd (fresh_death now k m) j = m j \<or>
      (snd (fresh_death now k m) j = None \<and> (\<exists>t. m j = Some t \<and> 10 * one_second \<le> now - t))"
    by (auto simp: fresh_death_def)
qed


section \<open>Lemmas on the listeners\<close>

lemma rest_server_ok:
  "server_ok (snd (HttpServer_Start pt fd bo lo port a (ApiRoutes_RegisterAll (SetIpWhitelist pt wl new_HttpServer))))"
  using http.inv_start [of "ApiRoutes_RegisterAll (SetIpWhitelist pt wl new_HttpServer)" "(pt, fd, bo, lo, port, a)"]
  by (simp add: ApiRoutes_RegisterAll_def RegisterPlayers_def RegisterSystem_def Get_def Post_def server_ok_other)

lemma rest_start_reports:
  "fst (HttpServer_Start pt fd bo lo port a (ApiRoutes_RegisterAll (SetIpWhitelist pt wl new_HttpServer))) =
   Http.running (snd (HttpServer_Start pt fd bo lo port a (ApiRoutes_RegisterAll (SetIpWhitelist pt wl new_HttpServer))))"
proof -
  have "\<not> Http.running (ApiRoutes_RegisterAll (SetIpWhitelist pt wl new_HttpServer))"
    by (simp add: ApiRoutes_RegisterAll_def RegisterPlayers_def RegisterSystem_def Get_def Post_def Route_def
        SetIpWhitelist_def new_HttpServer_def)
  from http.start_reports [OF this, of "(pt, fd, bo, lo, port, a)"] show ?thesis by simp
qed

lemma rest_filter [simp]: "ipFilter (ApiRoutes_RegisterAll (SetIpWhitelist pt wl s)) = IpFilter_Configure pt wl"
  by (simp add: ApiRoutes_RegisterAll_def RegisterPlayers_def RegisterSystem_def Get_def Post_def Route_def SetIpWhitelist_def)

lemma rest_routes [simp]: "routes (SetIpWhitelist pt wl s) = routes s"
  by (simp add: SetIpWhitelist_def)

lemma rest_start_keeps:
  "routes (snd (HttpServer_Start pt fd bo lo port a s)) = routes s"
  "ipFilter (snd (HttpServer_Start pt fd bo lo port a s)) = ipFilter s"
  by (simp_all add: HttpServer_Start_def Let_def)

lemma rcon_start_reports:
  "fst (Server_Start pt fd bo lo c new_RconServer) = m_Running (snd (Server_Start pt fd bo lo c new_RconServer))"
  using rcon_life.start_reports [of new_RconServer "(pt, fd, bo, lo, c)"] by (simp add: new_RconServer_def)

lemma rcon_server_ok: "rcon_ok (snd (Server_Start pt fd bo lo c new_RconServer))"
  using rcon_life.inv_start [OF rcon_ok_new, of "(pt, fd, bo, lo, c)"] by simp

lemma rest_stopped_socket: "server_ok s \<Longrightarrow> listenSocket (HttpServer_Stop s) < 0"
  using http.no_socket_leak [of s "[]"] by (simp add: http.life_step_def)

lemma rcon_stopped_socket: "rcon_ok s \<Longrightarrow> m_ListenSocket (Server_Stop s) < 0"
  using rcon_life.no_socket_leak [of s "[]"] by (simp add: rcon_life.life_step_def)

lemma started_ok:
  assumes "p = StartListeners n1 n2 (new_Process c w)"
  shows "p_http p = Some s \<Longrightarrow> server_ok s" "p_rcon p = Some t \<Longrightarrow> rcon_ok t" "\<not> p_stopped p"
  using assms rest_server_ok rcon_server_ok
  by (auto simp: StartListeners_def start_rest_def start_rcon_def new_Process_def Let_def split_beta split: if_splits)

lemma started_routes:
  assumes "p = StartListeners n1 n2 (new_Process c w)" "p_http p = Some s"
  shows "routes s = routes (ApiRoutes_RegisterAll new_HttpServer)"
  using assms
  by (auto simp: StartListeners_def start_rest_def start_rcon_def new_Process_def Let_def split_beta rest_start_keeps
      api_routes split: if_splits)

lemma started_commands:
  assumes "p = StartListeners n1 n2 (new_Process c w)" "p_rcon p = Some s"
  shows "p_commands p = RegisterAll"
  using assms
  by (auto simp: StartListeners_def start_rest_def start_rcon_def new_Process_def Let_def split_beta split: if_splits)


section \<open>Lemmas on the death reports\<close>

text \<open>The reports of a sequence that are posted.\<close>

type_synonym death_report = "int \<times> string \<times> string \<times> string"

fun posted_deaths :: "death_report list \<Rightarrow> (string \<rightharpoonup> int) \<Rightarrow> death_report list" where
  "posted_deaths [] posted = []"
| "posted_deaths ((now, key, name, place) # rs) posted =
     (case fresh_death now key posted of
        (True, posted') \<Rightarrow> (now, key, name, place) # posted_deaths rs posted'
      | (False, posted') \<Rightarrow> posted_deaths rs posted')"

definition post_death :: "death_report \<Rightarrow> Discord \<Rightarrow> Discord" where
  "post_death r d = (case r of (now, key, name, place) \<Rightarrow>
     if s_enabled (d Deaths) then Discord_Post Deaths (death_text name place) d else d)"

abbreviation death_key :: "death_report \<Rightarrow> int \<times> string" where
  "death_key \<equiv> \<lambda>(now, key, name, place). (now, key)"

lemma posted_accepted: "map death_key (posted_deaths rs posted) = deaths.accepted (map death_key rs) posted"
  by (induction rs posted rule: posted_deaths.induct) (auto split: prod.splits bool.splits)

lemma reports_posted:
  "snd (foldl (\<lambda>st (now, key, name, place). reportDeath now key name place st) (posted, d) rs) =
   fold post_death (posted_deaths rs posted) d"
proof (induction rs posted arbitrary: d rule: posted_deaths.induct)
  case (2 now key name place rs posted)
  then show ?case
    by (cases "fresh_death now key posted") (auto simp: reportDeath_def post_death_def split: bool.splits)
qed simp

lemma fresh_death_other: "k \<noteq> key \<Longrightarrow> fst (fresh_death now k (snd (fresh_death now' key m))) = fst (fresh_death now k m)"
  by (simp add: fresh_death_def)

definition tick_reports :: "int \<Rightarrow> (string \<rightharpoonup> bool) \<Rightarrow> PlayerInfo list \<Rightarrow> death_report list" where
  "tick_reports now was ps =
     map (\<lambda>p. (now, uniqueNetId p, display_name p, place_text p)) (filter (\<lambda>p. watched p \<and> just_died was p) ps)"

definition mark_dead :: "PlayerInfo \<Rightarrow> (string \<rightharpoonup> bool) \<Rightarrow> (string \<rightharpoonup> bool)" where
  "mark_dead p m = m(uniqueNetId p \<mapsto> isDead p)"

lemma watch_deaths_reports:
  "watch_deaths now was ps nd st =
     (fold mark_dead (filter watched ps) nd,
      foldl (\<lambda>st (now, key, name, place). reportDeath now key name place st) st (tick_reports now was ps))"
  by (induction ps arbitrary: nd st) (auto simp: tick_reports_def mark_dead_def Let_def)

lemma fold_now_dead:
  "distinct (map uniqueNetId ps) \<Longrightarrow> fold mark_dead ps nd k =
     (case find (\<lambda>p. uniqueNetId p = k) ps of None \<Rightarrow> nd k | Some p \<Rightarrow> Some (isDead p))"
proof (induction ps arbitrary: nd)
  case (Cons p ps)
  have "find (\<lambda>q. uniqueNetId q = uniqueNetId p) ps = None"
    using Cons.prems by (force simp: find_None_iff image_iff)
  then show ?case using Cons by (auto simp: mark_dead_def)
qed simp

lemma kick_game [simp]: "game (snd (KickPlayer i r w)) = game w"
  by (rule KickPlayer_frame)

lemma enforce_game [simp]: "game (Enforce w) = game w" "game (EnforceKicks w) = game w"
proof -
  have k: "game (foldl enforce_kick w ps) = game w" for w ps
    by (induction ps arbitrary: w) (auto simp: enforce_kick_def split: option.splits)
  have b: "game (foldl (enforce_ban bs) w ps) = game w" for bs w ps
    by (induction ps arbitrary: w) (auto simp: enforce_ban_def split: option.splits)
  show "game (Enforce w) = game w" by (simp add: Enforce_def b)
  show "game (EnforceKicks w) = game w" by (simp add: EnforceKicks_def k)
qed


text \<open>
  When no pump could be installed the ban list is never read, but bans are still accepted; the
  first one replaces the whole file by itself.
\<close>

lemma unloaded_bans_lost:
  assumes "engine_ready False c (d, w) = (d', w1)" "g_Bans w = []" "bans_writable (game w)"
    "Ban now player reason w1 = (True, msg, w2)"
  shows "\<exists>b. bans_file w2 = Some (bans_text [b])"
proof -
  have "w1 = w" using assms(1) by (simp add: engine_ready_def)
  then obtain netId name where n: "add_ban now netId name reason w = (True, msg, w2)"
    using Ban_cases [OF assms(4)] by auto
  show ?thesis using add_ban_cases(3) [OF n] assms(2,3) by auto
qed


section \<open>Properties\<close>

text \<open>
  The status the program reports is the truth: whatever the system calls of the start
  return, afterwards the health report's enabled and running flags and ports are those of the
  configuration and of the servers, an enabled REST server serves exactly the registered
  routes behind the configured address filter, an enabled console knows exactly the registered
  commands, and the console does not run without a password.
\<close>
lemma startup_truth:
  "let p = StartListeners n1 n2 (new_Process c w); r = runtime (game (p_world p))
   in g_RestEnabled r = rest_enabled (rest c) \<and> g_RestPort r = rest_port (rest c) \<and>
      g_RestRunning r = (\<exists>s. p_http p = Some s \<and> Http.running s) \<and>
      (p_http p \<noteq> None \<longleftrightarrow> rest_enabled (rest c)) \<and>
      (\<forall>s. p_http p = Some s \<longrightarrow> routes s = routes (ApiRoutes_RegisterAll new_HttpServer) \<and>
         ipFilter s = IpFilter_Configure (net_pton n1) (rest_ipWhitelist (rest c))) \<and>
      g_RconEnabled r = rcon_enabled (rcon c) \<and> g_RconPort r = rcon_port (rcon c) \<and>
      g_RconRunning r = (\<exists>s. p_rcon p = Some s \<and> m_Running s) \<and>
      (p_rcon p \<noteq> None \<longleftrightarrow> rcon_enabled (rcon c)) \<and>
      (rcon_enabled (rcon c) \<longrightarrow> p_commands p = RegisterAll) \<and>
      (rcon_password (rcon c) = [] \<longrightarrow> \<not> g_RconRunning r)"
proof -
  have no_password: "\<not> m_Running (snd (Server_Start pt fd bo lo cc new_RconServer))" if "rcon_password cc = []" for pt fd bo lo cc
    using that by (simp add: Server_Start_def new_RconServer_def)
  show ?thesis
    by (auto simp: StartListeners_def start_rest_def start_rcon_def new_Process_def set_runtime_def
        SetRestState_def SetRconState_def Let_def split_beta rest_start_reports rest_start_keeps rcon_start_reports
        api_routes no_password)
qed

lemma startup_truth_witness:
  "\<not> g_RconRunning (runtime (game (p_world (StartListeners undefined undefined
     (new_Process (default_config\<lparr>rcon := default_rcon\<lparr>rcon_enabled := True\<rparr>\<rparr>) demo_world)))))"
  using startup_truth [of undefined undefined "default_config\<lparr>rcon := default_rcon\<lparr>rcon_enabled := True\<rparr>\<rparr>" demo_world]
  by (auto simp: Let_def default_rcon_def)



text \<open>
  Deaths are announced once: of a time-ordered sequence of reports, from events and from
  the watch loop alike, exactly those are posted for whose player nothing was posted in the
  last 10 seconds; no report is lost, and each posted text reaches the death channel once.
\<close>
lemma deaths_once:
  assumes "sorted (map fst rs)"
  shows "sorted_wrt (\<lambda>(t, k, n, p) (t', k', n', p'). k = k' \<longrightarrow> 10 * one_second \<le> t' - t) (posted_deaths rs Map.empty) \<and>
    list_all (\<lambda>(t, k, n, p). list_ex (\<lambda>(t', k', n', p'). k' = k \<and> t - 10 * one_second < t' \<and> t' \<le> t)
      (posted_deaths rs Map.empty)) rs \<and>
    snd (foldl (\<lambda>st (now, key, name, place). reportDeath now key name place st) (Map.empty, d) rs) =
      fold post_death (posted_deaths rs Map.empty) d"
proof (intro conjI)
  let ?ps = "posted_deaths rs Map.empty"
  have K: "map death_key ?ps = deaths.accepted (map death_key rs) Map.empty" by (rule posted_accepted)
  have S: "sorted (map fst (map death_key rs))" using assms by (simp add: comp_def case_prod_unfold)
  have "sorted_wrt (\<lambda>(t, k) (t', k'). k = k' \<longrightarrow> 10 * one_second \<le> t' - t) (map death_key ?ps)"
    unfolding K by (rule deaths.accepted_spaced [OF S])
  then show "sorted_wrt (\<lambda>(t, k, n, p) (t', k', n', p'). k = k' \<longrightarrow> 10 * one_second \<le> t' - t) ?ps"
    by (simp add: sorted_wrt_map case_prod_unfold)
  show "list_all (\<lambda>(t, k, n, p). list_ex (\<lambda>(t', k', n', p'). k' = k \<and> t - 10 * one_second < t' \<and> t' \<le> t) ?ps) rs"
    unfolding list_all_iff
  proof clarify
    fix t k n p assume "(t, k, n, p) \<in> set rs"
    then have "(t, k) \<in> set (map death_key rs)" by force
    then obtain t' where "(t', k) \<in> set (map death_key ?ps)" "t - 10 * one_second < t'" "t' \<le> t"
      using deaths.accepted_complete [OF S, of t k Map.empty] unfolding K by auto
    then show "list_ex (\<lambda>(t', k', n', p'). k' = k \<and> t - 10 * one_second < t' \<and> t' \<le> t) ?ps"
      by (force simp: list_ex_iff)
  qed
qed (rule reports_posted)

lemma deaths_once_witness:
  "sorted_wrt (\<lambda>(t, k, n, p) (t', k', n', p'). k = k' \<longrightarrow> 10 * one_second \<le> t' - t)
     (posted_deaths [(0, ''1'', ''Ann'', []), (5, ''1'', ''Ann'', []), (11 * one_second, ''1'', ''Ann'', [])] Map.empty)"
  by (rule deaths_once [THEN conjunct1]) (simp add: one_second_def)

text \<open>
  The watch loop sees every death exactly once: in one iteration, with distinct net ids,
  it enforces kicks and bans, reports exactly the players with health data who were alive in
  the iteration before and are dead now, in the order of the list, and remembers for the next
  iteration who is dead; so a player who stays dead is not reported again.
\<close>
lemma watch_reports_deaths:
  assumes "distinct (map uniqueNetId (filter watched (GetAllPlayers (game (wt_world s)))))"
  shows "let s' = watch_tick now s; ps = GetAllPlayers (game (wt_world s))
    in wt_world s' = Enforce (EnforceKicks (wt_world s)) \<and>
       wt_discord s' = fold post_death (posted_deaths (tick_reports now (wasDead s) ps) (deathPosted s)) (wt_discord s) \<and>
       (\<forall>p \<in> set ps. watched p \<longrightarrow> wasDead s' (uniqueNetId p) = Some (isDead p)) \<and>
       tick_reports now' (wasDead s') ps = []"
proof -
  let ?ps = "GetAllPlayers (game (wt_world s))"
  have found: "find (\<lambda>q. uniqueNetId q = uniqueNetId p) (filter watched ?ps) = Some p"
    if "p \<in> set ?ps" "watched p" for p
  proof -
    have "\<exists>q. find (\<lambda>q. uniqueNetId q = uniqueNetId p) (filter watched ?ps) = Some q"
      using that by (cases "find (\<lambda>q. uniqueNetId q = uniqueNetId p) (filter watched ?ps)") (auto simp: find_None_iff)
    then obtain q where q: "find (\<lambda>q. uniqueNetId q = uniqueNetId p) (filter watched ?ps) = Some q" by blast
    then have "q \<in> set (filter watched ?ps)" "uniqueNetId q = uniqueNetId p"
      by (auto simp: find_Some_iff dest!: nth_mem)
    moreover have "inj_on uniqueNetId (set (filter watched ?ps))" using assms by (simp add: distinct_map)
    ultimately have "q = p" using that by (auto dest: inj_onD)
    with q show ?thesis by simp
  qed
  have dead: "wasDead (watch_tick now s) = fold mark_dead (filter watched ?ps) Map.empty"
    by (simp add: watch_tick_def watch_deaths_reports Let_def split_beta)
  have known: "wasDead (watch_tick now s) (uniqueNetId p) = Some (isDead p)" if "p \<in> set ?ps" "watched p" for p
    using fold_now_dead [OF assms, of Map.empty "uniqueNetId p"] found [OF that] by (simp add: dead)
  then have "tick_reports now' (wasDead (watch_tick now s)) ?ps = []"
    by (auto simp: tick_reports_def filter_empty_conv just_died_def)
  then show ?thesis using known
    by (simp add: Let_def) (simp add: watch_tick_def watch_deaths_reports reports_posted Let_def split_beta)
qed

lemma watch_reports_deaths_witness:
  "tick_reports 7 (wasDead (watch_tick 5 \<lparr>wt_world = demo_world, wasDead = Map.empty, deathPosted = Map.empty,
      wt_discord = (\<lambda>_. new_Sender)\<rparr>)) (GetAllPlayers demo_game) = []"
  using watch_reports_deaths [of "\<lparr>wt_world = demo_world, wasDead = Map.empty, deathPosted = Map.empty,
      wt_discord = (\<lambda>_. new_Sender)\<rparr>" 5 7]
  by (simp add: Let_def demo_simps watched_def)


end
