(* ===== verification/Offsets.thy ===== *)
theory Offsets
  imports Engine_Types
begin

text \<open>
  The layout of the game's objects in memory (\<^verbatim>\<open>namespace Offsets\<close> of
  \<^verbatim>\<open>src/src/engine/dom_engine.h\<close>): image offsets, field offsets and sizes, and the limits of the
  object array and of the name pool.
\<close>

definition GObjects :: u64 where
  "GObjects = 0x0DC2E4D0"

definition GNames :: u64 where
  "GNames = 0x0DB72FB8"

definition GWorld :: u64 where
  "GWorld = 0x0DD525F8"

definition ObjArray_Objects :: u64 where
  "ObjArray_Objects = 0x00"

definition ObjArray_MaxElements :: u64 where
  "ObjArray_MaxElements = 0x10"

definition ObjArray_NumElements :: u64 where
  "ObjArray_NumElements = 0x14"

definition ObjArray_MaxChunks :: u64 where
  "ObjArray_MaxChunks = 0x18"

definition ObjArray_NumChunks :: u64 where
  "ObjArray_NumChunks = 0x1C"

definition ObjectsPerChunk :: int where
  "ObjectsPerChunk = 0x10000"

definition ObjectItem_Size :: u64 where
  "ObjectItem_Size = 0x18"

definition NamePool_CurrentBlock :: u64 where
  "NamePool_CurrentBlock = 0x00"

definition NamePool_Blocks :: u64 where
  "NamePool_Blocks = 0x08"

definition NameBlockOffsetBits :: int where
  "NameBlockOffsetBits = 16"

definition NameEntryStride :: int where
  "NameEntryStride = 2"

definition NamePool_MaxBlocks :: int where
  "NamePool_MaxBlocks = 0x2000"

definition UObject_Class :: u64 where
  "UObject_Class = 0x10"

definition UObject_Name :: u64 where
  "UObject_Name = 0x18"

definition UObject_Outer :: u64 where
  "UObject_Outer = 0x20"

definition UStruct_SuperStruct :: u64 where
  "UStruct_SuperStruct = 0x40"

definition World_PersistentLevel :: u64 where
  "World_PersistentLevel = 0x30"

definition World_GameState :: u64 where
  "World_GameState = 0x1E0"

definition GameStateBase_PlayerArray :: u64 where
  "GameStateBase_PlayerArray = 0x2D8"

definition DomGameState_bIsDedicatedServer :: u64 where
  "DomGameState_bIsDedicatedServer = 0x320"

definition DomGameState_bIsCrossplayEnabled :: u64 where
  "DomGameState_bIsCrossplayEnabled = 0x321"

definition DomGameState_DisplayNameComponent :: u64 where
  "DomGameState_DisplayNameComponent = 0x3E8"

definition DomGameState_WorldHardcoreState :: u64 where
  "DomGameState_WorldHardcoreState = 0x420"

definition DisplayName_OriginalCharacterNames :: u64 where
  "DisplayName_OriginalCharacterNames = 0xE0"

definition CharDisplayName_CharacterGuid :: u64 where
  "CharDisplayName_CharacterGuid = 0x98"

definition CharDisplayName_CharacterName :: u64 where
  "CharDisplayName_CharacterName = 0xA8"

definition CharDisplayName_Size :: u64 where
  "CharDisplayName_Size = 0xB8"

definition PlayerState_Score :: u64 where
  "PlayerState_Score = 0x2C0"

definition PlayerState_PlayerId :: u64 where
  "PlayerState_PlayerId = 0x2C4"

definition PlayerState_CompressedPing :: u64 where
  "PlayerState_CompressedPing = 0x2C8"

definition PlayerState_Flags :: u64 where
  "PlayerState_Flags = 0x2CA"

definition PlayerState_StartTime :: u64 where
  "PlayerState_StartTime = 0x2CC"

definition PlayerState_UniqueID :: u64 where
  "PlayerState_UniqueID = 0x2D0"

definition PlayerState_PawnPrivate :: u64 where
  "PlayerState_PawnPrivate = 0x338"

definition PlayerState_PlayerName :: u64 where
  "PlayerState_PlayerName = 0x350"

definition DomPlayerState_CharacterGuid :: u64 where
  "DomPlayerState_CharacterGuid = 0x3D0"

definition DomPlayerState_NetIdSecondary :: u64 where
  "DomPlayerState_NetIdSecondary = 0x428"

definition DomPlayerState_PlayerColor :: u64 where
  "DomPlayerState_PlayerColor = 0x458"

definition DomPlayerState_PlatformData :: u64 where
  "DomPlayerState_PlatformData = 0x480"

definition PlayerColor_Color :: u64 where
  "PlayerColor_Color = 0x00"

definition PlayerColor_HexString :: u64 where
  "PlayerColor_HexString = 0x10"

definition PlatformData_UniqueID :: u64 where
  "PlatformData_UniqueID = 0x00"

definition PlatformData_PlatformName :: u64 where
  "PlatformData_PlatformName = 0x40"

definition NetIdRepl_SharedPtrA :: u64 where
  "NetIdRepl_SharedPtrA = 0x00"

definition NetIdRepl_SharedPtrB :: u64 where
  "NetIdRepl_SharedPtrB = 0x08"

definition NetIdRepl_Size :: u64 where
  "NetIdRepl_Size = 0x30"

definition NetId_FirstMember :: u64 where
  "NetId_FirstMember = 0x18"

definition Actor_RootComponent :: u64 where
  "Actor_RootComponent = 0x1D0"

definition Pawn_Controller :: u64 where
  "Pawn_Controller = 0x2F0"

definition Character_CharacterMovement :: u64 where
  "Character_CharacterMovement = 0x348"

definition SceneComp_RelativeLocation :: u64 where
  "SceneComp_RelativeLocation = 0x148"

definition SceneComp_RelativeRotation :: u64 where
  "SceneComp_RelativeRotation = 0x160"

definition MovementComp_Velocity :: u64 where
  "MovementComp_Velocity = 0xD8"

definition CharMove_MovementMode :: u64 where
  "CharMove_MovementMode = 0x241"

definition DomPlayerChar_AttributesComponent :: u64 where
  "DomPlayerChar_AttributesComponent = 0x1448"

definition DomPlayerChar_HealthComponent :: u64 where
  "DomPlayerChar_HealthComponent = 0x1458"

definition DomPlayerController_SkillComponent :: u64 where
  "DomPlayerController_SkillComponent = 0x820"

definition Attributes_FloatAttributes :: u64 where
  "Attributes_FloatAttributes = 0xD0"

definition Attributes_SharedFloatAttributes :: u64 where
  "Attributes_SharedFloatAttributes = 0xE0"

definition Attributes_AttributeValues :: u64 where
  "Attributes_AttributeValues = 0xF0"

definition Attributes_SharedAttributeValues :: u64 where
  "Attributes_SharedAttributeValues = 0x100"

definition FloatAttribute_BaseValue :: u64 where
  "FloatAttribute_BaseValue = 0x38"

definition Health_bCanDie :: u64 where
  "Health_bCanDie = 0x140"

definition SurvivalStat_Current :: u64 where
  "SurvivalStat_Current = 0x130"

definition SurvivalStat_CurrentMax :: u64 where
  "SurvivalStat_CurrentMax = 0x134"

definition Skill_Skills :: u64 where
  "Skill_Skills = 0x188"

definition FSkill_CurrentXP :: u64 where
  "FSkill_CurrentXP = 0x00"

definition FSkill_SkillData :: u64 where
  "FSkill_SkillData = 0x08"

definition FSkill_Size :: u64 where
  "FSkill_Size = 0x10"

definition DediSettings_OwnerId :: u64 where
  "DediSettings_OwnerId = 0x28"

definition DediSettings_ServerGuid :: u64 where
  "DediSettings_ServerGuid = 0x68"

definition DediSettings_ServerName :: u64 where
  "DediSettings_ServerName = 0x78"

definition DediSettings_DefaultWorldName :: u64 where
  "DediSettings_DefaultWorldName = 0x98"

lemmas offset_defs =
  GObjects_def
  GNames_def
  GWorld_def
  ObjArray_Objects_def
  ObjArray_MaxElements_def
  ObjArray_NumElements_def
  ObjArray_MaxChunks_def
  ObjArray_NumChunks_def
  ObjectsPerChunk_def
  ObjectItem_Size_def
  NamePool_CurrentBlock_def
  NamePool_Blocks_def
  NameBlockOffsetBits_def
  NameEntryStride_def
  NamePool_MaxBlocks_def
  UObject_Class_def
  UObject_Name_def
  UObject_Outer_def
  UStruct_SuperStruct_def
  World_PersistentLevel_def
  World_GameState_def
  GameStateBase_PlayerArray_def
  DomGameState_bIsDedicatedServer_def
  DomGameState_bIsCrossplayEnabled_def
  DomGameState_DisplayNameComponent_def
  DomGameState_WorldHardcoreState_def
  DisplayName_OriginalCharacterNames_def
  CharDisplayName_CharacterGuid_def
  CharDisplayName_CharacterName_def
  CharDisplayName_Size_def
  PlayerState_Score_def
  PlayerState_PlayerId_def
  PlayerState_CompressedPing_def
  PlayerState_Flags_def
  PlayerState_StartTime_def
  PlayerState_UniqueID_def
  PlayerState_PawnPrivate_def
  PlayerState_PlayerName_def
  DomPlayerState_CharacterGuid_def
  DomPlayerState_NetIdSecondary_def
  DomPlayerState_PlayerColor_def
  DomPlayerState_PlatformData_def
  PlayerColor_Color_def
  PlayerColor_HexString_def
  PlatformData_UniqueID_def
  PlatformData_PlatformName_def
  NetIdRepl_SharedPtrA_def
  NetIdRepl_SharedPtrB_def
  NetIdRepl_Size_def
  NetId_FirstMember_def
  Actor_RootComponent_def
  Pawn_Controller_def
  Character_CharacterMovement_def
  SceneComp_RelativeLocation_def
  SceneComp_RelativeRotation_def
  MovementComp_Velocity_def
  CharMove_MovementMode_def
  DomPlayerChar_AttributesComponent_def
  DomPlayerChar_HealthComponent_def
  DomPlayerController_SkillComponent_def
  Attributes_FloatAttributes_def
  Attributes_SharedFloatAttributes_def
  Attributes_AttributeValues_def
  Attributes_SharedAttributeValues_def
  FloatAttribute_BaseValue_def
  Health_bCanDie_def
  SurvivalStat_Current_def
  SurvivalStat_CurrentMax_def
  Skill_Skills_def
  FSkill_CurrentXP_def
  FSkill_SkillData_def
  FSkill_Size_def
  DediSettings_OwnerId_def
  DediSettings_ServerGuid_def
  DediSettings_ServerName_def
  DediSettings_DefaultWorldName_def

end
