(* ===== verification/Uobject.thy ===== *)
theory Uobject
  imports Offsets Memory Serialize
begin

unbundle bit_operations_syntax

text \<open>
  Reading the engine's objects (\<^verbatim>\<open>src/src/engine/uobject.cpp\<close>, \<^verbatim>\<open>FindFunction\<close> of
  \<^verbatim>\<open>kick.cpp\<close>): the object array, names, classes, strings, identifiers and the search for
  objects. A call sees one state of the memory: which ranges the guard \<^verbatim>\<open>Mem::Readable\<close>
  accepts, which addresses lie in the image, and the bytes.
\<close>

section \<open>Memory as the readers see it\<close>

record Heap =
  hp_readable :: "u64 \<Rightarrow> nat \<Rightarrow> bool"
  hp_image :: "u64 \<Rightarrow> bool"
  hp_byte :: "u64 \<Rightarrow> 8 word"

text \<open>\<^verbatim>\<open>Mem::Read\<close> of \<open>n\<close> bytes, and the typed reads with fallback 0.\<close>

definition rd :: "Heap \<Rightarrow> nat \<Rightarrow> u64 \<Rightarrow> 8 word list option" where
  "rd h n a = (if a = 0 \<or> \<not> hp_readable h a n then None else Some (load (hp_byte h) a n))"

definition le_ptr :: "8 word list \<Rightarrow> u64" where
  "le_ptr bs = word_of_int (little_endian bs)"

definition le_i32 :: "8 word list \<Rightarrow> int" where
  "le_i32 bs = sint (word_of_int (little_endian bs) :: 32 word)"

definition le_nat :: "8 word list \<Rightarrow> nat" where
  "le_nat bs = nat (little_endian bs)"

definition peek_ptr :: "Heap \<Rightarrow> u64 \<Rightarrow> u64" where
  "peek_ptr h a = (case rd h 8 a of None \<Rightarrow> 0 | Some bs \<Rightarrow> le_ptr bs)"

definition peek_i32 :: "Heap \<Rightarrow> u64 \<Rightarrow> int" where
  "peek_i32 h a = (case rd h 4 a of None \<Rightarrow> 0 | Some bs \<Rightarrow> le_i32 bs)"

definition peek_u8 :: "Heap \<Rightarrow> u64 \<Rightarrow> nat" where
  "peek_u8 h a = (case rd h 1 a of None \<Rightarrow> 0 | Some bs \<Rightarrow> le_nat bs)"

text \<open>The conversion \<^verbatim>\<open>(uint32_t)\<close> of an \<^verbatim>\<open>int32_t\<close>.\<close>

definition u32_of :: "int \<Rightarrow> nat" where
  "u32_of i = nat (i mod 2 ^ 32)"


section \<open>Text\<close>

definition AppendUtf8 :: "nat \<Rightarrow> string" where
  "AppendUtf8 codepoint =
     (if codepoint < 0x80 then [char_of codepoint]
      else if codepoint < 0x800 then
        [char_of (0xC0 OR drop_bit 6 codepoint), char_of (0x80 OR (codepoint AND 0x3F))]
      else if codepoint < 0x10000 then
        [char_of (0xE0 OR drop_bit 12 codepoint), char_of (0x80 OR (drop_bit 6 codepoint AND 0x3F)),
         char_of (0x80 OR (codepoint AND 0x3F))]
      else
        [char_of (0xF0 OR drop_bit 18 codepoint), char_of (0x80 OR (drop_bit 12 codepoint AND 0x3F)),
         char_of (0x80 OR (drop_bit 6 codepoint AND 0x3F)), char_of (0x80 OR (codepoint AND 0x3F))])"

definition high_surrogate :: "nat \<Rightarrow> bool" where
  "high_surrogate u = (u \<ge> 0xD800 \<and> u \<le> 0xDBFF)"

definition low_surrogate :: "nat \<Rightarrow> bool" where
  "low_surrogate u = (u \<ge> 0xDC00 \<and> u \<le> 0xDFFF)"

fun Utf16ToUtf8 :: "nat list \<Rightarrow> string" where
  "Utf16ToUtf8 [] = []"
| "Utf16ToUtf8 [u] = AppendUtf8 u"
| "Utf16ToUtf8 (u # v # us) =
     (if high_surrogate u \<and> low_surrogate v
      then AppendUtf8 (0x10000 + push_bit 10 (u - 0xD800) + (v - 0xDC00)) @ Utf16ToUtf8 us
      else AppendUtf8 u @ Utf16ToUtf8 (v # us))"

definition IsPrintableAscii :: "string \<Rightarrow> bool" where
  "IsPrintableAscii s = (s \<noteq> [] \<and> list_all (\<lambda>c. 0x20 \<le> code c \<and> code c \<le> 0x7E) s)"

text \<open>\<open>n\<close> 16-bit units, and \<open>n\<close> characters, at an address.\<close>

definition units :: "Heap \<Rightarrow> u64 \<Rightarrow> nat \<Rightarrow> nat list" where
  "units h a n = map (\<lambda>k. le_nat (load (hp_byte h) (a + word_of_nat (2 * k)) 2)) [0 ..< n]"

definition chars :: "Heap \<Rightarrow> u64 \<Rightarrow> nat \<Rightarrow> string" where
  "chars h a n = map (\<lambda>b. char_of (unat b)) (load (hp_byte h) a n)"

record FString =
  fs_Data :: u64
  fs_Num :: int
  fs_Max :: int

text \<open>The copy of the 16 bytes of an \<^verbatim>\<open>FString\<close> or \<^verbatim>\<open>FUEArray\<close>.\<close>

definition copy_FString :: "Heap \<Rightarrow> u64 \<Rightarrow> FString" where
  "copy_FString h a = \<lparr>fs_Data = le_ptr (load (hp_byte h) a 8), fs_Num = le_i32 (load (hp_byte h) (a + 8) 4),
     fs_Max = le_i32 (load (hp_byte h) (a + 12) 4)\<rparr>"

definition ReadFString :: "Heap \<Rightarrow> u64 \<Rightarrow> string" where
  "ReadFString h a =
     (if a = 0 \<or> \<not> hp_readable h a 16 then []
      else
        (let v = copy_FString h a
         in if fs_Data v = 0 \<or> fs_Num v \<le> 1 \<or> fs_Num v > 8192 then []
            else if fs_Max v < fs_Num v then []
            else if \<not> hp_readable h (fs_Data v) (nat (fs_Num v) * 2) then []
            else Utf16ToUtf8 (units h (fs_Data v) (nat (fs_Num v - 1)))))"

text \<open>The conversion \<^verbatim>\<open>%08X\<close>.\<close>

definition hex8 :: "nat \<Rightarrow> string" where
  "hex8 n = zeros 8 (show_hex n)"

definition guid_parts :: "Heap \<Rightarrow> u64 \<Rightarrow> nat list" where
  "guid_parts h a = map (\<lambda>k. le_nat (load (hp_byte h) (a + word_of_nat (4 * k)) 4)) [0 ..< 4]"

definition ReadGuid :: "Heap \<Rightarrow> u64 \<Rightarrow> string" where
  "ReadGuid h a =
     (if a = 0 \<or> \<not> hp_readable h a 16 then []
      else
        (let parts = guid_parts h a
         in if list_all (\<lambda>p. p = 0) parts then [] else concat (map hex8 parts)))"

definition net_id_at :: "Heap \<Rightarrow> u64 \<Rightarrow> u64 \<Rightarrow> string option" where
  "net_id_at h netIdRepl candidate =
     (let netId = peek_ptr h (netIdRepl + candidate)
      in if netId = 0 \<or> \<not> hp_readable h netId (unat NetId_FirstMember + 16) then None
         else if \<not> hp_image h (peek_ptr h netId) then None
         else
           (let v = ReadFString h (netId + NetId_FirstMember)
            in if \<not> IsPrintableAscii v \<or> length v > 128 then None else Some v))"

text \<open>\<^verbatim>\<open>ReadUniqueNetId\<close>: the id and its source.\<close>

definition ReadUniqueNetId :: "Heap \<Rightarrow> u64 \<Rightarrow> string \<times> string" where
  "ReadUniqueNetId h a =
     (if a = 0 \<or> \<not> hp_readable h a (unat NetIdRepl_Size) then ([], [])
      else case net_id_at h a NetIdRepl_SharedPtrA of
        Some v \<Rightarrow> (v, ''net-id-string'')
      | None \<Rightarrow> (case net_id_at h a NetIdRepl_SharedPtrB of
          Some v \<Rightarrow> (v, ''net-id-string'') | None \<Rightarrow> ([], [])))"


section \<open>Objects and names\<close>

record Engine =
  e_moduleBase :: u64
  e_moduleEnd :: u64
  e_gObjects :: u64
  e_gNames :: u64
  e_initialized :: bool
  e_gObjectsSource :: string
  e_gNamesSource :: string
  e_worldSource :: string
  e_attempts :: int

definition new_Engine :: Engine where
  "new_Engine = \<lparr>e_moduleBase = 0, e_moduleEnd = 0, e_gObjects = 0, e_gNames = 0, e_initialized = False,
     e_gObjectsSource = [], e_gNamesSource = [], e_worldSource = [], e_attempts = 0\<rparr>"

definition GetObjectCount :: "Heap \<Rightarrow> Engine \<Rightarrow> int" where
  "GetObjectCount h e = (if e_gObjects e = 0 then 0 else peek_i32 h (e_gObjects e + ObjArray_NumElements))"

definition GetObjectByIndex :: "Heap \<Rightarrow> Engine \<Rightarrow> int \<Rightarrow> u64" where
  "GetObjectByIndex h e index =
     (if e_gObjects e = 0 \<or> index < 0 then 0
      else
        (let numElements = peek_i32 h (e_gObjects e + ObjArray_NumElements);
             numChunks = peek_i32 h (e_gObjects e + ObjArray_NumChunks);
             chunkIndex = index div ObjectsPerChunk;
             inChunk = index mod ObjectsPerChunk
         in if index \<ge> numElements then 0
            else if chunkIndex \<ge> numChunks then 0
            else
              (let chunks = peek_ptr h (e_gObjects e + ObjArray_Objects)
               in if chunks = 0 then 0
                  else
                    (let chunk = peek_ptr h (chunks + word_of_int chunkIndex * 8)
                     in if chunk = 0 then 0 else peek_ptr h (chunk + word_of_int inChunk * ObjectItem_Size)))))"

definition NameToString :: "Heap \<Rightarrow> Engine \<Rightarrow> nat \<Rightarrow> nat \<Rightarrow> string" where
  "NameToString h e comparisonIndex number =
     (if e_gNames e = 0 then []
      else
        (let blockIndex = drop_bit (nat NameBlockOffsetBits) comparisonIndex;
             inBlock = take_bit (nat NameBlockOffsetBits) comparisonIndex
         in if int blockIndex \<ge> NamePool_MaxBlocks then []
            else
              (let block = peek_ptr h (e_gNames e + NamePool_Blocks + word_of_nat blockIndex * 8);
                   entry = block + word_of_nat inBlock * word_of_int NameEntryStride
               in if block = 0 then []
                  else case rd h 2 entry of
                    None \<Rightarrow> []
                  | Some hd2 \<Rightarrow>
                      (let header = le_nat hd2; isWide = odd header; len = drop_bit 6 header;
                           suffix = (if number > 0 then ''_'' @ show_nat (number - 1) else [])
                       in if len = 0 \<or> len > 1024 then []
                          else if isWide
                          then (if \<not> hp_readable h (entry + 2) (2 * len) then []
                                else Utf16ToUtf8 (units h (entry + 2) len) @ suffix)
                          else (if \<not> hp_readable h (entry + 2) len then []
                                else chars h (entry + 2) len @ suffix)))))"

definition GetObjectName :: "Heap \<Rightarrow> Engine \<Rightarrow> u64 \<Rightarrow> string" where
  "GetObjectName h e ob =
     (if ob = 0 \<or> \<not> hp_readable h ob 0x28 then []
      else NameToString h e (u32_of (peek_i32 h (ob + UObject_Name))) (u32_of (peek_i32 h (ob + UObject_Name + 4))))"

definition GetObjectClassName :: "Heap \<Rightarrow> Engine \<Rightarrow> u64 \<Rightarrow> string" where
  "GetObjectClassName h e ob =
     (if ob = 0 \<or> \<not> hp_readable h ob 0x28 then [] else GetObjectName h e (peek_ptr h (ob + UObject_Class)))"

text \<open>The walk up the class chain; \<open>n\<close> is the number of steps left of the 32.\<close>

fun isa_from :: "Heap \<Rightarrow> Engine \<Rightarrow> string \<Rightarrow> nat \<Rightarrow> u64 \<Rightarrow> bool" where
  "isa_from h e className 0 classPtr = False"
| "isa_from h e className (Suc n) classPtr =
     (if classPtr = 0 then False
      else if GetObjectName h e classPtr = className then True
      else isa_from h e className n (peek_ptr h (classPtr + UStruct_SuperStruct)))"

definition IsA :: "Heap \<Rightarrow> Engine \<Rightarrow> u64 \<Rightarrow> string \<Rightarrow> bool" where
  "IsA h e ob className = (if ob = 0 then False else isa_from h e className 32 (peek_ptr h (ob + UObject_Class)))"

text \<open>The objects a sweep over the array visits, null slots skipped.\<close>

definition objects :: "Heap \<Rightarrow> Engine \<Rightarrow> u64 list" where
  "objects h e = filter (\<lambda>ob. ob \<noteq> 0) (map (GetObjectByIndex h e) [0 .. GetObjectCount h e - 1])"

definition first_of :: "(u64 \<Rightarrow> bool) \<Rightarrow> u64 list \<Rightarrow> u64" where
  "first_of P obs = (case find P obs of None \<Rightarrow> 0 | Some ob \<Rightarrow> ob)"

definition is_default :: "Heap \<Rightarrow> Engine \<Rightarrow> u64 \<Rightarrow> bool" where
  "is_default h e ob = starts_with ''Default__'' (GetObjectName h e ob)"

definition FindObject :: "Heap \<Rightarrow> Engine \<Rightarrow> string \<Rightarrow> bool \<Rightarrow> u64" where
  "FindObject h e className wantDefaultObject =
     first_of (\<lambda>ob. GetObjectClassName h e ob = className \<and> is_default h e ob = wantDefaultObject) (objects h e)"

definition FindFunction :: "Heap \<Rightarrow> Engine \<Rightarrow> string \<Rightarrow> string \<Rightarrow> u64" where
  "FindFunction h e className functionName =
     first_of (\<lambda>ob. GetObjectClassName h e ob = ''Function'' \<and> GetObjectName h e ob = functionName \<and>
                   GetObjectName h e (peek_ptr h (ob + UObject_Outer)) = className) (objects h e)"

text \<open>\<^verbatim>\<open>GetWorld\<close>: the world and where it was found.\<close>

definition GetWorld :: "Heap \<Rightarrow> Engine \<Rightarrow> u64 \<times> string" where
  "GetWorld h e =
     (let world = peek_ptr h (e_moduleBase e + GWorld)
      in if world \<noteq> 0 \<and> GetObjectClassName h e world = ''World'' \<and> peek_ptr h (world + World_PersistentLevel) \<noteq> 0
         then (world, ''gworld'')
         else case find (\<lambda>ob. GetObjectClassName h e ob = ''World'' \<and> \<not> is_default h e ob \<and>
                             peek_ptr h (ob + World_PersistentLevel) \<noteq> 0) (objects h e) of
           Some ob \<Rightarrow> (ob, ''gobjects-sweep'')
         | None \<Rightarrow> (0, []))"

definition GetGameState :: "Heap \<Rightarrow> Engine \<Rightarrow> u64" where
  "GetGameState h e = (let world = fst (GetWorld h e) in if world = 0 then 0 else peek_ptr h (world + World_GameState))"

text \<open>The sweep of \<^verbatim>\<open>ListLoaded\<close> in \<^verbatim>\<open>items.cpp\<close> before names are filtered and sorted.\<close>

definition kMaxStackSize :: u64 where
  "kMaxStackSize = 0x124"

definition read_items :: "Heap \<Rightarrow> Engine \<Rightarrow> ItemInfo list" where
  "read_items h e = map (\<lambda>ob. \<lparr>item_name = GetObjectName h e ob, item_object = ob,
      maxStackSize = peek_i32 h (ob + kMaxStackSize)\<rparr>) (filter (\<lambda>ob. IsA h e ob ''ItemData'') (objects h e))"


section \<open>Writing strings for the game\<close>

text \<open>Bytes in little-endian order, and a store of bytes at an address.\<close>

fun le_bytes :: "nat \<Rightarrow> int \<Rightarrow> 8 word list" where
  "le_bytes 0 v = []"
| "le_bytes (Suc n) v = word_of_int v # le_bytes n (v div 256)"

definition poke :: "u64 \<Rightarrow> 8 word list \<Rightarrow> Heap \<Rightarrow> Heap" where
  "poke a bs h = h\<lparr>hp_byte := (\<lambda>x. if unat (x - a) < length bs then bs ! unat (x - a) else hp_byte h x)\<rparr>"

text \<open>
  \<^verbatim>\<open>WriteFString\<close>: each byte of the string becomes one 16-bit unit. \<open>buffer\<close> is the address the
  allocation returned.
\<close>

definition WriteFString :: "u64 \<Rightarrow> u64 \<Rightarrow> string \<Rightarrow> Heap \<Rightarrow> Heap" where
  "WriteFString buffer dest v h =
     (let count = int (length v) + 1;
          h1 = poke buffer (concat (map (\<lambda>c. le_bytes 2 (int (code c))) v) @ le_bytes 2 0) h
      in poke (dest + 12) (le_bytes 4 count) (poke (dest + 8) (le_bytes 4 count) (poke dest (le_bytes 8 (uint buffer)) h1)))"


section \<open>Readers stay inside guarded memory\<close>

text \<open>
  Two memories agree when the guard and the image are the same and the bytes of every range
  the guard accepts are. A reader that gives the same result on agreeing memories depends on
  no byte the guard did not accept.
\<close>

definition agree :: "Heap \<Rightarrow> Heap \<Rightarrow> bool" where
  "agree h h' = (hp_readable h = hp_readable h' \<and> hp_image h = hp_image h' \<and>
     (\<forall>a n k. hp_readable h a n \<and> k < n \<longrightarrow> hp_byte h (a + word_of_nat k) = hp_byte h' (a + word_of_nat k)))"

named_theorems guarded

lemma agreeD [guarded]: "agree h h' \<Longrightarrow> hp_readable h a n = hp_readable h' a n" "agree h h' \<Longrightarrow> hp_image h a = hp_image h' a"
  by (simp_all add: agree_def)

lemma load_agree:
  assumes "agree h h'" "hp_readable h' a n" "m + k \<le> n"
  shows "load (hp_byte h) (a + word_of_nat m) k = load (hp_byte h') (a + word_of_nat m) k"
proof -
  have "hp_byte h (a + word_of_nat m + word_of_nat i) = hp_byte h' (a + word_of_nat m + word_of_nat i)" if "i < k" for i
  proof -
    have "hp_byte h (a + word_of_nat (m + i)) = hp_byte h' (a + word_of_nat (m + i))"
      using assms that unfolding agree_def by (metis add_less_cancel_left less_le_trans)
    then show ?thesis by (simp add: add.assoc)
  qed
  then show ?thesis by (simp add: load_def)
qed

lemmas load_agree0 = load_agree [where m = 0, simplified]

lemma rd_agree [guarded]: "agree h h' \<Longrightarrow> rd h n a = rd h' n a"
  using load_agree0 [of h h' a n n] by (simp add: rd_def guarded)

lemma peek_agree [guarded]:
  assumes "agree h h'"
  shows "peek_ptr h a = peek_ptr h' a" "peek_i32 h a = peek_i32 h' a" "peek_u8 h a = peek_u8 h' a"
  using rd_agree [OF assms] by (simp_all add: peek_ptr_def peek_i32_def peek_u8_def)

lemma units_agree: "agree h h' \<Longrightarrow> hp_readable h' a m \<Longrightarrow> 2 * n \<le> m \<Longrightarrow> units h a n = units h' a n"
proof -
  assume "agree h h'" "hp_readable h' a m" "2 * n \<le> m"
  then have "load (hp_byte h) (a + word_of_nat (2 * k)) 2 = load (hp_byte h') (a + word_of_nat (2 * k)) 2" if "k < n" for k
    using that by (intro load_agree [of h h' a m]) auto
  then show ?thesis unfolding units_def by (intro map_cong) (auto simp del: of_nat_mult)
qed

lemma chars_agree: "agree h h' \<Longrightarrow> hp_readable h' a n \<Longrightarrow> chars h a n = chars h' a n"
  using load_agree0 [of h h' a n n] by (simp add: chars_def)

lemma copy_FString_agree: "agree h h' \<Longrightarrow> hp_readable h' a 16 \<Longrightarrow> copy_FString h a = copy_FString h' a"
  using load_agree [of h h' a 16 0 8] load_agree [of h h' a 16 8 4] load_agree [of h h' a 16 12 4]
  by (simp add: copy_FString_def)

lemma ReadFString_agree [guarded]: "agree h h' \<Longrightarrow> ReadFString h a = ReadFString h' a"
  by (auto simp: ReadFString_def Let_def guarded copy_FString_agree units_agree)

lemma guid_parts_agree:
  assumes "agree h h'" "hp_readable h' a 16"
  shows "guid_parts h a = guid_parts h' a"
  unfolding guid_parts_def
  using load_agree [OF assms, of "4 * k" 4 for k] by (intro map_cong) (auto simp del: of_nat_mult)

lemma ReadGuid_agree [guarded]: "agree h h' \<Longrightarrow> ReadGuid h a = ReadGuid h' a"
  by (simp add: ReadGuid_def guarded guid_parts_agree)

lemma net_id_agree [guarded]: "agree h h' \<Longrightarrow> net_id_at h a c = net_id_at h' a c"
  by (simp add: net_id_at_def guarded Let_def)

lemma ReadUniqueNetId_agree [guarded]: "agree h h' \<Longrightarrow> ReadUniqueNetId h a = ReadUniqueNetId h' a"
  by (simp add: ReadUniqueNetId_def guarded split: option.split)

lemma objects_agree [guarded]:
  assumes "agree h h'"
  shows "GetObjectCount h e = GetObjectCount h' e" "GetObjectByIndex h e i = GetObjectByIndex h' e i"
    "objects h e = objects h' e"
proof -
  have i: "GetObjectByIndex h e = GetObjectByIndex h' e"
    using assms by (intro ext) (simp add: GetObjectByIndex_def guarded Let_def)
  then show "GetObjectByIndex h e i = GetObjectByIndex h' e i" by simp
  show c: "GetObjectCount h e = GetObjectCount h' e" using assms by (simp add: GetObjectCount_def guarded)
  show "objects h e = objects h' e" by (simp add: objects_def i c)
qed

lemma NameToString_agree [guarded]: "agree h h' \<Longrightarrow> NameToString h e c n = NameToString h' e c n"
  by (auto simp: NameToString_def Let_def guarded units_agree chars_agree split: option.split)

lemma GetObjectName_agree [guarded]: "agree h h' \<Longrightarrow> GetObjectName h e ob = GetObjectName h' e ob"
  by (simp add: GetObjectName_def guarded)

lemma GetObjectClassName_agree [guarded]: "agree h h' \<Longrightarrow> GetObjectClassName h e ob = GetObjectClassName h' e ob"
  by (simp add: GetObjectClassName_def guarded)

lemma isa_agree: "agree h h' \<Longrightarrow> isa_from h e c n p = isa_from h' e c n p"
  by (induction n arbitrary: p) (simp_all add: guarded)

lemma IsA_agree [guarded]: "agree h h' \<Longrightarrow> IsA h e ob c = IsA h' e ob c"
  by (simp add: IsA_def guarded isa_agree)

lemma is_default_agree [guarded]: "agree h h' \<Longrightarrow> is_default h e ob = is_default h' e ob"
  by (simp add: is_default_def guarded)

lemma search_agree [guarded]:
  assumes "agree h h'"
  shows "FindObject h e c d = FindObject h' e c d" "FindFunction h e c f = FindFunction h' e c f"
    "GetWorld h e = GetWorld h' e" "GetGameState h e = GetGameState h' e" "read_items h e = read_items h' e"
  using assms by (simp_all add: FindObject_def FindFunction_def GetWorld_def GetGameState_def read_items_def guarded Let_def)


section \<open>Text conversion\<close>

text \<open>Code points that text can hold, and their encodings in 16-bit units.\<close>

definition scalar :: "nat \<Rightarrow> bool" where
  "scalar c = (c < 0x110000 \<and> \<not> (0xD800 \<le> c \<and> c \<le> 0xDFFF))"

definition utf16 :: "nat \<Rightarrow> nat list" where
  "utf16 c = (if c < 0x10000 then [c] else [0xD800 + (c - 0x10000) div 1024, 0xDC00 + (c - 0x10000) mod 1024])"

text \<open>The strict decoder of UTF-8: shortest forms only, no surrogates, at most U+10FFFF.\<close>

definition cont :: "char \<Rightarrow> bool" where
  "cont b = (0x80 \<le> code b \<and> code b < 0xC0)"

fun utf8_decode :: "string \<Rightarrow> nat list option" where
  "utf8_decode [] = Some []"
| "utf8_decode (a # s) =
     (if code a < 0x80 then map_option (Cons (code a)) (utf8_decode s)
      else if 0xC2 \<le> code a \<and> code a < 0xE0 then
        (case s of
           b # s' \<Rightarrow> if cont b then map_option (Cons ((code a - 0xC0) * 64 + (code b - 0x80))) (utf8_decode s') else None
         | _ \<Rightarrow> None)
      else if 0xE0 \<le> code a \<and> code a < 0xF0 then
        (case s of
           b # c # s' \<Rightarrow>
             (let v = ((code a - 0xE0) * 64 + (code b - 0x80)) * 64 + (code c - 0x80)
              in if cont b \<and> cont c \<and> 0x800 \<le> v \<and> scalar v then map_option (Cons v) (utf8_decode s') else None)
         | _ \<Rightarrow> None)
      else if 0xF0 \<le> code a \<and> code a < 0xF5 then
        (case s of
           b # c # d # s' \<Rightarrow>
             (let v = (((code a - 0xF0) * 64 + (code b - 0x80)) * 64 + (code c - 0x80)) * 64 + (code d - 0x80)
              in if cont b \<and> cont c \<and> cont d \<and> 0x10000 \<le> v \<and> scalar v then map_option (Cons v) (utf8_decode s') else None)
         | _ \<Rightarrow> None)
      else None)"

text \<open>The bytes with the bit operations turned into arithmetic.\<close>

lemma or_tag: "(b :: nat) < 2 ^ n \<Longrightarrow> (k * 2 ^ n) OR b = k * 2 ^ n + b"
proof -
  assume "b < 2 ^ n"
  then have "take_bit n b = b" by (simp add: take_bit_nat_eq_self_iff)
  then have "bit (k * 2 ^ n) i \<Longrightarrow> \<not> bit b i" for i
    by (metis bit_push_bit_iff bit_take_bit_iff linorder_not_le push_bit_eq_mult)
  then show ?thesis by (intro disjunctive_add [symmetric]) blast
qed

lemma utf8_tags:
  fixes b :: nat
  shows "b < 0x40 \<Longrightarrow> 0x80 OR b = 0x80 + b" "b < 0x20 \<Longrightarrow> 0xC0 OR b = 0xC0 + b" "b < 0x10 \<Longrightarrow> 0xE0 OR b = 0xE0 + b"
    "b < 8 \<Longrightarrow> 0xF0 OR b = 0xF0 + b"
  using or_tag [of b 6 2] or_tag [of b 5 6] or_tag [of b 4 14] or_tag [of b 3 30] by simp_all

lemma and_63: "(c :: nat) AND 0x3F = c mod 64"
  using take_bit_eq_mask [of 6 c] by (simp add: take_bit_eq_mod mask_eq_exp_minus_1)

lemma drop_bits: "drop_bit 6 (c :: nat) = c div 64" "drop_bit 12 c = c div 4096" "drop_bit 18 c = c div 262144"
  by (simp_all add: drop_bit_eq_div)

lemma AppendUtf8_arith:
  "c < 0x110000 \<Longrightarrow> AppendUtf8 c =
     (if c < 0x80 then [char_of c]
      else if c < 0x800 then [char_of (0xC0 + c div 64), char_of (0x80 + c mod 64)]
      else if c < 0x10000 then [char_of (0xE0 + c div 4096), char_of (0x80 + c div 64 mod 64), char_of (0x80 + c mod 64)]
      else [char_of (0xF0 + c div 262144), char_of (0x80 + c div 4096 mod 64), char_of (0x80 + c div 64 mod 64),
            char_of (0x80 + c mod 64)])"
  by (simp add: AppendUtf8_def and_63 drop_bits utf8_tags less_mult_imp_div_less)

lemma code_char: "n < 256 \<Longrightarrow> code (char_of n) = n"
  by simp

lemma base64_digits:
  fixes c :: nat
  shows "(c div 4096 * 64 + c div 64 mod 64) * 64 + c mod 64 = c"
    "((c div 262144 * 64 + c div 4096 mod 64) * 64 + c div 64 mod 64) * 64 + c mod 64 = c"
proof -
  have d: "c div 4096 = c div 64 div 64" "c div 262144 = c div 64 div 64 div 64"
    by (simp_all add: div_mult2_eq [symmetric])
  have m: "x div 64 * 64 + x mod 64 = x" for x :: nat by (rule div_mult_mod_eq)
  show "(c div 4096 * 64 + c div 64 mod 64) * 64 + c mod 64 = c"
    "((c div 262144 * 64 + c div 4096 mod 64) * 64 + c div 64 mod 64) * 64 + c mod 64 = c"
    unfolding d m by (rule refl)+
qed

lemma utf8_decode_AppendUtf8:
  assumes "scalar c"
  shows "utf8_decode (AppendUtf8 c @ s) = map_option (Cons c) (utf8_decode s)"
proof -
  have c: "c < 0x110000" using assms by (simp add: scalar_def)
  consider "c < 0x80" | "0x80 \<le> c" "c < 0x800" | "0x800 \<le> c" "c < 0x10000" | "0x10000 \<le> c" by linarith
  then show ?thesis
  proof cases
    case 1
    then show ?thesis by (simp add: AppendUtf8_arith)
  next
    case 2
    then have "2 \<le> c div 64" "c div 64 < 32" by linarith+
    moreover have "c mod 64 < 64" by simp
    ultimately show ?thesis using 2 c by (simp add: AppendUtf8_arith cont_def code_char)
  next
    case 3
    have b: "c div 4096 < 16" "c div 64 mod 64 < 64" "c mod 64 < 64" using 3 by (simp_all add: less_mult_imp_div_less)
    show ?thesis using 3 b assms base64_digits(1) [of c] by (simp add: AppendUtf8_arith cont_def code_char Let_def)
  next
    case 4
    have b: "c div 262144 < 5" "c div 4096 mod 64 < 64" "c div 64 mod 64 < 64" "c mod 64 < 64"
      using c by (simp_all add: less_mult_imp_div_less)
    show ?thesis using 4 b assms c base64_digits(2) [of c] by (simp add: AppendUtf8_arith cont_def code_char Let_def)
  qed
qed

lemma Utf16ToUtf8_scalar:
  assumes "scalar c"
  shows "Utf16ToUtf8 (utf16 c @ us) = AppendUtf8 c @ Utf16ToUtf8 us"
proof (cases "c < 0x10000")
  case True
  then have "\<not> high_surrogate c" using assms by (auto simp: scalar_def high_surrogate_def)
  with True show ?thesis by (cases us) (simp_all add: utf16_def)
next
  case False
  define d where "d = c - 0x10000"
  have d: "c = 0x10000 + d" "d < 0x100000" using False assms by (auto simp: d_def scalar_def)
  have "d div 1024 < 1024" "d mod 1024 \<le> 1023" using d by (simp_all add: less_mult_imp_div_less less_Suc_eq_le [symmetric])
  moreover have "push_bit 10 (d div 1024) + d mod 1024 = d" by (simp add: push_bit_eq_mult)
  ultimately show ?thesis using d by (simp add: utf16_def high_surrogate_def low_surrogate_def add.assoc)
qed

lemma Utf16ToUtf8_text: "list_all scalar cs \<Longrightarrow> Utf16ToUtf8 (concat (map utf16 cs)) = concat (map AppendUtf8 cs)"
  by (induction cs) (simp_all add: Utf16ToUtf8_scalar)

lemma utf8_decode_text: "list_all scalar cs \<Longrightarrow> utf8_decode (concat (map AppendUtf8 cs)) = Some cs"
  by (induction cs) (simp_all add: utf8_decode_AppendUtf8)


section \<open>Stored bytes\<close>

lemma length_le_bytes [simp]: "length (le_bytes n v) = n"
  by (induction n v rule: le_bytes.induct) auto

lemma little_endian_le_bytes: "little_endian (le_bytes n v) = v mod 256 ^ n"
proof (induction n v rule: le_bytes.induct)
  case (2 n v)
  have "little_endian (le_bytes (Suc n) v) = v mod 256 + 256 * (v div 256 mod 256 ^ n)"
    using 2 by (simp add: little_endian_def unsigned_of_int take_bit_eq_mod)
  then show ?case using zmod_zmult2_eq [of "256 ^ n" v 256] by simp
qed (simp add: little_endian_def)

lemma poke_simps [simp]: "hp_readable (poke a bs h) = hp_readable h" "hp_image (poke a bs h) = hp_image h"
  by (simp_all add: poke_def)

lemma load_poke_same:
  assumes "m + k \<le> length bs" "length bs < 2 ^ 64"
  shows "load (hp_byte (poke a bs h)) (a + word_of_nat m) k = take k (drop m bs)"
proof (rule nth_equalityI)
  fix i assume "i < length (load (hp_byte (poke a bs h)) (a + word_of_nat m) k)"
  then have i: "i < k" by (simp add: load_def)
  have "unat (word_of_nat m + word_of_nat i :: u64) = m + i"
    using assms i by (simp add: unat_of_nat flip: of_nat_add)
  then show "load (hp_byte (poke a bs h)) (a + word_of_nat m) k ! i = take k (drop m bs) ! i"
    using assms i by (simp add: load_def poke_def add.assoc)
qed (use assms in \<open>simp add: load_def\<close>)

text \<open>Ranges that do not meet: the distance in both directions exceeds the lengths.\<close>

definition apart :: "u64 \<Rightarrow> nat \<Rightarrow> u64 \<Rightarrow> nat \<Rightarrow> bool" where
  "apart a n b k = (n \<le> unat (b - a) \<and> k \<le> unat (a - b))"

lemma load_poke_other:
  assumes "apart a (length bs) b k"
  shows "load (hp_byte (poke a bs h)) b k = load (hp_byte h) b k"
proof -
  have "length bs \<le> unat (b + word_of_nat i - a)" if "i < k" for i
  proof -
    have "(unat (a - b) + unat (b - a)) mod 2 ^ 64 = unat ((a - b) + (b - a))"
      by (simp only: unat_word_ariths(1)) simp
    then have "2 ^ 64 dvd unat (a - b) + unat (b - a)" by (simp add: dvd_eq_mod_eq_0)
    moreover have "unat (a - b) + unat (b - a) < 2 * 2 ^ 64" using unsigned_less [of "a - b", where 'a = nat] unsigned_less [of "b - a", where 'a = nat] by simp
    ultimately have "unat (a - b) + unat (b - a) \<le> 2 ^ 64" by (auto elim!: dvdE)
    then have "unat (b - a) + i < 2 ^ 64" using assms that by (auto simp: apart_def)
    then have "unat (b - a + word_of_nat i) = unat (b - a) + i"
      by (simp add: unat_word_ariths unat_of_nat)
    then show ?thesis using assms by (simp add: apart_def algebra_simps)
  qed
  then show ?thesis by (force simp: load_def poke_def)
qed

lemma chunk_of_concat:
  "(\<And>x. length (g x) = w) \<Longrightarrow> k < length xs \<Longrightarrow> take w (drop (w * k) (concat (map g xs) @ t)) = g (xs ! k)"
proof (induction xs arbitrary: k)
  case (Cons x xs)
  then show ?case by (cases k) simp_all
qed simp

lemma length_chunks: "(\<And>x. length (g x) = w) \<Longrightarrow> length (concat (map g xs)) = w * length xs"
  by (induction xs) simp_all

lemma of_char_mod_65536: "code c mod 65536 = code c"
  by (rule mod_less, rule less_trans [OF nat_of_char_less_256]) simp

lemma units_stored:
  assumes "length v < 2 ^ 60"
  shows "units (poke buffer (concat (map (\<lambda>c. le_bytes 2 (int (code c))) v) @ le_bytes 2 0) h) buffer (length v) = map code v"
proof (rule nth_equalityI)
  let ?bs = "concat (map (\<lambda>c. le_bytes 2 (int (code c))) v) @ le_bytes 2 0"
  fix k assume "k < length (units (poke buffer ?bs h) buffer (length v))"
  then have k: "k < length v" by (simp add: units_def)
  have l: "length ?bs = 2 * length v + 2" by (simp add: length_chunks [where w = 2])
  have "load (hp_byte (poke buffer ?bs h)) (buffer + word_of_nat (2 * k)) 2 = take 2 (drop (2 * k) ?bs)"
    using k l assms by (intro load_poke_same) simp_all
  also have "\<dots> = le_bytes 2 (int (code (v ! k)))" by (rule chunk_of_concat) (use k in simp_all)
  finally show "units (poke buffer ?bs h) buffer (length v) ! k = map code v ! k"
    using k by (simp add: units_def le_nat_def little_endian_le_bytes del: of_nat_mult) (simp add: nat_mod_distrib of_char_mod_65536)
qed (simp add: units_def)

lemma le_roundtrip:
  "le_ptr (le_bytes 8 (uint p)) = p" "- (2 ^ 31) \<le> i \<Longrightarrow> i < 2 ^ 31 \<Longrightarrow> le_i32 (le_bytes 4 i) = i"
proof -
  show "le_ptr (le_bytes 8 (uint p)) = p"
    using uint_bounded [of p] by (simp add: le_ptr_def little_endian_le_bytes mod_pos_pos_trivial)
  assume i: "- (2 ^ 31) \<le> i" "i < 2 ^ 31"
  have "word_of_int (i mod 2 ^ 32) = (word_of_int i :: 32 word)" by (simp add: word_of_int_eq_iff take_bit_eq_mod)
  moreover have "sint (word_of_int i :: 32 word) = i" using i by (simp add: signed_of_int signed_take_bit_int_eq_self)
  ultimately show "le_i32 (le_bytes 4 i) = i" by (simp add: le_i32_def little_endian_le_bytes)
qed

lemma poke_append:
  assumes "length bs + length cs < 2 ^ 64"
  shows "poke (a + word_of_nat (length bs)) cs (poke a bs h) = poke a (bs @ cs) h"
proof -
  have n: "unat (word_of_nat (length bs) :: u64) = length bs" using assms by (simp add: unat_of_nat)
  have "unat (x - (a + word_of_nat (length bs))) =
      (if length bs \<le> unat (x - a) then unat (x - a) - length bs else unat (x - a) + 2 ^ 64 - length bs)" for x
    using unat_sub_if_size [of "x - a" "word_of_nat (length bs)"] by (simp only: diff_diff_eq n word_size) simp
  then have "(if unat (x - (a + word_of_nat (length bs))) < length cs then cs ! unat (x - (a + word_of_nat (length bs)))
       else if unat (x - a) < length bs then bs ! unat (x - a) else hp_byte h x) =
      (if unat (x - a) < length (bs @ cs) then (bs @ cs) ! unat (x - a) else hp_byte h x)" for x
    using assms by (auto simp: nth_append)
  then show ?thesis by (simp add: poke_def cong: if_cong)
qed

lemma WriteFString_pokes:
  "WriteFString buffer dest v h =
     poke dest (le_bytes 8 (uint buffer) @ le_bytes 4 (int (length v) + 1) @ le_bytes 4 (int (length v) + 1))
       (poke buffer (concat (map (\<lambda>c. le_bytes 2 (int (code c))) v) @ le_bytes 2 0) h)"
  using poke_append [of "le_bytes 8 (uint buffer)" "le_bytes 4 (int (length v) + 1)" dest]
    poke_append [of "le_bytes 8 (uint buffer) @ le_bytes 4 (int (length v) + 1)" "le_bytes 4 (int (length v) + 1)" dest]
  by (simp add: WriteFString_def Let_def)

lemma apart_mono: "apart a n b k \<Longrightarrow> k' \<le> k \<Longrightarrow> apart a n b k'"
  by (auto simp: apart_def)

lemma units_poke_other:
  assumes "apart a (length bs) b (2 * n)"
  shows "units (poke a bs h) b n = units h b n"
proof -
  have "load (hp_byte (poke a bs h)) (b + word_of_nat (2 * k)) 2 = load (hp_byte h) (b + word_of_nat (2 * k)) 2" if "k < n" for k
  proof (rule nth_equalityI)
    fix i assume "i < length (load (hp_byte (poke a bs h)) (b + word_of_nat (2 * k)) 2)"
    then have i: "2 * k + i < 2 * n" "i < 2" using that by (simp_all add: load_def)
    have "load (hp_byte (poke a bs h)) b (2 * n) ! (2 * k + i) = load (hp_byte h) b (2 * n) ! (2 * k + i)"
      by (simp add: load_poke_other [OF assms])
    then show "load (hp_byte (poke a bs h)) (b + word_of_nat (2 * k)) 2 ! i = load (hp_byte h) (b + word_of_nat (2 * k)) 2 ! i"
      using i by (simp add: load_def add.assoc)
  qed (simp add: load_def)
  then show ?thesis unfolding units_def by (intro map_cong) (auto simp del: of_nat_mult)
qed

lemma Utf16ToUtf8_bytes: "Utf16ToUtf8 (map code v) = concat (map (\<lambda>c. AppendUtf8 (code c)) v)"
proof -
  have b: "scalar (code c) \<and> code c < 0x10000" for c
    using nat_of_char_less_256 [of c] unfolding scalar_def by arith
  then have "list_all scalar (map code v)" by (simp add: list_all_iff)
  moreover have "concat (map utf16 (map code v)) = map code v"
    using b by (induction v) (simp_all add: utf16_def)
  ultimately show ?thesis using Utf16ToUtf8_text [of "map code v"] by (simp add: comp_def)
qed

lemma ReadFString_written:
  assumes "v \<noteq> []" "length v < 8192" "dest \<noteq> 0" "buffer \<noteq> 0"
    and "hp_readable h dest 16" "hp_readable h buffer (2 * length v + 2)" "apart dest 16 buffer (2 * length v + 2)"
  shows "ReadFString (WriteFString buffer dest v h) dest = concat (map (\<lambda>c. AppendUtf8 (code c)) v)"
proof -
  let ?n = "int (length v) + 1"
  let ?text = "concat (map (\<lambda>c. le_bytes 2 (int (code c))) v) @ le_bytes 2 0"
  let ?head = "le_bytes 8 (uint buffer) @ le_bytes 4 ?n @ le_bytes 4 ?n"
  let ?h = "poke dest ?head (poke buffer ?text h)"
  have n: "- (2 ^ 31) \<le> ?n" "?n < 2 ^ 31" using assms(2) by simp_all
  have "load (hp_byte ?h) (dest + word_of_nat 0) 8 = take 8 (drop 0 ?head)"
    "load (hp_byte ?h) (dest + word_of_nat 8) 4 = take 4 (drop 8 ?head)"
    "load (hp_byte ?h) (dest + word_of_nat 12) 4 = take 4 (drop 12 ?head)"
    by (intro load_poke_same; simp)+
  then have copied: "copy_FString ?h dest = \<lparr>fs_Data = buffer, fs_Num = ?n, fs_Max = ?n\<rparr>"
    using le_roundtrip(1) [of buffer] le_roundtrip(2) [OF n] by (simp add: copy_FString_def)
  have "units ?h buffer (length v) = units (poke buffer ?text h) buffer (length v)"
    by (rule units_poke_other) (use apart_mono [OF assms(7), of "2 * length v"] in simp)
  also have "\<dots> = map code v" using assms(2) by (intro units_stored) simp
  finally have "units ?h buffer (length v) = map code v" .
  moreover have "nat ?n * 2 = 2 * length v + 2" "nat (?n - 1) = length v" by simp_all
  ultimately have "ReadFString ?h dest = Utf16ToUtf8 (map code v)"
    using assms copied by (simp add: ReadFString_def Let_def)
  then show ?thesis by (simp add: WriteFString_pokes Utf16ToUtf8_bytes)
qed

lemma length_AppendUtf8_byte: "length (AppendUtf8 (code c)) = (if code c < 0x80 then 1 else 2)"
proof -
  have "code c < 0x800" by (rule less_trans [OF nat_of_char_less_256]) simp
  then show ?thesis by (simp add: AppendUtf8_def)
qed

lemma latin1_grows:
  "length v \<le> length (concat (map (\<lambda>c. AppendUtf8 (code c)) v)) \<and>
   (length (concat (map (\<lambda>c. AppendUtf8 (code c)) v)) = length v \<longleftrightarrow> list_all (\<lambda>c. code c < 0x80) v)"
  by (induction v) (auto simp: length_AppendUtf8_byte)

lemma latin1_ascii: "concat (map (\<lambda>c. AppendUtf8 (code c)) v) = v \<longleftrightarrow> list_all (\<lambda>c. code c < 0x80) v"
proof
  assume "concat (map (\<lambda>c. AppendUtf8 (code c)) v) = v"
  then show "list_all (\<lambda>c. code c < 0x80) v" using latin1_grows [of v] by simp
next
  show "list_all (\<lambda>c. code c < 0x80) v \<Longrightarrow> concat (map (\<lambda>c. AppendUtf8 (code c)) v) = v"
    by (induction v) (simp_all add: AppendUtf8_def)
qed


section \<open>Properties\<close>

text \<open>
  C34: Names and chat lines lose nothing on the way out of the game: for every text, the
  conversion from the game's 16-bit units gives the UTF-8 bytes from which a strict decoder
  recovers exactly the text's code points, surrogate pairs included.
\<close>
theorem utf16_utf8_lossless:
  assumes "list_all scalar cs"
  shows "utf8_decode (Utf16ToUtf8 (concat (map utf16 cs))) = Some cs"
  using assms by (simp add: Utf16ToUtf8_text utf8_decode_text)

theorem utf16_utf8_lossless_witness:
  "utf8_decode (Utf16ToUtf8 (concat (map utf16 [0x41, 0xE9, 0x20AC, 0x1F409]))) = Some [0x41, 0xE9, 0x20AC, 0x1F409]"
  by (rule utf16_utf8_lossless) (simp add: scalar_def)


definition demo_heap :: Heap where
  "demo_heap = \<lparr>hp_readable = (\<lambda>a n. 0x10000 \<le> a \<and> n \<le> 64), hp_image = (\<lambda>_. False), hp_byte = (\<lambda>_. 0)\<rparr>"


text \<open>
  A name with an accent, in UTF-8 as the interfaces receive it, reaches the game as two
  characters.
\<close>
lemma WriteFString_mangles:
  "ReadFString (WriteFString 0x20000 0x10000 [CHR 0xC3, CHR 0xA9] demo_heap) 0x10000 = [CHR 0xC3, CHR 0x83, CHR 0xC2, CHR 0xA9]"
proof -
  have "ReadFString (WriteFString 0x20000 0x10000 [CHR 0xC3, CHR 0xA9] demo_heap) 0x10000 =
      concat (map (\<lambda>c. AppendUtf8 (code c)) [CHR 0xC3, CHR 0xA9])"
    by (rule ReadFString_written) (simp_all add: demo_heap_def apart_def)
  also have "\<dots> = [CHR 0xC3, CHR 0x83, CHR 0xC2, CHR 0xA9]" by code_simp
  finally show ?thesis .
qed

end
