(* ===== verification/Players.thy ===== *)
theory Players
  imports Uobject
begin

text \<open>
  Reading the players and the server's data from the game's memory
  (\<^verbatim>\<open>src/src/engine/players.cpp\<close>, \<^verbatim>\<open>server.cpp\<close>): the player array, character names, position,
  movement, health and attributes, skills and survival components. Floating-point values are
  decoded from their IEEE bytes.
\<close>

section \<open>Floating-point values in memory\<close>

text \<open>A value with \<open>eb\<close> exponent and \<open>mb\<close> mantissa bits.\<close>

definition ieee :: "nat \<Rightarrow> nat \<Rightarrow> int \<Rightarrow> fp" where
  "ieee eb mb v =
     (let m = v mod 2 ^ mb; ex = v div 2 ^ mb mod 2 ^ eb; s = (v div 2 ^ (eb + mb) mod 2 = 1);
          bias = 2 ^ (eb - 1) - 1 :: nat
      in if ex = 2 ^ eb - 1 then (if m = 0 then Infinite s else Nan s)
         else if ex = 0 then Finite s (of_int m * 2 / 2 ^ (bias + mb))
         else Finite s (of_int ((2 ^ mb + m) * 2 ^ nat ex) / 2 ^ (bias + mb)))"

definition le_float :: "8 word list \<Rightarrow> fp" where
  "le_float bs = ieee 8 23 (little_endian bs)"

definition le_double :: "8 word list \<Rightarrow> fp" where
  "le_double bs = ieee 11 52 (little_endian bs)"

definition peek_float :: "Heap \<Rightarrow> u64 \<Rightarrow> fp" where
  "peek_float h a = (case rd h 4 a of None \<Rightarrow> fp0 | Some bs \<Rightarrow> le_float bs)"

text \<open>The comparison \<^verbatim>\<open>v <= 0.0f\<close>, false for a NaN.\<close>

fun fp_le0 :: "fp \<Rightarrow> bool" where
  "fp_le0 (Finite s q) = (s \<or> q = 0)"
| "fp_le0 (Infinite s) = s"
| "fp_le0 (Nan s) = False"

definition ReadDoubleTriple :: "Heap \<Rightarrow> u64 \<Rightarrow> fp \<times> fp \<times> fp \<Rightarrow> fp \<times> fp \<times> fp" where
  "ReadDoubleTriple h a old =
     (if \<not> hp_readable h a 24 then old
      else (le_double (load (hp_byte h) a 8), le_double (load (hp_byte h) (a + 8) 8), le_double (load (hp_byte h) (a + 16) 8)))"

text \<open>An array header in use: \<^term>\<open>None\<close> unless it has data and 1 to \<open>maxCount\<close> elements.\<close>

definition array_ok :: "int \<Rightarrow> FString \<Rightarrow> bool" where
  "array_ok maxCount v = (fs_Data v \<noteq> 0 \<and> fs_Num v > 0 \<and> fs_Num v \<le> maxCount)"

definition ReadArray :: "Heap \<Rightarrow> u64 \<Rightarrow> int \<Rightarrow> FString option" where
  "ReadArray h a maxCount =
     (if \<not> hp_readable h a 16 then None
      else let v = copy_FString h a in if array_ok maxCount v then Some v else None)"

text \<open>The \<open>i\<close>-th element of an array of pointers or floats whose bytes the guard has accepted.\<close>

definition ptr_at :: "Heap \<Rightarrow> u64 \<Rightarrow> nat \<Rightarrow> u64" where
  "ptr_at h a i = le_ptr (load (hp_byte h) (a + word_of_nat (8 * i)) 8)"

definition float_at :: "Heap \<Rightarrow> u64 \<Rightarrow> nat \<Rightarrow> fp" where
  "float_at h a i = le_float (load (hp_byte h) (a + word_of_nat (4 * i)) 4)"


section \<open>Attributes, health and skills\<close>

definition strip_Attribute :: "string \<Rightarrow> string" where
  "strip_Attribute s =
     (let n = length s - 9 in if length s > 9 \<and> drop n s = ''Attribute'' then take n s else s)"

definition attribute_at :: "Heap \<Rightarrow> Engine \<Rightarrow> u64 \<Rightarrow> u64 \<Rightarrow> bool \<Rightarrow> nat \<Rightarrow> AttributeInfo option" where
  "attribute_at h e attrs vals shared i =
     (let attribute = ptr_at h attrs i; name = GetObjectClassName h e attribute
      in if attribute = 0 then None
         else if name = [] then None
         else Some \<lparr>attr_name = strip_Attribute name, attr_value = float_at h vals i,
                   attr_baseValue = peek_float h (attribute + FloatAttribute_BaseValue), attr_shared = shared\<rparr>)"

definition ReadAttributeArrays :: "Heap \<Rightarrow> Engine \<Rightarrow> u64 \<Rightarrow> u64 \<Rightarrow> u64 \<Rightarrow> bool \<Rightarrow> AttributeInfo list" where
  "ReadAttributeArrays h e cmp attributesOffset valuesOffset shared =
     (case (ReadArray h (cmp + attributesOffset) 512, ReadArray h (cmp + valuesOffset) 512) of
        (Some attrs, Some vals) \<Rightarrow>
          (if \<not> hp_readable h (fs_Data attrs) (8 * nat (fs_Num attrs)) then []
           else if \<not> hp_readable h (fs_Data vals) (4 * nat (fs_Num vals)) then []
           else List.map_filter (attribute_at h e (fs_Data attrs) (fs_Data vals) shared)
                  [0 ..< nat (min (fs_Num attrs) (fs_Num vals))])
      | _ \<Rightarrow> [])"

definition health_from :: "AttributeInfo \<Rightarrow> PlayerInfo \<Rightarrow> PlayerInfo" where
  "health_from a p =
     (if attr_name a = ''Health'' then p\<lparr>health := attr_value a, hasHealth := True\<rparr>
      else if attr_name a = ''MaxHealth'' then p\<lparr>maxHealth := attr_value a, hasHealth := True\<rparr>
      else p)"

definition ReadHealthAndAttributes :: "Heap \<Rightarrow> Engine \<Rightarrow> PlayerInfo \<Rightarrow> PlayerInfo" where
  "ReadHealthAndAttributes h e p =
     (if \<not> IsA h e (pawnPtr p) ''DominionPlayerCharacter'' then p
      else
        (let hc = peek_ptr h (pawnPtr p + DomPlayerChar_HealthComponent)
         in if hc = 0 \<or> \<not> hp_readable h hc 0x1B8 then p
            else
              (let p1 = p\<lparr>canDie := (peek_u8 h (hc + Health_bCanDie) \<noteq> 0)\<rparr>;
                   cmp = peek_ptr h (pawnPtr p + DomPlayerChar_AttributesComponent)
               in if cmp = 0 \<or> \<not> hp_readable h cmp 0x1B8 then p1
                  else
                    (let attrs = attributes p1 @
                           ReadAttributeArrays h e cmp Attributes_FloatAttributes Attributes_AttributeValues False @
                           ReadAttributeArrays h e cmp Attributes_SharedFloatAttributes Attributes_SharedAttributeValues True;
                         p2 = fold health_from attrs (p1\<lparr>attributes := attrs\<rparr>)
                     in p2\<lparr>isDead := (hasHealth p2 \<and> fp_le0 (health p2))\<rparr>))))"

definition skill_at :: "Heap \<Rightarrow> Engine \<Rightarrow> u64 \<Rightarrow> nat \<Rightarrow> SkillInfo option" where
  "skill_at h e data i =
     (let entry = data + word_of_nat i * FSkill_Size;
          skillData = peek_ptr h (entry + FSkill_SkillData);
          name = GetObjectName h e skillData
      in if skillData = 0 then None
         else if name = [] then None
         else Some \<lparr>skill_name = name, currentXP = peek_i32 h (entry + FSkill_CurrentXP)\<rparr>)"

definition ReadSkills :: "Heap \<Rightarrow> Engine \<Rightarrow> PlayerInfo \<Rightarrow> PlayerInfo" where
  "ReadSkills h e p =
     (if controllerPtr p = 0 then p
      else if \<not> IsA h e (controllerPtr p) ''DominionPlayerControllerBase'' then p
      else
        (let cmp = peek_ptr h (controllerPtr p + DomPlayerController_SkillComponent)
         in if cmp = 0 \<or> \<not> hp_readable h cmp 0x210 then p
            else case ReadArray h (cmp + Skill_Skills) 256 of
              None \<Rightarrow> p
            | Some list \<Rightarrow>
                (if \<not> hp_readable h (fs_Data list) (unat FSkill_Size * nat (fs_Num list)) then p
                 else p\<lparr>skills := skills p @ List.map_filter (skill_at h e (fs_Data list)) [0 ..< nat (fs_Num list)]\<rparr>)))"


section \<open>All players\<close>

text \<open>The table of character names by character id; the last entry of an id counts.\<close>

definition name_entry :: "Heap \<Rightarrow> u64 \<Rightarrow> nat \<Rightarrow> (string \<times> string) option" where
  "name_entry h data i =
     (let entry = data + word_of_nat i * CharDisplayName_Size;
          guid = ReadGuid h (entry + CharDisplayName_CharacterGuid);
          name = ReadFString h (entry + CharDisplayName_CharacterName)
      in if guid \<noteq> [] \<and> name \<noteq> [] then Some (guid, name) else None)"

definition characterNames :: "Heap \<Rightarrow> Engine \<Rightarrow> u64 \<Rightarrow> (string \<rightharpoonup> string)" where
  "characterNames h e gameState =
     (if \<not> IsA h e gameState ''DominionGameStateBase'' then Map.empty
      else
        (let displayNames = peek_ptr h (gameState + DomGameState_DisplayNameComponent)
         in if displayNames = 0 then Map.empty
            else case ReadArray h (displayNames + DisplayName_OriginalCharacterNames) 4096 of
              None \<Rightarrow> Map.empty
            | Some list \<Rightarrow>
                (if \<not> hp_readable h (fs_Data list) (unat CharDisplayName_Size * nat (fs_Num list)) then Map.empty
                 else map_of (rev (List.map_filter (name_entry h (fs_Data list)) [0 ..< nat (fs_Num list)])))))"

definition read_dominion :: "Heap \<Rightarrow> Engine \<Rightarrow> (string \<rightharpoonup> string) \<Rightarrow> PlayerInfo \<Rightarrow> PlayerInfo" where
  "read_dominion h e names p =
     (let ps = playerStatePtr p; platformData = ps + DomPlayerState_PlatformData;
          colorAddress = ps + DomPlayerState_PlayerColor; guid = ReadGuid h (ps + DomPlayerState_CharacterGuid);
          ids = (if uniqueNetId p = [] then ReadUniqueNetId h (platformData + PlatformData_UniqueID)
                 else (uniqueNetId p, uniqueNetIdSource p));
          colored = hp_readable h (colorAddress + PlayerColor_Color) 16
      in if \<not> IsA h e ps ''DominionPlayerState'' then p
         else p\<lparr>characterGuid := guid,
                platform := ReadFString h (platformData + PlatformData_PlatformName),
                uniqueNetId := fst ids, uniqueNetIdSource := snd ids,
                color := (if colored
                          then (float_at h (colorAddress + PlayerColor_Color) 0, float_at h (colorAddress + PlayerColor_Color) 1,
                                float_at h (colorAddress + PlayerColor_Color) 2, float_at h (colorAddress + PlayerColor_Color) 3)
                          else color p),
                hasColor := (colored \<or> hasColor p),
                colorHex := ReadFString h (colorAddress + PlayerColor_HexString),
                characterName := (case names guid of None \<Rightarrow> characterName p | Some n \<Rightarrow> n)\<rparr>)"

definition read_pawn :: "Heap \<Rightarrow> Engine \<Rightarrow> PlayerInfo \<Rightarrow> PlayerInfo" where
  "read_pawn h e p =
     (let pawn = peek_ptr h (playerStatePtr p + PlayerState_PawnPrivate)
      in if pawn = 0 \<or> \<not> hp_readable h pawn 0x400 then p
         else
           (let p1 = p\<lparr>spawned := True, pawnPtr := pawn, pawnClass := GetObjectClassName h e pawn,
                       controllerPtr := peek_ptr h (pawn + Pawn_Controller)\<rparr>;
                root = peek_ptr h (pawn + Actor_RootComponent);
                p2 = (if root = 0 \<or> \<not> hp_readable h root 0x200 then p1
                      else p1\<lparr>location := ReadDoubleTriple h (root + SceneComp_RelativeLocation) (location p1),
                              rotation := ReadDoubleTriple h (root + SceneComp_RelativeRotation) (rotation p1),
                              hasLocation := True\<rparr>);
                movement = peek_ptr h (pawn + Character_CharacterMovement)
            in if \<not> IsA h e pawn ''Character'' \<or> movement = 0 \<or> \<not> hp_readable h movement 0x300 then p2
               else p2\<lparr>velocity := ReadDoubleTriple h (movement + MovementComp_Velocity) (velocity p2),
                       hasVelocity := True, movementMode := peek_u8 h (movement + CharMove_MovementMode)\<rparr>))"

definition read_state :: "Heap \<Rightarrow> u64 \<Rightarrow> PlayerInfo" where
  "read_state h ps =
     (let flags = peek_u8 h (ps + PlayerState_Flags); ids = ReadUniqueNetId h (ps + PlayerState_UniqueID)
      in new_PlayerInfo\<lparr>playerStatePtr := ps, pl_name := ReadFString h (ps + PlayerState_PlayerName),
           playerId := peek_i32 h (ps + PlayerState_PlayerId), score := peek_float h (ps + PlayerState_Score),
           startTime := peek_i32 h (ps + PlayerState_StartTime),
           pingMs := int (peek_u8 h (ps + PlayerState_CompressedPing)) * 4,
           isSpectator := bit flags 1, isBot := bit flags 3, isInactive := bit flags 5,
           uniqueNetId := fst ids, uniqueNetIdSource := snd ids\<rparr>)"

text \<open>The body of the loop over the player states.\<close>

definition read_player :: "Heap \<Rightarrow> Engine \<Rightarrow> (string \<rightharpoonup> string) \<Rightarrow> u64 \<Rightarrow> PlayerInfo option" where
  "read_player h e names ps =
     (if ps = 0 \<or> \<not> hp_readable h ps 0x370 then None
      else Some (read_pawn h e (read_dominion h e names (read_state h ps))))"

text \<open>The sweep for the survival components of the pawns: per pawn the two components.\<close>

definition add_component :: "Heap \<Rightarrow> Engine \<Rightarrow> u64 set \<Rightarrow> u64 \<Rightarrow> (u64 \<rightharpoonup> u64 \<times> u64) \<Rightarrow> (u64 \<rightharpoonup> u64 \<times> u64)" where
  "add_component h e pawns ob byPawn =
     (let outer = peek_ptr h (ob + UObject_Outer)
      in if outer = 0 \<or> outer \<notin> pawns then byPawn
         else
           (let (sust, hydr) = (case byPawn outer of None \<Rightarrow> (0, 0) | Some s \<Rightarrow> s)
            in byPawn(outer \<mapsto>
                 (if sust = 0 \<and> IsA h e ob ''SustenanceComponent'' then (ob, hydr)
                  else if hydr = 0 \<and> IsA h e ob ''HydrationComponent'' then (sust, ob)
                  else (sust, hydr)))))"

definition read_survival :: "Heap \<Rightarrow> u64 \<times> u64 \<Rightarrow> PlayerInfo \<Rightarrow> PlayerInfo" where
  "read_survival h slots p =
     (let (sust, hydr) = slots;
          p1 = (if sust = 0 \<or> \<not> hp_readable h sust 0x140 then p
                else p\<lparr>hasSustenance := True, sustenance := peek_float h (sust + SurvivalStat_Current),
                       maxSustenance := peek_float h (sust + SurvivalStat_CurrentMax)\<rparr>)
      in if hydr = 0 \<or> \<not> hp_readable h hydr 0x140 then p1
         else p1\<lparr>hasHydration := True, hydration := peek_float h (hydr + SurvivalStat_Current),
                 maxHydration := peek_float h (hydr + SurvivalStat_CurrentMax)\<rparr>)"

definition finish_player :: "Heap \<Rightarrow> Engine \<Rightarrow> (u64 \<rightharpoonup> u64 \<times> u64) \<Rightarrow> PlayerInfo \<Rightarrow> PlayerInfo" where
  "finish_player h e byPawn p =
     (if pawnPtr p = 0 then p
      else
        (let p1 = ReadSkills h e (ReadHealthAndAttributes h e p)
         in case byPawn (pawnPtr p) of None \<Rightarrow> p1 | Some slots \<Rightarrow> read_survival h slots p1))"

definition Engine_GetAllPlayers :: "Heap \<Rightarrow> Engine \<Rightarrow> PlayerInfo list" where
  "Engine_GetAllPlayers h e =
     (if \<not> e_initialized e then []
      else
        (let gameState = GetGameState h e
         in if gameState = 0 then []
            else case ReadArray h (gameState + GameStateBase_PlayerArray) 512 of
              None \<Rightarrow> []
            | Some pa \<Rightarrow>
                (if \<not> hp_readable h (fs_Data pa) (8 * nat (fs_Num pa)) then []
                 else
                   (let names = characterNames h e gameState;
                        ps = List.map_filter (\<lambda>i. read_player h e names (ptr_at h (fs_Data pa) i)) [0 ..< nat (fs_Num pa)];
                        pawns = set (filter (\<lambda>a. a \<noteq> 0) (map pawnPtr ps))
                    in if pawns = {} then ps
                       else map (finish_player h e (fold (add_component h e pawns) (objects h e) Map.empty)) ps))))"


section \<open>The server\<close>

definition new_ServerInfo :: ServerInfo where
  "new_ServerInfo = \<lparr>ownerId = [], serverName = [], worldName = [], serverGuid = [], isDedicatedServer = False,
     crossplayEnabled = False, hardcoreState = -1, srv_valid = False\<rparr>"

definition GetServerInfo :: "Heap \<Rightarrow> Engine \<Rightarrow> ServerInfo" where
  "GetServerInfo h e =
     (if \<not> e_initialized e then new_ServerInfo
      else
        (let settings = FindObject h e ''DedicatedServerSettings'' True;
             i1 = (if settings = 0 then new_ServerInfo
                   else new_ServerInfo\<lparr>ownerId := ReadFString h (settings + DediSettings_OwnerId),
                          serverName := ReadFString h (settings + DediSettings_ServerName),
                          worldName := ReadFString h (settings + DediSettings_DefaultWorldName),
                          serverGuid := ReadGuid h (settings + DediSettings_ServerGuid), srv_valid := True\<rparr>);
             gameState = GetGameState h e
         in if gameState = 0 \<or> \<not> IsA h e gameState ''DominionGameStateBase'' then i1
            else i1\<lparr>isDedicatedServer := (peek_u8 h (gameState + DomGameState_bIsDedicatedServer) \<noteq> 0),
                    crossplayEnabled := (peek_u8 h (gameState + DomGameState_bIsCrossplayEnabled) \<noteq> 0),
                    hardcoreState := int (peek_u8 h (gameState + DomGameState_WorldHardcoreState)), srv_valid := True\<rparr>))"


section \<open>The readers stay inside guarded memory\<close>

lemma peek_float_agree [guarded]: "agree h h' \<Longrightarrow> peek_float h a = peek_float h' a"
  by (simp add: peek_float_def guarded)

lemma ReadDoubleTriple_agree [guarded]: "agree h h' \<Longrightarrow> ReadDoubleTriple h a old = ReadDoubleTriple h' a old"
  using load_agree [of h h' a 24 0 8] load_agree [of h h' a 24 8 8] load_agree [of h h' a 24 16 8]
  by (simp add: ReadDoubleTriple_def guarded)

lemma ReadArray_agree [guarded]: "agree h h' \<Longrightarrow> ReadArray h a n = ReadArray h' a n"
  by (simp add: ReadArray_def guarded copy_FString_agree)

lemma element_agree:
  assumes "agree h h'"
  shows "hp_readable h' a (8 * n) \<Longrightarrow> i < n \<Longrightarrow> ptr_at h a i = ptr_at h' a i"
    "hp_readable h' a (4 * n) \<Longrightarrow> i < n \<Longrightarrow> float_at h a i = float_at h' a i"
  using load_agree [OF assms, of a "8 * n" "8 * i" 8] load_agree [OF assms, of a "4 * n" "4 * i" 4]
  by (simp_all add: ptr_at_def float_at_def del: of_nat_mult)

lemma map_filter_cong: "(\<And>x. x \<in> set xs \<Longrightarrow> f x = g x) \<Longrightarrow> List.map_filter f xs = List.map_filter g xs"
  by (induction xs) (simp_all add: List.map_filter_simps split: option.split)

lemma attribute_agree:
  assumes "agree h h'" "hp_readable h' a (8 * n)" "hp_readable h' v (4 * m)" "i < n" "i < m"
  shows "attribute_at h e a v s i = attribute_at h' e a v s i"
  using element_agree [OF assms(1)] assms by (simp add: attribute_at_def guarded Let_def)

lemma ReadAttributeArrays_agree [guarded]:
  "agree h h' \<Longrightarrow> ReadAttributeArrays h e c x y s = ReadAttributeArrays h' e c x y s"
  by (auto simp: ReadAttributeArrays_def guarded intro!: map_filter_cong attribute_agree split: option.split)

lemma ReadHealth_agree [guarded]: "agree h h' \<Longrightarrow> ReadHealthAndAttributes h e p = ReadHealthAndAttributes h' e p"
  by (simp add: ReadHealthAndAttributes_def guarded Let_def)

lemma skill_at_agree [guarded]: "agree h h' \<Longrightarrow> skill_at h e = skill_at h' e"
  by (intro ext) (simp add: skill_at_def guarded Let_def)

lemma ReadSkills_agree [guarded]: "agree h h' \<Longrightarrow> ReadSkills h e p = ReadSkills h' e p"
  by (simp add: ReadSkills_def guarded Let_def split: option.split)

lemma characterNames_agree [guarded]: "agree h h' \<Longrightarrow> characterNames h e g = characterNames h' e g"
proof -
  assume a: "agree h h'"
  then have "name_entry h = name_entry h'" by (intro ext) (simp add: name_entry_def guarded Let_def)
  with a show ?thesis by (simp add: characterNames_def guarded Let_def split: option.split)
qed

lemma read_player_agree [guarded]:
  assumes "agree h h'"
  shows "read_player h e names ps = read_player h' e names ps"
proof -
  have d: "read_dominion h e names p = read_dominion h' e names p" for p
    using assms element_agree(2) [OF assms, of _ 4] by (simp add: read_dominion_def guarded Let_def)
  have w: "read_pawn h e p = read_pawn h' e p" for p using assms by (simp add: read_pawn_def guarded Let_def)
  have s: "read_state h ps = read_state h' ps" using assms by (simp add: read_state_def guarded Let_def)
  show ?thesis using assms by (simp add: read_player_def d w s guarded)
qed

lemma finish_player_agree [guarded]: "agree h h' \<Longrightarrow> finish_player h e m = finish_player h' e m"
  by (intro ext) (simp add: finish_player_def read_survival_def guarded Let_def split_beta split: option.split)

lemma add_component_agree [guarded]: "agree h h' \<Longrightarrow> add_component h e ps = add_component h' e ps"
  by (intro ext) (simp add: add_component_def guarded Let_def split_beta)

lemma Engine_GetAllPlayers_agree:
  assumes "agree h h'"
  shows "Engine_GetAllPlayers h e = Engine_GetAllPlayers h' e"
proof -
  have "List.map_filter (\<lambda>i. read_player h e nm (ptr_at h d i)) [0 ..< n] =
      List.map_filter (\<lambda>i. read_player h' e nm (ptr_at h' d i)) [0 ..< n]" if "hp_readable h' d (8 * n)" for nm d n
    using assms element_agree(1) [OF assms that] by (intro map_filter_cong) (simp add: guarded)
  then show ?thesis using assms
    by (simp add: Engine_GetAllPlayers_def guarded Let_def split: option.split)
qed


section \<open>Well-formed players\<close>

definition player_wf :: "PlayerInfo \<Rightarrow> bool" where
  "player_wf p = ((uniqueNetId p = [] \<or> IsPrintableAscii (uniqueNetId p) \<and> length (uniqueNetId p) \<le> 128) \<and>
     playerStatePtr p \<noteq> 0 \<and> in_int32 (playerId p) \<and> 0 \<le> pingMs p \<and> pingMs p \<le> 1020 \<and>
     (spawned p \<longleftrightarrow> pawnPtr p \<noteq> 0) \<and> (\<not> spawned p \<longrightarrow> controllerPtr p = 0 \<and> \<not> hasLocation p \<and> \<not> hasHealth p) \<and>
     (isDead p \<longrightarrow> hasHealth p) \<and> list_all (\<lambda>s. skill_name s \<noteq> []) (skills p))"

lemma ReadUniqueNetId_ok:
  "fst (ReadUniqueNetId h a) = [] \<or> IsPrintableAscii (fst (ReadUniqueNetId h a)) \<and> length (fst (ReadUniqueNetId h a)) \<le> 128"
proof -
  have "net_id_at h a c = Some v \<Longrightarrow> IsPrintableAscii v \<and> length v \<le> 128" for c v
    by (auto simp: net_id_at_def Let_def split: if_splits)
  then show ?thesis by (auto simp: ReadUniqueNetId_def split: option.split)
qed

lemma peek_u8_bound: "peek_u8 h a \<le> 255"
proof -
  have "le_nat (load b a 1) \<le> 255" for b
    using unsigned_less [of "b a", where 'a = nat] by (simp add: le_nat_def load_def little_endian_def)
  then show ?thesis by (simp add: peek_u8_def rd_def)
qed

lemma peek_i32_bound: "in_int32 (peek_i32 h a)"
proof -
  have "in_int32 (le_i32 bs)" for bs
    using sint_ge [of "word_of_int (little_endian bs) :: 32 word"] sint_lt [of "word_of_int (little_endian bs) :: 32 word"]
    by (simp add: le_i32_def in_int32_def)
  then show ?thesis by (simp add: peek_i32_def in_int32_def split: option.split)
qed

lemma read_state_wf: "ps \<noteq> 0 \<Longrightarrow> player_wf (read_state h ps)"
proof -
  have "int (peek_u8 h a) * 4 \<le> 1020" for a using peek_u8_bound [of h a] by simp
  then show "ps \<noteq> 0 \<Longrightarrow> player_wf (read_state h ps)"
    using ReadUniqueNetId_ok peek_i32_bound by (simp add: read_state_def player_wf_def new_PlayerInfo_def Let_def)
qed

lemma read_dominion_wf: "player_wf p \<Longrightarrow> player_wf (read_dominion h e names p)"
  using ReadUniqueNetId_ok by (auto simp: read_dominion_def player_wf_def Let_def)

lemma read_pawn_wf: "player_wf p \<Longrightarrow> player_wf (read_pawn h e p)"
  by (auto simp: read_pawn_def player_wf_def Let_def)

lemma health_from_keeps:
  "uniqueNetId (fold health_from as p) = uniqueNetId p" "playerStatePtr (fold health_from as p) = playerStatePtr p"
  "playerId (fold health_from as p) = playerId p" "pingMs (fold health_from as p) = pingMs p"
  "spawned (fold health_from as p) = spawned p" "pawnPtr (fold health_from as p) = pawnPtr p"
  "controllerPtr (fold health_from as p) = controllerPtr p" "hasLocation (fold health_from as p) = hasLocation p"
  "isDead (fold health_from as p) = isDead p" "skills (fold health_from as p) = skills p"
  by (induction as arbitrary: p) (simp_all add: health_from_def)

lemma ReadHealth_wf:
  assumes "player_wf p" "pawnPtr p \<noteq> 0"
  shows "player_wf (ReadHealthAndAttributes h e p)" "pawnPtr (ReadHealthAndAttributes h e p) = pawnPtr p"
  using assms by (auto simp: ReadHealthAndAttributes_def player_wf_def Let_def health_from_keeps)

lemma skills_named: "list_all (\<lambda>s. skill_name s \<noteq> []) (List.map_filter (skill_at h e d) xs)"
proof (induction xs)
  case (Cons x xs)
  have "skill_at h e d x = Some s \<Longrightarrow> skill_name s \<noteq> []" for s by (auto simp: skill_at_def Let_def split: if_splits)
  then show ?case using Cons by (simp add: List.map_filter_simps split: option.split)
qed (simp add: List.map_filter_simps)

lemma ReadSkills_wf: "player_wf p \<Longrightarrow> player_wf (ReadSkills h e p)" "pawnPtr (ReadSkills h e p) = pawnPtr p"
  by (auto simp: ReadSkills_def player_wf_def Let_def skills_named split: option.split)

lemma read_survival_wf: "player_wf p \<Longrightarrow> player_wf (read_survival h slots p)"
  by (auto simp: read_survival_def player_wf_def Let_def split: prod.split)

lemma finish_player_wf: "player_wf p \<Longrightarrow> player_wf (finish_player h e m p)"
  by (auto simp: finish_player_def Let_def ReadHealth_wf ReadSkills_wf read_survival_wf split: option.split)

lemma read_player_wf: "read_player h e names ps = Some p \<Longrightarrow> player_wf p \<and> playerStatePtr p = ps"
proof -
  have "playerStatePtr (read_pawn h e (read_dominion h e names (read_state h ps))) = ps"
    by (simp add: read_pawn_def read_dominion_def read_state_def Let_def)
  moreover have "ps \<noteq> 0 \<Longrightarrow> player_wf (read_pawn h e (read_dominion h e names (read_state h ps)))"
    by (intro read_pawn_wf read_dominion_wf read_state_wf)
  ultimately show "read_player h e names ps = Some p \<Longrightarrow> player_wf p \<and> playerStatePtr p = ps"
    by (auto simp: read_player_def split: if_splits)
qed

lemma finish_player_state: "playerStatePtr (finish_player h e m p) = playerStatePtr p"
proof -
  have "playerStatePtr (ReadHealthAndAttributes h e p) = playerStatePtr p" for p
    by (simp add: ReadHealthAndAttributes_def Let_def health_from_keeps)
  moreover have "playerStatePtr (ReadSkills h e p) = playerStatePtr p" for p
    by (simp add: ReadSkills_def Let_def split: option.split)
  ultimately show ?thesis
    by (simp add: finish_player_def read_survival_def Let_def split: option.split prod.split)
qed

text \<open>The player states the game lists, as far as they can be read.\<close>

definition listed_states :: "Heap \<Rightarrow> Engine \<Rightarrow> u64 list" where
  "listed_states h e =
     (case ReadArray h (GetGameState h e + GameStateBase_PlayerArray) 512 of
        None \<Rightarrow> []
      | Some pa \<Rightarrow> if hp_readable h (fs_Data pa) (8 * nat (fs_Num pa))
                   then filter (\<lambda>ps. ps \<noteq> 0 \<and> hp_readable h ps 0x370) (map (ptr_at h (fs_Data pa)) [0 ..< nat (fs_Num pa)])
                   else [])"

lemma read_players_states:
  "map playerStatePtr (List.map_filter (\<lambda>i. read_player h e names (f i)) is) =
     filter (\<lambda>ps. ps \<noteq> 0 \<and> hp_readable h ps 0x370) (map f is) \<and>
   list_all player_wf (List.map_filter (\<lambda>i. read_player h e names (f i)) is)"
proof (induction "is")
  case (Cons i "is")
  have "(read_player h e names (f i) = None) = (f i = 0 \<or> \<not> hp_readable h (f i) 0x370)" by (simp add: read_player_def)
  then show ?case using Cons read_player_wf [of h e names "f i"]
    by (auto simp: List.map_filter_simps split: option.split)
qed (simp add: List.map_filter_simps)

lemma listed_states_length: "length (listed_states h e) \<le> 512"
proof -
  have "length (filter P (map f [0 ..< nat n])) \<le> 512" if "n \<le> 512" for P and f :: "nat \<Rightarrow> u64" and n :: int
    using length_filter_le [of P "map f [0 ..< nat n]"] that by simp
  then show ?thesis
    by (auto simp: listed_states_def ReadArray_def array_ok_def Let_def split: option.split if_splits)
qed


section \<open>Properties\<close>

text \<open>
  Reading the players never leaves guarded memory: the player list, the server's data and
  the loaded items are the same for any two states of the memory that agree on the bytes of
  the ranges the guard accepts, so no byte outside them is ever used.
\<close>
lemma readers_guarded:
  assumes "agree h h'"
  shows "Engine_GetAllPlayers h e = Engine_GetAllPlayers h' e \<and> GetServerInfo h e = GetServerInfo h' e \<and>
    read_items h e = read_items h' e"
  using assms Engine_GetAllPlayers_agree [OF assms] by (simp add: GetServerInfo_def guarded Let_def)

lemma readers_guarded_witness:
  "Engine_GetAllPlayers (demo_heap\<lparr>hp_byte := (\<lambda>a. if a < 0x10000 then 7 else 0), hp_readable := (\<lambda>a n. 0x10000 \<le> a \<and> a < 0x20000 \<and> n \<le> 64)\<rparr>) new_Engine =
   Engine_GetAllPlayers (demo_heap\<lparr>hp_readable := (\<lambda>a n. 0x10000 \<le> a \<and> a < 0x20000 \<and> n \<le> 64)\<rparr>) new_Engine"
proof -
  have "\<not> a + word_of_nat k < (0x10000 :: u64)" if "0x10000 \<le> a" "a < 0x20000" "k < n" "n \<le> 64" for a k n
  proof -
    have "unat (a + word_of_nat k) = unat a + k"
      using that by (simp add: unat_word_ariths unat_of_nat word_le_nat_alt word_less_nat_alt)
    then show ?thesis using that by (simp add: word_le_nat_alt word_less_nat_alt)
  qed
  then have "agree (demo_heap\<lparr>hp_byte := (\<lambda>a. if a < 0x10000 then 7 else 0), hp_readable := (\<lambda>a n. 0x10000 \<le> a \<and> a < 0x20000 \<and> n \<le> 64)\<rparr>)
      (demo_heap\<lparr>hp_readable := (\<lambda>a n. 0x10000 \<le> a \<and> a < 0x20000 \<and> n \<le> 64)\<rparr>)"
    by (auto simp: agree_def demo_heap_def)
  then show ?thesis using readers_guarded by blast
qed

text \<open>
  C33: The player list is well formed whatever the memory holds: one entry per readable player
  state the game lists, in the game's order and at most 512; net ids are empty or printable
  ASCII of at most 128 characters; only spawned players have a controller, a place or health;
  only players with health data are dead; pings and ids are in range. Before the engine is
  initialised the list is empty.
\<close>
theorem players_wf:
  "list_all player_wf (Engine_GetAllPlayers h e) \<and> length (Engine_GetAllPlayers h e) \<le> 512 \<and>
   map playerStatePtr (Engine_GetAllPlayers h e) =
     (if e_initialized e \<and> GetGameState h e \<noteq> 0 then listed_states h e else [])"
proof -
  have m: "map playerStatePtr (Engine_GetAllPlayers h e) =
      (if e_initialized e \<and> GetGameState h e \<noteq> 0 then listed_states h e else [])"
    by (simp add: Engine_GetAllPlayers_def listed_states_def Let_def read_players_states finish_player_state comp_def split: option.split)
  have "length (Engine_GetAllPlayers h e) \<le> 512"
    using arg_cong [OF m, of length] listed_states_length [of h e] by (simp split: if_splits)
  moreover have "p \<in> set (List.map_filter (\<lambda>i. read_player h e names (f i)) is) \<Longrightarrow> player_wf p" for p names f "is"
    using read_players_states [of h e names f "is"] by (simp add: list_all_iff)
  then have "list_all player_wf (Engine_GetAllPlayers h e)"
    by (auto simp: Engine_GetAllPlayers_def Let_def list_all_iff split: option.split intro!: finish_player_wf)
  ultimately show ?thesis using m by simp
qed

end
