(* ===== verification/Engine_Core.thy ===== *)
theory Engine_Core
  imports Players
begin

text \<open>
  Finding the engine in the running game (\<^verbatim>\<open>src/src/engine/engine_core.cpp\<close>): the bounds and
  writable segments of the main program, the validation of candidates for the object array and
  the name pool, the scan for them when the known offsets fail, and \<^verbatim>\<open>Initialize\<close>. The program
  headers are a parameter. Log messages are left out.
\<close>

section \<open>The main program\<close>

record ImageInfo =
  img_start :: u64
  img_end :: u64
  writableSegments :: "(u64 \<times> u64) list"
  img_found :: bool

abbreviation PF_W :: nat where "PF_W \<equiv> 2"

definition segment_of :: "u64 \<Rightarrow> Phdr \<Rightarrow> u64 \<times> u64" where
  "segment_of base p = (base + p_vaddr p, base + p_vaddr p + p_memsz p)"

definition CollectImage :: "u64 \<Rightarrow> Phdr list \<Rightarrow> ImageInfo" where
  "CollectImage base phdrs =
     (let segs = map (segment_of base) (filter (\<lambda>p. p_type p = PT_LOAD \<and> p_flags p AND PF_W \<noteq> 0) phdrs)
      in case image_bounds base phdrs None of
           None \<Rightarrow> \<lparr>img_start = 0, img_end = 0, writableSegments = segs, img_found = False\<rparr>
         | Some (lo, hi) \<Rightarrow> \<lparr>img_start = lo, img_end = hi, writableSegments = segs, img_found = True\<rparr>)"

text \<open>\<^verbatim>\<open>dl_iterate_phdr\<close> with this callback ends at the first entry without a name.\<close>

definition find_image :: "dl_info list \<Rightarrow> ImageInfo" where
  "find_image infos =
     (case find (\<lambda>i. fst i = []) infos of
        None \<Rightarrow> \<lparr>img_start = 0, img_end = 0, writableSegments = [], img_found = False\<rparr>
      | Some (name, base, phdrs) \<Rightarrow> CollectImage base phdrs)"

definition LooksLikeText :: "string \<Rightarrow> bool" where
  "LooksLikeText v = (v \<noteq> [] \<and> list_all (\<lambda>c. 0x20 \<le> code c \<and> code c \<le> 0x7E) v)"

definition ResolveModule :: "dl_info list \<Rightarrow> Engine \<Rightarrow> bool \<times> Engine" where
  "ResolveModule infos e =
     (let image = find_image infos
      in if \<not> img_found image \<or> img_start image = 0 then (False, e)
         else (True, e\<lparr>e_moduleBase := img_start image, e_moduleEnd := img_end image\<rparr>))"


section \<open>The object array\<close>

definition ValidateObjectArray :: "Heap \<Rightarrow> u64 \<Rightarrow> bool" where
  "ValidateObjectArray h candidate =
     (if \<not> hp_readable h candidate 0x20 then False
      else
        (let chunks = peek_ptr h (candidate + ObjArray_Objects);
             maxElements = peek_i32 h (candidate + ObjArray_MaxElements);
             numElements = peek_i32 h (candidate + ObjArray_NumElements);
             maxChunks = peek_i32 h (candidate + ObjArray_MaxChunks);
             numChunks = peek_i32 h (candidate + ObjArray_NumChunks)
         in if chunks = 0 then False
            else if numElements < 1000 \<or> numElements > 20000000 then False
            else if maxElements < numElements then False
            else if numChunks < 1 \<or> numChunks > 512 then False
            else if maxChunks < numChunks \<or> maxChunks > 512 then False
            else if numChunks * ObjectsPerChunk < numElements then False
            else if \<not> hp_readable h chunks (8 * nat numChunks) then False
            else
              (let firstChunk = peek_ptr h chunks
               in if firstChunk = 0 \<or> \<not> hp_readable h firstChunk (unat ObjectItem_Size) then False
                  else
                    (let firstObject = peek_ptr h firstChunk
                     in if firstObject = 0 \<or> \<not> hp_readable h firstObject 0x28 then False
                        else hp_image h (peek_ptr h firstObject)))))"

text \<open>
  The addresses a scan of a segment visits, from its start in steps of 8 while \<open>room\<close> bytes
  fit (segments do not wrap around the address space).
\<close>

definition scan_addrs :: "nat \<Rightarrow> u64 \<times> u64 \<Rightarrow> u64 list" where
  "scan_addrs room seg =
     (case seg of (lo, hi) \<Rightarrow>
        if unat hi < unat lo + room then []
        else map (\<lambda>k. lo + word_of_nat (8 * k)) [0 ..< (unat hi - unat lo - room) div 8 + 1])"

text \<open>The quick test on the raw memory of the segment before a candidate is validated.\<close>

definition quick_objects :: "Heap \<Rightarrow> u64 \<Rightarrow> bool" where
  "quick_objects h a =
     (let numElements = le_i32 (load (hp_byte h) (a + ObjArray_NumElements) 4);
          numChunks = le_i32 (load (hp_byte h) (a + ObjArray_NumChunks) 4)
      in 1000 \<le> numElements \<and> numElements \<le> 20000000 \<and> 1 \<le> numChunks \<and> numChunks \<le> 512)"

definition ScanForObjectArray :: "Heap \<Rightarrow> dl_info list \<Rightarrow> u64" where
  "ScanForObjectArray h infos =
     (let image = find_image infos
      in if \<not> img_found image then 0
         else first_of (\<lambda>a. quick_objects h a \<and> ValidateObjectArray h a)
                (concat (map (scan_addrs 0x20) (writableSegments image))))"

definition ResolveObjectArray :: "Heap \<Rightarrow> dl_info list \<Rightarrow> Engine \<Rightarrow> bool \<times> Engine" where
  "ResolveObjectArray h infos e =
     (let candidate = e_moduleBase e + GObjects
      in if ValidateObjectArray h candidate
         then (True, e\<lparr>e_gObjects := candidate, e_gObjectsSource := ''sdk-offset''\<rparr>)
         else
           (let scanned = ScanForObjectArray h infos
            in if scanned = 0 then (False, e)
               else (True, e\<lparr>e_gObjects := scanned, e_gObjectsSource := ''segment-scan''\<rparr>)))"


section \<open>The name pool\<close>

definition ValidateNamePool :: "Heap \<Rightarrow> u64 \<Rightarrow> bool" where
  "ValidateNamePool h candidate =
     (if \<not> hp_readable h candidate (unat NamePool_Blocks + 8) then False
      else
        (let currentBlock = u32_of (peek_i32 h (candidate + NamePool_CurrentBlock));
             firstBlock = peek_ptr h (candidate + NamePool_Blocks)
         in if int currentBlock \<ge> NamePool_MaxBlocks then False
            else if firstBlock = 0 \<or> \<not> hp_readable h firstBlock 0x40 then False
            else case rd h 2 firstBlock of
              None \<Rightarrow> False
            | Some hd2 \<Rightarrow>
                (let header = le_nat hd2
                 in if odd header \<or> drop_bit 6 header \<noteq> 4 then False
                    else if \<not> hp_readable h (firstBlock + 2) 4 then False
                    else chars h (firstBlock + 2) 4 = ''None'')))"

definition quick_names :: "Heap \<Rightarrow> u64 \<Rightarrow> bool" where
  "quick_names h a =
     (let currentBlock = le_nat (load (hp_byte h) (a + NamePool_CurrentBlock) 4);
          firstBlock = le_ptr (load (hp_byte h) (a + NamePool_Blocks) 8)
      in int currentBlock < NamePool_MaxBlocks \<and> firstBlock \<noteq> 0 \<and> firstBlock AND 7 = 0)"

definition ResolveNamePool :: "Heap \<Rightarrow> dl_info list \<Rightarrow> Engine \<Rightarrow> bool \<times> Engine" where
  "ResolveNamePool h infos e =
     (let candidate = e_moduleBase e + GNames
      in if ValidateNamePool h candidate
         then (True, e\<lparr>e_gNames := candidate, e_gNamesSource := ''sdk-offset''\<rparr>)
         else case find (\<lambda>a. quick_names h a \<and> ValidateNamePool h a)
                (concat (map (scan_addrs (unat NamePool_Blocks + 8)) (writableSegments (find_image infos)))) of
           None \<Rightarrow> (False, e)
         | Some a \<Rightarrow> (True, e\<lparr>e_gNames := a, e_gNamesSource := ''segment-scan''\<rparr>))"


section \<open>Initialisation\<close>

definition Engine_Initialize :: "Heap \<Rightarrow> dl_info list \<Rightarrow> Engine \<Rightarrow> bool \<times> Engine" where
  "Engine_Initialize h infos e =
     (let e0 = e\<lparr>e_attempts := e_attempts e + 1\<rparr>;
          (ok1, e1) = ResolveModule infos e0
      in if \<not> ok1 then (False, e1)
         else
           (let (ok2, e2) = ResolveNamePool h infos e1
            in if \<not> ok2 then (False, e2)
               else
                 (let (ok3, e3) = ResolveObjectArray h infos e2
                  in if \<not> ok3 then (False, e3)
                     else
                       (let firstName = GetObjectName h e3 (GetObjectByIndex h e3 0)
                        in if \<not> LooksLikeText firstName \<or> find_sub ''CoreUObject'' firstName = None then (False, e3)
                           else (True, e3\<lparr>e_initialized := True\<rparr>)))))"

text \<open>\<^verbatim>\<open>GetDiscoveryInfo\<close>; the source of the world is the one of the last \<^verbatim>\<open>GetWorld\<close>.\<close>

definition GetDiscoveryInfo :: "Heap \<Rightarrow> Engine \<Rightarrow> DiscoveryInfo \<times> Engine" where
  "GetDiscoveryInfo h e =
     (let (w, src) = (if e_initialized e then GetWorld h e else (0, e_worldSource e));
          e' = e\<lparr>e_worldSource := src\<rparr>
      in (\<lparr>moduleBase = e_moduleBase e, moduleEnd = e_moduleEnd e, gObjects = e_gObjects e, gNames = e_gNames e,
           disc_world = w, gObjectsSource = e_gObjectsSource e, gNamesSource = e_gNamesSource e, worldSource = src,
           objectCount = (if e_initialized e then GetObjectCount h e else 0)\<rparr>, e'))"


section \<open>What the candidates guarantee\<close>

lemma ValidateObjectArray_bounds:
  assumes "ValidateObjectArray h a"
  shows "1000 \<le> peek_i32 h (a + ObjArray_NumElements) \<and> peek_i32 h (a + ObjArray_NumElements) \<le> 20000000 \<and>
    1 \<le> peek_i32 h (a + ObjArray_NumChunks) \<and> peek_i32 h (a + ObjArray_NumChunks) \<le> 512 \<and>
    peek_i32 h (a + ObjArray_NumElements) \<le> peek_i32 h (a + ObjArray_NumChunks) * ObjectsPerChunk \<and>
    peek_ptr h (a + ObjArray_Objects) \<noteq> 0"
  using assms by (auto simp: ValidateObjectArray_def Let_def split: if_splits)

lemma chunk_in_range:
  assumes "ValidateObjectArray h a" "0 \<le> i" "i < peek_i32 h (a + ObjArray_NumElements)"
  shows "i div ObjectsPerChunk < peek_i32 h (a + ObjArray_NumChunks)"
proof -
  have "i < peek_i32 h (a + ObjArray_NumChunks) * ObjectsPerChunk"
    using ValidateObjectArray_bounds [OF assms(1)] assms(3) by linarith
  then show ?thesis by (simp add: ObjectsPerChunk_def)
qed

lemma first_of_Some: "first_of P xs \<noteq> 0 \<Longrightarrow> P (first_of P xs) \<and> first_of P xs \<in> set xs"
proof -
  assume nz: "first_of P xs \<noteq> 0"
  then obtain a where a: "find P xs = Some a" by (cases "find P xs") (auto simp: first_of_def)
  then have "P a \<and> a \<in> set xs" by (auto simp: find_Some_iff)
  then show ?thesis using a by (simp add: first_of_def)
qed

lemma ResolveObjectArray_ok:
  assumes "ResolveObjectArray h infos e = (True, e')"
  shows "ValidateObjectArray h (e_gObjects e') \<and> e_gObjectsSource e' \<in> {''sdk-offset'', ''segment-scan''} \<and>
    e' = e\<lparr>e_gObjects := e_gObjects e', e_gObjectsSource := e_gObjectsSource e'\<rparr>"
  using assms first_of_Some [of "\<lambda>a. quick_objects h a \<and> ValidateObjectArray h a"]
  by (auto simp: ResolveObjectArray_def ScanForObjectArray_def Let_def split: if_splits)

lemma ResolveNamePool_ok:
  assumes "ResolveNamePool h infos e = (True, e')"
  shows "ValidateNamePool h (e_gNames e') \<and> e_gNamesSource e' \<in> {''sdk-offset'', ''segment-scan''} \<and>
    e' = e\<lparr>e_gNames := e_gNames e', e_gNamesSource := e_gNamesSource e'\<rparr>"
  using assms by (auto simp: ResolveNamePool_def Let_def find_Some_iff split: if_splits option.splits)

lemma ResolveModule_keeps: "e_initialized (snd (ResolveModule infos e)) = e_initialized e"
  by (simp add: ResolveModule_def Let_def)

lemma ResolveNamePool_keeps: "e_initialized (snd (ResolveNamePool h infos e)) = e_initialized e"
  by (simp add: ResolveNamePool_def Let_def split: option.splits)

lemma ResolveObjectArray_keeps: "e_initialized (snd (ResolveObjectArray h infos e)) = e_initialized e"
  by (simp add: ResolveObjectArray_def Let_def)

lemma Engine_Initialize_steps:
  assumes "Engine_Initialize h infos e = (True, e')"
  obtains e1 e2 e3 where "ResolveModule infos (e\<lparr>e_attempts := e_attempts e + 1\<rparr>) = (True, e1)"
    "ResolveNamePool h infos e1 = (True, e2)" "ResolveObjectArray h infos e2 = (True, e3)"
    "LooksLikeText (GetObjectName h e3 (GetObjectByIndex h e3 0))"
    "find_sub ''CoreUObject'' (GetObjectName h e3 (GetObjectByIndex h e3 0)) \<noteq> None"
    "e' = e3\<lparr>e_initialized := True\<rparr>"
  using assms by (auto simp: Engine_Initialize_def Let_def split_beta prod_eq_iff split: if_splits)

lemma initialize_first_name: "GetObjectName h (e\<lparr>e_initialized := b\<rparr>) ob = GetObjectName h e ob"
  by (simp add: GetObjectName_def NameToString_def Let_def)

lemma initialize_first_object: "GetObjectByIndex h (e\<lparr>e_initialized := b\<rparr>) i = GetObjectByIndex h e i"
  by (simp add: GetObjectByIndex_def Let_def)

lemma validated_nonzero: "ValidateObjectArray h a \<Longrightarrow> a \<noteq> 0"
  using ValidateObjectArray_bounds [of h a] by (auto simp: peek_ptr_def rd_def ObjArray_Objects_def)

text \<open>The quick test on the raw bytes loses no candidate: whatever validates passes it.\<close>

lemma validated_quick:
  assumes "ValidateObjectArray h a"
  shows "quick_objects h a"
proof -
  have raw: "le_i32 (load (hp_byte h) b 4) = peek_i32 h b" if "peek_i32 h b \<noteq> 0" for b
    using that by (auto simp: peek_i32_def rd_def split: if_splits)
  show ?thesis using ValidateObjectArray_bounds [OF assms] by (simp add: quick_objects_def Let_def raw)
qed

lemma ResolveObjectArray_complete:
  assumes "\<not> fst (ResolveObjectArray h infos e)" "img_found (find_image infos)"
    "seg \<in> set (writableSegments (find_image infos))" "a \<in> set (scan_addrs 0x20 seg)"
  shows "\<not> ValidateObjectArray h a"
proof
  assume v: "ValidateObjectArray h a"
  let ?P = "\<lambda>a. quick_objects h a \<and> ValidateObjectArray h a"
  let ?as = "concat (map (scan_addrs 0x20) (writableSegments (find_image infos)))"
  have "a \<in> set ?as" using assms(3,4) by auto
  then obtain b where b: "find ?P ?as = Some b"
    using v validated_quick [OF v] by (cases "find ?P ?as") (auto simp: find_None_iff)
  then have "ValidateObjectArray h b" by (auto simp: find_Some_iff)
  then have "b \<noteq> 0" by (rule validated_nonzero)
  then have "ScanForObjectArray h infos \<noteq> 0" using b assms(2) by (simp add: ScanForObjectArray_def first_of_def)
  then show False using assms(1) by (simp add: ResolveObjectArray_def Let_def split: if_splits)
qed

text \<open>
  C22: \<^verbatim>\<open>Engine::Initialize\<close> never trusts an unchecked address. When it succeeds, the object
  array and the name pool it kept passed validation and came from the known offset or the scan,
  the engine tracks between 1000 and 20000000 objects, every index below that count falls into
  a chunk of the chunk table, and object 0 carries a printable name with \<open>CoreUObject\<close> in it.
  When it fails, the engine is marked initialised only if it was before.
\<close>
theorem engine_initialize_sound:
  assumes "Engine_Initialize h infos e = (ok, e')"
  shows "if ok
    then e_initialized e' \<and> ValidateNamePool h (e_gNames e') \<and> ValidateObjectArray h (e_gObjects e') \<and>
      {e_gNamesSource e', e_gObjectsSource e'} \<subseteq> {''sdk-offset'', ''segment-scan''} \<and>
      1000 \<le> GetObjectCount h e' \<and> GetObjectCount h e' \<le> 20000000 \<and>
      (\<forall>i. 0 \<le> i \<and> i < GetObjectCount h e' \<longrightarrow> i div ObjectsPerChunk < peek_i32 h (e_gObjects e' + ObjArray_NumChunks)) \<and>
      LooksLikeText (GetObjectName h e' (GetObjectByIndex h e' 0)) \<and>
      find_sub ''CoreUObject'' (GetObjectName h e' (GetObjectByIndex h e' 0)) \<noteq> None
    else e_initialized e' = e_initialized e"
proof (cases ok)
  case True
  with assms have "Engine_Initialize h infos e = (True, e')" by simp
  then obtain e1 e2 e3 where r: "ResolveModule infos (e\<lparr>e_attempts := e_attempts e + 1\<rparr>) = (True, e1)"
    "ResolveNamePool h infos e1 = (True, e2)" "ResolveObjectArray h infos e2 = (True, e3)"
    and name: "LooksLikeText (GetObjectName h e3 (GetObjectByIndex h e3 0))"
      "find_sub ''CoreUObject'' (GetObjectName h e3 (GetObjectByIndex h e3 0)) \<noteq> None"
    and e': "e' = e3\<lparr>e_initialized := True\<rparr>"
    by (rule Engine_Initialize_steps)
  note n = ResolveNamePool_ok [OF r(2)] and ob = ResolveObjectArray_ok [OF r(3)]
  have "e_gNames e3 = e_gNames e2" "e_gNamesSource e3 = e_gNamesSource e2"
    using ob by (metis (no_types, lifting) Engine.ext_inject Engine.surjective Engine.update_convs)+
  moreover have v: "ValidateObjectArray h (e_gObjects e')" using ob e' by simp
  moreover have "GetObjectCount h e' = peek_i32 h (e_gObjects e' + ObjArray_NumElements)"
    using validated_nonzero [OF v] by (simp add: GetObjectCount_def)
  ultimately show ?thesis using True n ob name e' ValidateObjectArray_bounds [OF v] chunk_in_range [OF v]
    by (simp add: initialize_first_name initialize_first_object)
next
  case False
  then show ?thesis
    using assms ResolveModule_keeps [of infos "e\<lparr>e_attempts := e_attempts e + 1\<rparr>"] ResolveNamePool_keeps ResolveObjectArray_keeps
    by (auto simp: Engine_Initialize_def Let_def split_beta split: if_splits)
qed

text \<open>A process in which the known offsets hold.\<close>

definition sparse :: "(u64 \<times> nat list) list \<Rightarrow> u64 \<Rightarrow> 8 word" where
  "sparse parts a =
     (case find (\<lambda>(lo, bs). lo \<le> a \<and> unat (a - lo) < length bs) parts of
        None \<Rightarrow> 0
      | Some (lo, bs) \<Rightarrow> word_of_nat (bs ! unat (a - lo)))"

definition engine_heap :: Heap where
  "engine_heap = \<lparr>hp_readable = (\<lambda>a n. 0x400000 \<le> a \<and> a < 0x30000000), hp_image = (\<lambda>a. 0x400000 \<le> a \<and> a < 0x10400000),
     hp_byte = sparse
       [(0xE02E4D0, [0, 0, 0, 0x20, 0, 0, 0, 0]), (0xE02E4E0, [0xE8, 3, 0, 0, 0xE8, 3, 0, 0, 1, 0, 0, 0, 1, 0, 0, 0]),
        (0x20000000, [0, 0, 1, 0x20]), (0x20010000, [0, 0, 2, 0x20]),
        (0x20020000, [0, 0x10, 0x40]), (0x20020018, [3]),
        (0xDF72FC0, [0, 0, 3, 0x20]),
        (0x20030000, [0, 1] @ map code ''None'' @ [0xC0, 4] @ map code ''/Script/CoreUObject'')]\<rparr>"

definition engine_dl :: "dl_info list" where
  "engine_dl = [([], 0x400000, [\<lparr>p_type = PT_LOAD, p_flags = 6, p_vaddr = 0, p_memsz = 0x10000000\<rparr>])]"

lemma load_Suc: "load f a (Suc n) = f a # load f (a + 1) n"
  by (simp add: load_def upt_conv_Cons map_Suc_upt [symmetric] add.assoc o_def del: upt_Suc)

lemma load_eval: "load f a (numeral k) = f a # load f (a + 1) (pred_numeral k)" "load f a 0 = []"
  by (simp_all add: numeral_eq_Suc load_Suc) (simp add: load_def)

lemma engine_pointers:
  "peek_ptr engine_heap 0xE02E4D0 = 0x20000000" "peek_ptr engine_heap 0x20000000 = 0x20010000"
  "peek_ptr engine_heap 0x20010000 = 0x20020000" "peek_ptr engine_heap 0x20020000 = 0x401000"
  "peek_ptr engine_heap 0xDF72FC0 = 0x20030000"
  by (simp_all add: peek_ptr_def le_ptr_def rd_def load_eval load_Suc engine_heap_def sparse_def little_endian_def)

lemma engine_numbers:
  "peek_i32 engine_heap 0xE02E4E0 = 1000" "peek_i32 engine_heap 0xE02E4E4 = 1000"
  "peek_i32 engine_heap 0xE02E4E8 = 1" "peek_i32 engine_heap 0xE02E4EC = 1"
  "peek_i32 engine_heap 0x20020018 = 3" "peek_i32 engine_heap 0x2002001C = 0"
  "peek_i32 engine_heap 0xDF72FB8 = 0"
  by (simp_all add: peek_i32_def le_i32_def rd_def load_eval load_Suc engine_heap_def sparse_def little_endian_def)

lemma engine_names:
  "rd engine_heap 2 0x20030000 = Some [0, 1]" "rd engine_heap 2 0x20030006 = Some [0xC0, 4]"
  "chars engine_heap 0x20030002 4 = ''None''" "chars engine_heap 0x20030008 19 = ''/Script/CoreUObject''"
  by (simp_all add: chars_def rd_def load_eval load_Suc engine_heap_def sparse_def little_endian_def) code_simp+

lemma engine_readable: "hp_readable engine_heap a n = (0x400000 \<le> a \<and> a < 0x30000000)"
  "hp_image engine_heap a = (0x400000 \<le> a \<and> a < 0x10400000)"
  by (simp_all add: engine_heap_def)

lemmas engine_facts = engine_pointers engine_numbers engine_names engine_readable

lemma engine_objects_valid: "ValidateObjectArray engine_heap 0xE02E4D0"
  by (simp add: ValidateObjectArray_def Let_def engine_facts offset_defs)

lemma engine_names_valid: "ValidateNamePool engine_heap 0xDF72FB8"
  by (simp add: ValidateNamePool_def Let_def engine_facts offset_defs u32_of_def le_nat_def little_endian_def)

lemma engine_heap_initializes: "fst (Engine_Initialize engine_heap engine_dl new_Engine)"
proof -
  let ?e0 = "new_Engine\<lparr>e_attempts := e_attempts new_Engine + 1\<rparr>"
  let ?e1 = "?e0\<lparr>e_moduleBase := 0x400000, e_moduleEnd := 0x10400000\<rparr>"
  let ?e2 = "?e1\<lparr>e_gNames := 0xDF72FB8, e_gNamesSource := ''sdk-offset''\<rparr>"
  let ?e3 = "?e2\<lparr>e_gObjects := 0xE02E4D0, e_gObjectsSource := ''sdk-offset''\<rparr>"
  have 1: "ResolveModule engine_dl ?e0 = (True, ?e1)" by code_simp
  have 2: "ResolveNamePool engine_heap engine_dl ?e1 = (True, ?e2)"
    using engine_names_valid by (simp add: ResolveNamePool_def Let_def GNames_def)
  have 3: "ResolveObjectArray engine_heap engine_dl ?e2 = (True, ?e3)"
    using engine_objects_valid by (simp add: ResolveObjectArray_def Let_def GObjects_def)
  have 4: "GetObjectByIndex engine_heap ?e3 0 = 0x20020000"
    by (simp add: GetObjectByIndex_def Let_def engine_facts offset_defs)
  have 5: "GetObjectName engine_heap ?e3 0x20020000 = ''/Script/CoreUObject''"
    by (simp add: GetObjectName_def NameToString_def Let_def engine_facts offset_defs u32_of_def le_nat_def little_endian_def)
  have 6: "LooksLikeText ''/Script/CoreUObject''" "find_sub ''CoreUObject'' ''/Script/CoreUObject'' \<noteq> None" by code_simp+
  show ?thesis by (simp only: Engine_Initialize_def Let_def 1 2 3 4 5 6 split_beta fst_conv snd_conv not_True_eq_False if_False simp_thms)
qed

theorem engine_initialize_sound_witness:
  "\<exists>e'. Engine_Initialize engine_heap engine_dl new_Engine = (True, e') \<and> 1000 \<le> GetObjectCount engine_heap e'"
proof -
  obtain e' where e': "Engine_Initialize engine_heap engine_dl new_Engine = (True, e')"
    using engine_heap_initializes by (metis prod.collapse)
  then show ?thesis using engine_initialize_sound [OF e'] by auto
qed

end
