(* ===== verification/Logger.thy ===== *)
theory Logger
  imports Config Runtime Serialize Clock "HOL-Library.Multiset"
begin

text \<open>
  The log file (\<^verbatim>\<open>src/src/utils/logger.h\<close>): rotation at the first message of a session, removal of
  old logs and the lines written. The directory is a list of files in the order \<^verbatim>\<open>readdir\<close>
  gives them; the time, the offset of local time and whether files can be opened are parameters, and so is
  \<^verbatim>\<open>std::sort\<close>, of which only the result being a permutation in order is used (\<open>sort_ok\<close>): the
  order of logs with the same time is its choice.
\<close>

section \<open>Files\<close>

record LogFile =
  lf_name :: string
  lf_mtime :: "int option"
  lf_text :: string

text \<open>Field \<open>lf_mtime\<close> is \<^term>\<open>None\<close> when \<^verbatim>\<open>stat\<close> fails.\<close>

definition HexString :: "nat \<Rightarrow> string" where
  "HexString v = ''0x'' @ show_hex v"

definition GetLogDir :: "string option \<Rightarrow> string \<Rightarrow> string" where
  "GetLogDir env exe = GetBaseDir env exe @ ''/logs''"

definition is_log :: "LogFile \<Rightarrow> bool" where
  "is_log f =
     (if \<not> starts_with ''api-'' (lf_name f) then False
      else if length (lf_name f) < 5 \<or> drop (length (lf_name f) - 4) (lf_name f) \<noteq> ''.log'' then False
      else lf_mtime f \<noteq> None)"

definition remove_file :: "string \<Rightarrow> LogFile list \<Rightarrow> LogFile list" where
  "remove_file name d = filter (\<lambda>f. lf_name f \<noteq> name) d"

text \<open>\<open>d\<close> is \<^term>\<open>None\<close> when the directory can not be opened.\<close>

definition CleanupOldLogs :: "(LogFile list \<Rightarrow> LogFile list) \<Rightarrow> nat \<Rightarrow> LogFile list option \<Rightarrow> LogFile list option" where
  "CleanupOldLogs std_sort keepCount dir =
     (case dir of
        None \<Rightarrow> None
      | Some d \<Rightarrow>
          (let logs = filter is_log d
           in if length logs \<le> keepCount then Some d
              else Some (foldl (\<lambda>d f. remove_file (lf_name f) d) d (drop keepCount (std_sort logs)))))"

definition activeName :: string where
  "activeName = ''api.log''"

text \<open>\<^verbatim>\<open>rename\<close> replaces a file that has the new name.\<close>

definition rename_file :: "string \<Rightarrow> string \<Rightarrow> LogFile list \<Rightarrow> LogFile list" where
  "rename_file old new d =
     (if old = new then d
      else map (\<lambda>f. if lf_name f = old then f\<lparr>lf_name := new\<rparr> else f) (remove_file new d))"

text \<open>Opening for writing creates the file or empties it; \<open>now\<close> becomes its time.\<close>

definition write_file :: "string \<Rightarrow> int \<Rightarrow> string \<Rightarrow> LogFile list \<Rightarrow> LogFile list" where
  "write_file name now txt d = remove_file name d @ [\<lparr>lf_name = name, lf_mtime = Some now, lf_text = txt\<rparr>]"

definition append_file :: "string \<Rightarrow> int \<Rightarrow> string \<Rightarrow> LogFile list \<Rightarrow> LogFile list" where
  "append_file name now txt d =
     (if name \<in> set (map lf_name d)
      then map (\<lambda>f. if lf_name f = name then f\<lparr>lf_mtime := Some now, lf_text := lf_text f @ txt\<rparr> else f) d
      else d @ [\<lparr>lf_name = name, lf_mtime = Some now, lf_text = txt\<rparr>])"

text \<open>\<open>le_now\<close> is the time the file system records, \<open>le_time\<close> and \<open>le_zone\<close> the time of day.\<close>

record LogEnv =
  le_sort :: "LogFile list \<Rightarrow> LogFile list"
  le_now :: int
  le_time :: nat
  le_zone :: "nat \<Rightarrow> int"
  le_opens :: bool

definition archive_name :: "LogEnv \<Rightarrow> string" where
  "archive_name env = ''api-'' @ log_stamp (localtime (le_zone env) (le_time env)) @ ''.log''"

definition date_text :: "LogEnv \<Rightarrow> string" where
  "date_text env = log_date (localtime (le_zone env) (le_time env))"

definition InitLogFile :: "LogEnv \<Rightarrow> LogFile list \<Rightarrow> LogFile list" where
  "InitLogFile env d =
     (let d1 = (if \<exists>f \<in> set d. lf_name f = activeName \<and> lf_mtime f \<noteq> None
                then rename_file activeName (archive_name env) d else d);
          d2 = the (CleanupOldLogs (le_sort env) 10 (Some d1))
      in if le_opens env
         then write_file activeName (le_now env) (''[RSDWRestAPI] Log session started '' @ date_text env @ [LF]) d2
         else d2)"

record Log =
  lg_dir :: "LogFile list"
  lg_active :: bool
  lg_stderr :: "string list"

text \<open>\<open>lg_active\<close> is that \<^verbatim>\<open>GetActiveLogPath()\<close> is set.\<close>

definition LogMessage :: "APIConfig \<Rightarrow> Runtime \<Rightarrow> LogEnv \<Rightarrow> string \<Rightarrow> Log \<Rightarrow> Log" where
  "LogMessage c r env message l =
     (if \<not> enableLogging c \<or> g_ShuttingDown r then l
      else
        (let l1 = (if lg_active l then l else l\<lparr>lg_dir := InitLogFile env (lg_dir l), lg_active := True\<rparr>)
         in if \<not> le_opens env then l1
            else l1\<lparr>lg_dir := append_file activeName (le_now env) (''['' @ date_text env @ ''] '' @ message @ [LF]) (lg_dir l1),
                    lg_stderr := lg_stderr l1 @ [''[RSDWRestAPI] '' @ message]\<rparr>))"

definition LogVerbose :: "APIConfig \<Rightarrow> Runtime \<Rightarrow> LogEnv \<Rightarrow> string \<Rightarrow> Log \<Rightarrow> Log" where
  "LogVerbose c r env message l = (if \<not> verboseLogging c then l else LogMessage c r env message l)"


section \<open>Rotation\<close>

definition sort_ok :: "(LogFile list \<Rightarrow> LogFile list) \<Rightarrow> LogFile list \<Rightarrow> bool" where
  "sort_ok std_sort xs = (mset (std_sort xs) = mset xs \<and>
     sorted_wrt (\<lambda>a b. the (lf_mtime a) \<ge> the (lf_mtime b)) (std_sort xs))"

lemma remove_files: "foldl (\<lambda>d f. remove_file (lf_name f) d) d fs = filter (\<lambda>g. lf_name g \<notin> lf_name ` set fs) d"
  by (induction fs arbitrary: d) (auto simp: remove_file_def filter_filter intro: filter_cong)

lemma distinct_names_filter: "distinct (map lf_name d) \<Longrightarrow> distinct (map lf_name (filter P d))"
  by (induction d) auto

lemma names_determine: "distinct (map lf_name d) \<Longrightarrow> f \<in> set d \<Longrightarrow> g \<in> set d \<Longrightarrow> lf_name f = lf_name g \<Longrightarrow> f = g"
  by (auto simp: distinct_map dest: inj_onD)

lemma cleanup_eq:
  assumes "sort_ok srt (filter is_log d)" "distinct (map lf_name d)"
  shows "CleanupOldLogs srt k (Some d) = Some (filter (\<lambda>f. f \<notin> set (drop k (srt (filter is_log d)))) d)"
proof -
  let ?logs = "filter is_log d" and ?old = "drop k (srt (filter is_log d))"
  have m: "mset (srt ?logs) = mset ?logs" using assms(1) by (simp add: sort_ok_def)
  have "set ?old \<subseteq> set d" using mset_eq_setD [OF m] by (auto dest: in_set_dropD)
  then have "filter (\<lambda>g. lf_name g \<notin> lf_name ` set ?old) d = filter (\<lambda>f. f \<notin> set ?old) d"
    using names_determine [OF assms(2)] by (intro filter_cong) auto
  moreover have "length ?logs \<le> k \<Longrightarrow> ?old = []" using mset_eq_length [OF m] by simp
  ultimately show ?thesis by (auto simp: CleanupOldLogs_def Let_def remove_files)
qed

lemma cleanup_newest:
  assumes "sort_ok srt (filter is_log d)" "distinct (map lf_name d)" "CleanupOldLogs srt k (Some d) = Some d'"
  shows "length (filter is_log d') \<le> k" "filter (\<lambda>f. \<not> is_log f) d' = filter (\<lambda>f. \<not> is_log f) d"
    "f \<in> set d' \<Longrightarrow> is_log f \<Longrightarrow> g \<in> set d - set d' \<Longrightarrow> the (lf_mtime g) \<le> the (lf_mtime f)"
    "distinct (map lf_name d')"
proof -
  let ?logs = "filter is_log d"
  let ?s = "srt ?logs"
  have m: "mset ?s = mset ?logs" and so: "sorted_wrt (\<lambda>a b. the (lf_mtime a) \<ge> the (lf_mtime b)) ?s"
    using assms(1) by (auto simp: sort_ok_def)
  have st: "set ?s = set ?logs" using mset_eq_setD [OF m] .
  have dl: "distinct d" using assms(2) by (simp add: distinct_map)
  then have ds: "distinct ?s" using m by (metis distinct_filter mset_eq_imp_distinct_iff)
  have d': "d' = filter (\<lambda>f. f \<notin> set (drop k ?s)) d" using cleanup_eq [OF assms(1,2)] assms(3) by simp
  have split: "set ?logs = set (take k ?s) \<union> set (drop k ?s)" by (metis st append_take_drop_id set_append)
  have kept: "set (filter is_log d') \<subseteq> set (take k ?s)" using split by (auto simp: d')
  have "length (filter is_log d') = card (set (filter is_log d'))"
    using dl by (simp add: d' distinct_card [symmetric])
  also have "\<dots> \<le> card (set (take k ?s))" using kept by (intro card_mono) auto
  also have "\<dots> \<le> k" using card_length [of "take k ?s"] by simp
  finally show "length (filter is_log d') \<le> k" .
  show "filter (\<lambda>f. \<not> is_log f) d' = filter (\<lambda>f. \<not> is_log f) d"
    using st by (auto simp: d' dest: in_set_dropD intro!: filter_cong)
  show "distinct (map lf_name d')" using assms(2) by (simp add: d' distinct_names_filter)
  show "the (lf_mtime g) \<le> the (lf_mtime f)" if "f \<in> set d'" "is_log f" "g \<in> set d - set d'"
  proof -
    have "f \<in> set (take k ?s)" "g \<in> set (drop k ?s)" using kept that by (auto simp: d')
    then show ?thesis using so append_take_drop_id [of k ?s] by (metis sorted_wrt_append)
  qed
qed

lemma is_log_active: "lf_name f = activeName \<Longrightarrow> \<not> is_log f"
  by (simp add: is_log_def activeName_def starts_with_def)

text \<open>The directory after the log of the last session got its name with a time.\<close>

definition rotated :: "LogEnv \<Rightarrow> LogFile list \<Rightarrow> LogFile list" where
  "rotated env d =
     (if \<exists>f \<in> set d. lf_name f = activeName \<and> lf_mtime f \<noteq> None
      then rename_file activeName (archive_name env) d else d)"

lemma rotated_names:
  assumes "distinct (map lf_name d)"
  shows "distinct (map lf_name (rotated env d))"
proof -
  have d: "distinct (map lf_name (remove_file n d))" for n
    using assms by (simp add: remove_file_def distinct_names_filter)
  have n: "n \<notin> lf_name ` set (remove_file n d)" for n by (auto simp: remove_file_def)
  have "distinct (map lf_name (map (\<lambda>f. if lf_name f = a then f\<lparr>lf_name := b\<rparr> else f) fs))"
    if "distinct (map lf_name fs)" "b \<notin> lf_name ` set fs" for a b fs
    using that by (induction fs) (auto split: if_splits, metis image_eqI)
  note renamed = this [OF d n]
  define r where "r = archive_name env"
  show ?thesis using renamed [of activeName r] assms unfolding rotated_def rename_file_def r_def [symmetric] by simp
qed

text \<open>
  The last session's log is found under its stamp, and replaces a log of that name. Stamps of
  later times are later while the offset of local time is the same; in the hour the clock is
  set back they repeat.
\<close>

lemma rotated_archive:
  assumes "distinct (map lf_name d)" "f \<in> set d" "lf_name f = activeName" "lf_mtime f \<noteq> None"
  shows "filter (\<lambda>g. lf_name g = archive_name env) (rotated env d) = [f\<lparr>lf_name := archive_name env\<rparr>]"
proof -
  have n: "archive_name env \<noteq> activeName" by (simp add: archive_name_def activeName_def)
  obtain a b where ab: "d = a @ f # b" using assms(2) by (meson split_list)
  then have "lf_name g \<noteq> activeName" if "g \<in> set (a @ b)" for g using assms(1,3) that by (auto simp: image_iff)
  then have "map (\<lambda>g. if lf_name g = activeName then g\<lparr>lf_name := archive_name env\<rparr> else g) (remove_file (archive_name env) c)
      = remove_file (archive_name env) c" if "set c \<subseteq> set (a @ b)" for c
    using that by (intro map_idI) (auto simp: remove_file_def)
  from this [of a] this [of b] show ?thesis
    using n assms(3,4) ab by (auto simp: rotated_def rename_file_def remove_file_def filter_empty_conv)
qed

lemma archive_name_less:
  assumes "0 \<le> int (le_time e) + z" "0 \<le> int (le_time e') + z" "le_zone e = (\<lambda>_. z)" "le_zone e' = (\<lambda>_. z)"
    "tm_year (localtime (\<lambda>_. z) (le_time e)) < 10000" "tm_year (localtime (\<lambda>_. z) (le_time e')) < 10000"
  shows "archive_name e < archive_name e' \<longleftrightarrow> le_time e < le_time e'"
proof -
  let ?a = "localtime (\<lambda>_. z) (le_time e)" and ?b = "localtime (\<lambda>_. z) (le_time e')"
  have ok: "tm_ok ?a" "tm_ok ?b" by (simp_all add: localtime_def gmtime_ok)
  from printed_lengths(1) [OF ok(1) assms(5)] printed_lengths(1) [OF ok(2) assms(6)]
  have "archive_name e < archive_name e' \<longleftrightarrow> log_stamp ?a < log_stamp ?b"
    by (simp add: archive_name_def assms(3,4) append_less)
  also have "\<dots> \<longleftrightarrow> le_time e < le_time e'"
    using localtime_fixed [OF assms(1,2)] log_stamp_less [OF ok assms(5,6)] by simp
  finally show ?thesis .
qed

lemma archive_name_repeats:
  assumes "le_time e' = le_time e + 3600" "le_zone e' = le_zone e" "le_zone e (le_time e + 3600) = le_zone e (le_time e) - 3600"
  shows "archive_name e' = archive_name e"
  using localtime_repeats [OF assms(3)] assms by (simp add: archive_name_def)


text \<open>Twelve logs of which the two oldest go.\<close>

definition newest_first :: "LogFile list \<Rightarrow> LogFile list" where
  "newest_first xs = rev (sort_key (\<lambda>f. the (lf_mtime f)) xs)"

lemma newest_first_ok: "sort_ok newest_first xs"
proof -
  have "sorted (map (\<lambda>f. the (lf_mtime f)) (sort_key (\<lambda>f. the (lf_mtime f)) xs))" by simp
  then show ?thesis by (simp add: sort_ok_def newest_first_def sorted_wrt_rev sorted_map)
qed

definition demo_log_dir :: "LogFile list" where
  "demo_log_dir = map (\<lambda>n. \<lparr>lf_name = ''api-'' @ show_nat n @ ''.log'', lf_mtime = Some (int n), lf_text = []\<rparr>) [1 ..< 13]"


end
