(* ===== verification/Elf.thy ===== *)
theory Elf
  imports Memory Logger
begin

text \<open>
  Looking a symbol up in the program's own ELF file (\<^verbatim>\<open>FindInElfFile\<close>, \<^verbatim>\<open>GetLoadBias\<close> and
  \<^verbatim>\<open>FindBySymbol\<close> of \<^verbatim>\<open>src/src/engine/process_event.cpp\<close>, the report of \<^verbatim>\<open>native_call.cpp\<close>).
  The contents of \<^verbatim>\<open>/proc/self/exe\<close>, the answers of \<^verbatim>\<open>dlsym\<close> and the loaded objects are
  parameters; \<^verbatim>\<open>malloc\<close> succeeds. A read outside a buffer is the value \<^term>\<open>None\<close>.
\<close>

section \<open>The file\<close>

type_synonym bytes = "8 word list"

text \<open>\<^verbatim>\<open>fseek\<close> and \<^verbatim>\<open>fread\<close> of one object of \<open>n\<close> bytes; \<^verbatim>\<open>fread\<close> of an object of size 0 returns 0.\<close>

definition read_at :: "bytes \<Rightarrow> nat \<Rightarrow> nat \<Rightarrow> bytes option" where
  "read_at file off n = (if n = 0 \<or> length file < off + n then None else Some (take n (drop off file)))"

definition num_at :: "bytes \<Rightarrow> nat \<Rightarrow> nat \<Rightarrow> nat" where
  "num_at buf off n = nat (little_endian (take n (drop off buf)))"

definition field :: "bytes \<Rightarrow> nat \<Rightarrow> nat \<Rightarrow> nat option" where
  "field buf off n = (if off + n \<le> length buf then Some (num_at buf off n) else None)"

record Elf64_Ehdr =
  e_ident :: bytes
  e_shoff :: nat
  e_shentsize :: nat
  e_shnum :: nat
  e_shstrndx :: nat

definition ehdr_of :: "bytes \<Rightarrow> Elf64_Ehdr" where
  "ehdr_of b = \<lparr>e_ident = take 4 b, e_shoff = num_at b 40 8, e_shentsize = num_at b 58 2, e_shnum = num_at b 60 2,
     e_shstrndx = num_at b 62 2\<rparr>"

definition ELFMAG :: bytes where
  "ELFMAG = [0x7F, 0x45, 0x4C, 0x46]"

record Elf64_Shdr =
  sh_name :: nat
  sh_addr :: nat
  sh_offset :: nat
  sh_size :: nat
  sh_link :: nat
  sh_entsize :: nat

text \<open>\<^verbatim>\<open>sections[i]\<close>: the index steps by the size of the type, 64, whatever \<^verbatim>\<open>e_shentsize\<close> says.\<close>

definition section_at :: "bytes \<Rightarrow> nat \<Rightarrow> Elf64_Shdr option" where
  "section_at table i =
     (let b = drop (64 * i) table
      in if length b < 64 then None
         else Some \<lparr>sh_name = num_at b 0 4, sh_addr = num_at b 16 8, sh_offset = num_at b 24 8, sh_size = num_at b 32 8,
                    sh_link = num_at b 40 4, sh_entsize = num_at b 56 8\<rparr>)"

text \<open>\<^verbatim>\<open>strcmp(p, s) == 0\<close> for a literal \<open>s\<close>; the buffer ends with the list.\<close>

fun str_is :: "bytes \<Rightarrow> string \<Rightarrow> bool option" where
  "str_is [] s = None"
| "str_is (b # bs) [] = Some (b = 0)"
| "str_is (b # bs) (c # cs) = (if b = word_of_nat (code c) then str_is bs cs else Some False)"


section \<open>The lookup\<close>

fun find_symbol :: "bytes \<Rightarrow> bytes \<Rightarrow> string \<Rightarrow> u64 \<Rightarrow> nat list \<Rightarrow> u64 option" where
  "find_symbol symbols strtab wanted bias [] = Some 0"
| "find_symbol symbols strtab wanted bias (s # ss) =
     (case field symbols (24 * s) 4 of
        None \<Rightarrow> None
      | Some st_name \<Rightarrow>
          if st_name = 0 then find_symbol symbols strtab wanted bias ss
          else case field symbols (24 * s + 8) 8 of
            None \<Rightarrow> None
          | Some st_value \<Rightarrow>
              if st_value = 0 \<or> st_name \<ge> length strtab then find_symbol symbols strtab wanted bias ss
              else case str_is (drop st_name strtab) wanted of
                None \<Rightarrow> None
              | Some False \<Rightarrow> find_symbol symbols strtab wanted bias ss
              | Some True \<Rightarrow> Some (word_of_nat st_value + bias))"

text \<open>One pass over the sections \<open>is\<close>; a table that can not be read ends the pass.\<close>

fun scan_sections :: "bytes \<Rightarrow> bytes \<Rightarrow> bytes \<Rightarrow> nat \<Rightarrow> string \<Rightarrow> string \<Rightarrow> u64 \<Rightarrow> nat list \<Rightarrow> u64 option" where
  "scan_sections file table names shnum target wanted bias [] = Some 0"
| "scan_sections file table names shnum target wanted bias (i # rest_is) =
     (case section_at table i of
        None \<Rightarrow> None
      | Some sec \<Rightarrow>
          if sh_name sec \<ge> length names then scan_sections file table names shnum target wanted bias rest_is
          else case str_is (drop (sh_name sec) names) target of
            None \<Rightarrow> None
          | Some False \<Rightarrow> scan_sections file table names shnum target wanted bias rest_is
          | Some True \<Rightarrow>
              if sh_link sec \<ge> shnum \<or> sh_entsize sec = 0
              then scan_sections file table names shnum target wanted bias rest_is
              else case section_at table (sh_link sec) of
                None \<Rightarrow> None
              | Some strSection \<Rightarrow>
                  (case read_at file (sh_offset strSection) (sh_size strSection) of
                     None \<Rightarrow> Some 0
                   | Some strtab \<Rightarrow>
                       (case read_at file (sh_offset sec) (sh_size sec) of
                          None \<Rightarrow> Some 0
                        | Some symbols \<Rightarrow>
                            (case find_symbol symbols strtab wanted bias [0 ..< sh_size sec div sh_entsize sec] of
                               None \<Rightarrow> None
                             | Some r \<Rightarrow>
                                 if r \<noteq> 0 then Some r
                                 else scan_sections file table names shnum target wanted bias rest_is))))"

text \<open>The parts of the file the lookup starts from: header, section table and section names.\<close>

definition elf_sections :: "bytes \<Rightarrow> Elf64_Ehdr \<Rightarrow> bytes option" where
  "elf_sections file header = read_at file (e_shoff header) (e_shnum header * e_shentsize header)"

definition FindInElfFile :: "bytes option \<Rightarrow> string \<Rightarrow> u64 \<Rightarrow> u64 option" where
  "FindInElfFile exe wanted loadBias =
     (case exe of
        None \<Rightarrow> Some 0
      | Some file \<Rightarrow>
          (case read_at file 0 64 of
             None \<Rightarrow> Some 0
           | Some hb \<Rightarrow>
               (let header = ehdr_of hb
                in if e_ident header \<noteq> ELFMAG then Some 0
                   else if e_shoff header = 0 \<or> e_shnum header = 0 then Some 0
                   else case elf_sections file header of
                     None \<Rightarrow> Some 0
                   | Some table \<Rightarrow>
                       (case section_at table (e_shstrndx header) of
                          None \<Rightarrow> None
                        | Some shstr \<Rightarrow>
                            (case read_at file (sh_offset shstr) (sh_size shstr) of
                               None \<Rightarrow> Some 0
                             | Some names \<Rightarrow>
                                 (let pass = (\<lambda>target. scan_sections file table names (e_shnum header) target wanted loadBias
                                        [0 ..< e_shnum header])
                                  in case pass ''.symtab'' of
                                       None \<Rightarrow> None
                                     | Some r \<Rightarrow> if r \<noteq> 0 then Some r else pass ''.dynsym''))))))"

definition GetLoadBias :: "dl_info list \<Rightarrow> u64" where
  "GetLoadBias infos = (case find (\<lambda>i. fst i = []) infos of None \<Rightarrow> 0 | Some (name, base, phdrs) \<Rightarrow> base)"

definition kProcessEventSymbols :: "string list" where
  "kProcessEventSymbols = [''_ZN7UObject12ProcessEventEP9UFunctionPv'', ''_ZN7UObject12ProcessEventEP9UFunctionPKv'']"

definition FindByDlsym :: "(string \<Rightarrow> u64) \<Rightarrow> u64" where
  "FindByDlsym dlsym = (case find (\<lambda>a. a \<noteq> 0) (map dlsym kProcessEventSymbols) of None \<Rightarrow> 0 | Some a \<Rightarrow> a)"

fun elf_symbols :: "bytes option \<Rightarrow> u64 \<Rightarrow> string list \<Rightarrow> u64 option" where
  "elf_symbols exe bias [] = Some 0"
| "elf_symbols exe bias (name # names) =
     (case FindInElfFile exe name bias of
        None \<Rightarrow> None
      | Some a \<Rightarrow> if a \<noteq> 0 then Some a else elf_symbols exe bias names)"

text \<open>\<^verbatim>\<open>FindBySymbol\<close>: the address (0 when there is none) and its source.\<close>

definition FindBySymbol :: "(string \<Rightarrow> u64) \<Rightarrow> bytes option \<Rightarrow> dl_info list \<Rightarrow> (u64 \<times> string) option" where
  "FindBySymbol dlsym exe infos =
     (let address = FindByDlsym dlsym
      in if address \<noteq> 0 then Some (address, ''dlsym'')
         else case elf_symbols exe (GetLoadBias infos) kProcessEventSymbols of
           None \<Rightarrow> None
         | Some a \<Rightarrow> Some (a, if a \<noteq> 0 then ''elf-symtab'' else []))"


section \<open>The report on the image\<close>

definition report_section :: "bytes \<Rightarrow> bytes \<Rightarrow> (bool \<times> bool \<times> string) option \<Rightarrow> nat \<Rightarrow> (bool \<times> bool \<times> string) option" where
  "report_section table names acc i =
     (case acc of
        None \<Rightarrow> None
      | Some (haveSymtab, haveDynsym, found) \<Rightarrow>
          (case section_at table i of
             None \<Rightarrow> None
           | Some sec \<Rightarrow>
               if sh_name sec \<ge> length names then acc
               else
                 (let name = drop (sh_name sec) names
                  in case (str_is name ''.symtab'', str_is name ''.dynsym'', str_is name ''.text'') of
                       (Some a, Some b, Some c) \<Rightarrow>
                         Some (haveSymtab \<or> a, haveDynsym \<or> b,
                           if c then '' .text at '' @ HexString (sh_addr sec) @ '' size '' @ show_nat (sh_size sec) else found)
                     | _ \<Rightarrow> None)))"

text \<open>\<^verbatim>\<open>LogImageSymbolReport\<close>: the message it logs.\<close>

definition LogImageSymbolReport :: "bytes option \<Rightarrow> string option" where
  "LogImageSymbolReport exe =
     (case exe of
        None \<Rightarrow> Some ''Image: could not open /proc/self/exe''
      | Some file \<Rightarrow>
          (case read_at file 0 64 of
             None \<Rightarrow> Some ''Image: /proc/self/exe is not a readable ELF''
           | Some hb \<Rightarrow>
               (let header = ehdr_of hb
                in if e_ident header \<noteq> ELFMAG then Some ''Image: /proc/self/exe is not a readable ELF''
                   else
                     (let report = (\<lambda>(haveSymtab, haveDynsym, found).
                            ''Image: '' @ show_nat (e_shnum header) @ '' sections, .symtab '' @
                            (if haveSymtab then ''present'' else ''absent'') @ '', .dynsym '' @
                            (if haveDynsym then ''present'' else ''absent'') @ '','' @ found)
                      in case (if e_shoff header = 0 then None else elf_sections file header) of
                           None \<Rightarrow> Some (report (False, False, []))
                         | Some table \<Rightarrow>
                             if e_shstrndx header \<ge> e_shnum header then Some (report (False, False, []))
                             else case section_at table (e_shstrndx header) of
                               None \<Rightarrow> None
                             | Some shstr \<Rightarrow>
                                 (case read_at file (sh_offset shstr) (sh_size shstr) of
                                    None \<Rightarrow> Some (report (False, False, []))
                                  | Some names \<Rightarrow>
                                      map_option report
                                        (foldl (report_section table names) (Some (False, False, [])) [0 ..< e_shnum header]))))))"


section \<open>Safety and soundness of the lookup\<close>

text \<open>
  What the lookup relies on: the section entries have the size of the type, the index of the
  names is one of them, the string tables it uses end with a NUL and the entries of the symbol
  tables are no smaller than the type.
\<close>

definition strings_end :: "bytes \<Rightarrow> bytes \<Rightarrow> nat \<Rightarrow> bool" where
  "strings_end file table i =
     (case section_at table i of
        None \<Rightarrow> True
      | Some sec \<Rightarrow> (case read_at file (sh_offset sec) (sh_size sec) of None \<Rightarrow> True | Some b \<Rightarrow> last b = 0))"

definition symbols_ok :: "bytes \<Rightarrow> bytes \<Rightarrow> bytes \<Rightarrow> nat \<Rightarrow> bool" where
  "symbols_ok file table names i =
     (case section_at table i of
        None \<Rightarrow> True
      | Some sec \<Rightarrow>
          (if str_is (drop (sh_name sec) names) ''.symtab'' = Some True \<or> str_is (drop (sh_name sec) names) ''.dynsym'' = Some True
           then strings_end file table (sh_link sec) \<and> (sh_entsize sec = 0 \<or> 24 \<le> sh_entsize sec)
           else True))"

definition elf_wf :: "bytes \<Rightarrow> bool" where
  "elf_wf file =
     (case read_at file 0 64 of
        None \<Rightarrow> True
      | Some hb \<Rightarrow>
          (let header = ehdr_of hb
           in e_shentsize header = 64 \<and> e_shstrndx header < e_shnum header \<and>
              (case elf_sections file header of
                 None \<Rightarrow> True
               | Some table \<Rightarrow>
                   strings_end file table (e_shstrndx header) \<and>
                   (case section_at table (e_shstrndx header) of
                      None \<Rightarrow> True
                    | Some shstr \<Rightarrow>
                        (case read_at file (sh_offset shstr) (sh_size shstr) of
                           None \<Rightarrow> True
                         | Some names \<Rightarrow> list_all (symbols_ok file table names) [0 ..< e_shnum header])))))"

text \<open>A symbol table of the file has an entry with this name and value.\<close>

definition table_defines :: "bytes \<Rightarrow> bytes \<Rightarrow> string \<Rightarrow> nat \<Rightarrow> bool" where
  "table_defines symbols strtab name v =
     (\<exists>s st_name tl. field symbols (24 * s) 4 = Some st_name \<and> field symbols (24 * s + 8) 8 = Some v \<and>
        drop st_name strtab = map (\<lambda>c. word_of_nat (code c)) name @ 0 # tl)"

definition elf_defines :: "bytes \<Rightarrow> string \<Rightarrow> nat \<Rightarrow> bool" where
  "elf_defines file name v =
     (\<exists>off n off' n' symbols strtab. read_at file off n = Some symbols \<and> read_at file off' n' = Some strtab \<and>
        table_defines symbols strtab name v)"

lemma read_at_length: "read_at file off n = Some b \<Longrightarrow> length b = n \<and> b \<noteq> []"
  by (auto simp: read_at_def split: if_splits)

lemma str_is_safe:
  assumes "xs \<noteq> []" "last xs = 0" "CHR 0x00 \<notin> set s"
  shows "str_is xs s \<noteq> None"
  using assms
proof (induction xs s rule: str_is.induct)
  case (3 b bs c cs)
  have "word_of_nat (code c) \<noteq> (0 :: 8 word)"
  proof
    assume "word_of_nat (code c) = (0 :: 8 word)"
    then have "256 dvd code c" by (simp add: word_of_nat_eq_0_iff)
    then have "code c = 0" by (meson nat_of_char_less_256 nat_dvd_not_less gr0I)
    then have "of_char c = (of_char (CHR 0x00) :: nat)" by simp
    then have "c = CHR 0x00" by (simp only: of_char_eq_iff)
    then show False using 3 by simp
  qed
  with 3 show ?case by (auto split: if_splits)
qed auto

lemma str_is_True: "str_is xs s = Some True \<Longrightarrow> \<exists>tl. xs = map (\<lambda>c. word_of_nat (code c)) s @ 0 # tl"
  by (induction xs s rule: str_is.induct) (auto split: if_splits)

lemma find_symbol_safe:
  assumes "\<forall>s \<in> set ss. 24 * s + 24 \<le> length symbols" "strtab \<noteq> []" "last strtab = 0" "CHR 0x00 \<notin> set wanted"
  shows "find_symbol symbols strtab wanted bias ss \<noteq> None"
  using assms
proof (induction ss)
  case (Cons s ss)
  then have "str_is (drop st_name strtab) wanted \<noteq> None" if "st_name < length strtab" for st_name
    using that by (intro str_is_safe) auto
  moreover have "find_symbol symbols strtab wanted bias ss \<noteq> None" using Cons by simp
  ultimately show ?case using Cons.prems
    by (auto simp: field_def split: option.splits bool.splits) (metis not_None_eq not_le)+
qed simp

lemma find_symbol_sound:
  "find_symbol symbols strtab wanted bias ss = Some r \<Longrightarrow> r \<noteq> 0 \<Longrightarrow>
   \<exists>v. table_defines symbols strtab wanted v \<and> r = word_of_nat v + bias"
proof (induction ss)
  case (Cons s ss)
  then show ?case using str_is_True
    by (auto simp: table_defines_def split: option.splits bool.splits if_splits) blast+
qed simp

lemma entries_fit:
  assumes "24 \<le> (e :: nat)" "s < n div e"
  shows "24 * s + 24 \<le> n"
proof -
  have "24 * s + 24 \<le> 24 * (n div e)" using assms(2) by simp
  also have "\<dots> \<le> e * (n div e)" using assms(1) by simp
  also have "\<dots> \<le> n" by simp
  finally show ?thesis .
qed

lemma scan_sections_safe:
  assumes "length table = 64 * shnum" "names \<noteq> []" "last names = 0" "CHR 0x00 \<notin> set wanted"
    "target \<in> {''.symtab'', ''.dynsym''}" "\<forall>i \<in> set is. i < shnum \<and> symbols_ok file table names i"
  shows "scan_sections file table names shnum target wanted bias is \<noteq> None"
  using assms
proof (induction "is")
  case (Cons i "is")
  have sec: "shnum \<le> j \<or> section_at table j \<noteq> None" for j
    using Cons.prems(1) by (auto simp: section_at_def Let_def)
  have str: "length names \<le> k \<or> str_is (drop k names) target \<noteq> None" for k
    using str_is_safe [of "drop k names" target] Cons.prems(2,3,5) by (cases "k < length names") auto
  have tab: "find_symbol symbols strtab wanted bias [0 ..< sh_size s div sh_entsize s] \<noteq> None"
    if "section_at table i = Some s" "str_is (drop (sh_name s) names) target = Some True" "sh_entsize s \<noteq> 0"
      "section_at table (sh_link s) = Some t" "read_at file (sh_offset t) (sh_size t) = Some strtab"
      "read_at file (sh_offset s) (sh_size s) = Some symbols" for s t strtab symbols
  proof (rule find_symbol_safe)
    have "24 \<le> sh_entsize s" "last strtab = 0"
      using that Cons.prems(5,6) by (auto simp: symbols_ok_def strings_end_def split: if_splits)
    then show "\<forall>k \<in> set [0 ..< sh_size s div sh_entsize s]. 24 * k + 24 \<le> length symbols" "last strtab = 0"
      using entries_fit [of "sh_entsize s"] read_at_length [OF that(6)] by auto
    show "strtab \<noteq> []" "CHR 0x00 \<notin> set wanted" using read_at_length [OF that(5)] Cons.prems(4) by auto
  qed
  have rest: "scan_sections file table names shnum target wanted bias is \<noteq> None" using Cons by simp
  obtain s where s: "section_at table i = Some s" using sec [of i] Cons.prems(6) by auto
  show ?case
    using rest str [of "sh_name s"] sec [of "sh_link s"] s
    by (auto split: option.splits bool.splits) (use tab [OF s] in auto)
qed simp

lemma scan_sections_sound:
  "scan_sections file table names shnum target wanted bias is = Some r \<Longrightarrow> r \<noteq> 0 \<Longrightarrow>
   \<exists>v. elf_defines file wanted v \<and> r = word_of_nat v + bias"
proof (induction "is")
  case (Cons i "is")
  have found: "\<exists>v. elf_defines file wanted v \<and> r = word_of_nat v + bias"
    if "find_symbol symbols strtab wanted bias ss = Some r" "read_at file a b = Some strtab" "read_at file c d = Some symbols"
    for symbols strtab ss a b c d
    using find_symbol_sound [OF that(1) Cons.prems(2)] that(2,3) unfolding elf_defines_def by blast
  from Cons.prems(1) Cons.IH [OF _ Cons.prems(2)] Cons.prems(2) show ?case
    by (auto split: option.splits bool.splits if_splits dest: found)
qed simp

text \<open>
  C23: Looking a symbol up in the program file stays inside what was read from it and answers
  truthfully: on a file whose tables are well formed, every comparison and every entry lies
  inside its buffer, and an address other than 0 is the load bias plus the value of an entry
  with exactly the wanted name.
\<close>
theorem elf_lookup_sound:
  assumes "elf_wf file" "CHR 0x00 \<notin> set wanted"
  shows "\<exists>r. FindInElfFile (Some file) wanted bias = Some r \<and>
    (r \<noteq> 0 \<longrightarrow> (\<exists>v. elf_defines file wanted v \<and> r = word_of_nat v + bias))"
proof -
  have safe: "scan_sections file table names (e_shnum hd0) t wanted bias [0 ..< e_shnum hd0] \<noteq> None"
    if "t \<in> {''.symtab'', ''.dynsym''}" "read_at file 0 64 = Some hb" "hd0 = ehdr_of hb" "elf_sections file hd0 = Some table"
      "section_at table (e_shstrndx hd0) = Some sh" "read_at file (sh_offset sh) (sh_size sh) = Some names"
    for t hb hd0 table sh names
    using that assms read_at_length [OF that(6)]
    by (intro scan_sections_safe) (auto simp: elf_wf_def elf_sections_def strings_end_def list_all_iff Let_def dest!: read_at_length)
  have str: "section_at table (e_shstrndx hd0) \<noteq> None"
    if "read_at file 0 64 = Some hb" "hd0 = ehdr_of hb" "elf_sections file hd0 = Some table" for hb hd0 table
    using that assms(1) by (auto simp: elf_wf_def elf_sections_def section_at_def Let_def dest!: read_at_length)
  have "FindInElfFile (Some file) wanted bias \<noteq> None"
    using safe str by (fastforce simp: FindInElfFile_def Let_def split: option.splits)
  moreover have "\<exists>v. elf_defines file wanted v \<and> r = word_of_nat v + bias"
    if "FindInElfFile (Some file) wanted bias = Some r" "r \<noteq> 0" for r
    using that by (auto simp: FindInElfFile_def Let_def split: option.splits if_splits dest: scan_sections_sound)
  ultimately show ?thesis by blast
qed

text \<open>A file with the symbol \<open>main\<close> at \<open>0x1234\<close>.\<close>

definition demo_elf :: bytes where
  "demo_elf =
     [127, 69, 76, 70] @ replicate 36 0 @ [64] @ replicate 17 0 @ [64, 0, 3, 0, 2, 0] @
     [1] @ replicate 23 0 @ [23, 1] @ replicate 6 0 @ [48] @ replicate 7 0 @ [1] @ replicate 15 0 @ [24] @ replicate 7 0 @
     [9] @ replicate 23 0 @ [17, 1] @ replicate 6 0 @ [6] @ replicate 31 0 @
     [9] @ replicate 24 0 @ [1] @ replicate 6 0 @ [17] @ replicate 31 0 @
     [0, 46, 115, 121, 109, 116, 97, 98, 0, 46, 115, 116, 114, 116, 97, 98, 0] @
     [0, 109, 97, 105, 110, 0] @
     replicate 24 0 @ [1] @ replicate 7 0 @ [52, 18] @ replicate 14 0"

lemma demo_elf_wf: "elf_wf demo_elf"
  by code_simp

lemma demo_elf_main: "FindInElfFile (Some demo_elf) ''main'' 0x400000 = Some 0x401234"
  by code_simp

theorem elf_lookup_sound_witness:
  "\<exists>v. elf_defines demo_elf ''main'' v \<and> (0x401234 :: u64) = word_of_nat v + 0x400000"
  using elf_lookup_sound [OF demo_elf_wf, of "''main''" "0x400000"] demo_elf_main by simp

text \<open>
  The index of the section names is not compared with the number of sections: with an index
  beyond the table the lookup reads outside its buffer.
\<close>
lemma elf_names_index_unchecked:
  "FindInElfFile (Some (take 62 demo_elf @ [9, 0] @ drop 64 demo_elf)) ''main'' 0x400000 = None"
  by code_simp

end
