(* ===== verification/Hooks.thy ===== *)
theory Hooks
  imports Elf Engine_Core Game_Thread
begin

text \<open>
  The hooks into the game (\<^verbatim>\<open>src/src/engine/process_event.cpp\<close>, \<^verbatim>\<open>native_call.cpp\<close>): finding
  \<^verbatim>\<open>ProcessEvent\<close> by symbol or on the stack, replacing a virtual table slot or the thunk of a
  native function, learning the layout of a call frame and building one for a native call.
  Memory is a \<^typ>\<open>Heap\<close> that the writes change; the addresses of the module's own functions,
  the words on the stack, the thread and the success of \<^verbatim>\<open>mprotect\<close> are parameters. A call into
  the game is recorded, not modelled.
\<close>

section \<open>State\<close>

definition kExecFunction :: u64 where
  "kExecFunction = 0xD8"

definition kFunctionFlags :: u64 where
  "kFunctionFlags = 0xB0"

definition kFuncNative :: nat where
  "kFuncNative = 0x400"

definition kChildProperties :: u64 where
  "kChildProperties = 0x50"

text \<open>A null function pointer is 0; \<open>g_GameThread\<close> is \<^term>\<open>None\<close> until the thread is known.\<close>

record Hooks =
  hk_queue :: JobQueue
  g_Original :: u64
  g_ProcessEvent :: u64
  g_VTableIndex :: int
  hk_Status :: string
  g_PumpOriginal :: u64
  g_PumpFunction :: u64
  g_LayoutReady :: bool
  g_OffNode :: u64
  g_OffObject :: u64
  g_OffCode :: u64
  g_OffLocals :: u64
  g_OffPropertyChain :: u64
  g_DeriveAttempted :: bool
  g_GameThread :: "nat option"

definition new_Hooks :: Hooks where
  "new_Hooks = \<lparr>hk_queue = new_JobQueue, g_Original = 0, g_ProcessEvent = 0, g_VTableIndex = -1,
     hk_Status = ''not initialised'', g_PumpOriginal = 0, g_PumpFunction = 0, g_LayoutReady = False, g_OffNode = 0,
     g_OffObject = 0, g_OffCode = 0, g_OffLocals = 0, g_OffPropertyChain = 0, g_DeriveAttempted = False, g_GameThread = None\<rparr>"

abbreviation hk_ready :: "Hooks \<Rightarrow> bool" where
  "hk_ready k \<equiv> g_Ready (hk_queue k)"

abbreviation set_ready :: "bool \<Rightarrow> Hooks \<Rightarrow> Hooks" where
  "set_ready b k \<equiv> k\<lparr>hk_queue := (hk_queue k)\<lparr>g_Ready := b\<rparr>\<rparr>"

abbreviation has_flag :: "Heap \<Rightarrow> u64 \<Rightarrow> bool" where
  "has_flag h function \<equiv> u32_of (peek_i32 h (function + kFunctionFlags)) AND kFuncNative \<noteq> 0"

text \<open>Storing a pointer.\<close>

definition store_ptr :: "u64 \<Rightarrow> u64 \<Rightarrow> Heap \<Rightarrow> Heap" where
  "store_ptr a v h = poke a (le_bytes 8 (uint v)) h"

text \<open>
  A call into the game: through a \<^verbatim>\<open>ProcessEventFn\<close> (target, self, function, params), through a
  thunk (target, context, frame, result), or through a thunk with a frame built here (target,
  context, the bytes of the frame, result).
\<close>

datatype game_jump =
    EventCall u64 u64 u64 u64
  | ThunkCall u64 u64 u64 u64
  | FrameCall u64 u64 bytes u64


section \<open>Locating ProcessEvent\<close>

fun find_slot :: "Heap \<Rightarrow> u64 \<Rightarrow> u64 \<Rightarrow> nat list \<Rightarrow> int" where
  "find_slot h vtable target [] = -1"
| "find_slot h vtable target (i # more_slots) =
     (let slot = peek_ptr h (vtable + word_of_nat i * 8)
      in if slot = 0 then -1
         else if slot = target then int i
         else find_slot h vtable target more_slots)"

definition FindVTableIndex :: "Heap \<Rightarrow> u64 \<Rightarrow> u64 \<Rightarrow> int" where
  "FindVTableIndex h vtable target = find_slot h vtable target [0 ..< 200]"

text \<open>The first four distinct virtual tables of the objects with index 1 to 399.\<close>

fun collect_vtables :: "Heap \<Rightarrow> Engine \<Rightarrow> nat list \<Rightarrow> u64 list \<Rightarrow> u64 list" where
  "collect_vtables h e [] vtables = vtables"
| "collect_vtables h e (i # idx) vtables =
     (if length vtables \<ge> 4 then vtables
      else
        (let ob = GetObjectByIndex h e (int i); vtable = peek_ptr h ob
         in if ob = 0 then collect_vtables h e idx vtables
            else if vtable = 0 \<or> \<not> hp_image h vtable then collect_vtables h e idx vtables
            else if vtable \<in> set vtables then collect_vtables h e idx vtables
            else collect_vtables h e idx (vtables @ [vtable])))"

fun best_slot :: "Heap \<Rightarrow> u64 list \<Rightarrow> u64 \<Rightarrow> nat list \<Rightarrow> u64 \<times> int \<Rightarrow> u64 \<times> int" where
  "best_slot h vtables address [] best = best"
| "best_slot h vtables address (slot # slots) best =
     (let entry = peek_ptr h (hd vtables + word_of_nat slot * 8)
      in if entry = 0 \<or> \<not> hp_image h entry then best
         else if \<not> list_all (\<lambda>v. peek_ptr h (v + word_of_nat slot * 8) = entry) (tl vtables)
              then best_slot h vtables address slots best
         else if entry > address \<or> address - entry > 0x8000 then best_slot h vtables address slots best
         else if address - entry < 0x40 then best_slot h vtables address slots best
         else if fst best \<noteq> 0 \<and> entry \<le> fst best then best_slot h vtables address slots best
         else best_slot h vtables address slots (entry, int slot))"

definition MatchSharedVTableSlot :: "Heap \<Rightarrow> Engine \<Rightarrow> u64 \<Rightarrow> u64 \<times> int" where
  "MatchSharedVTableSlot h e address =
     (let vtables = collect_vtables h e [1 ..< 400] []
      in if length vtables < 2 then (0, -1)
         else best_slot h vtables address [4 ..< 200] (0, -1))"

fun derive_from :: "Heap \<Rightarrow> Engine \<Rightarrow> u64 list \<Rightarrow> (u64 \<times> int) option" where
  "derive_from h e [] = None"
| "derive_from h e (v # vs) =
     (if v = 0 \<or> \<not> hp_image h v then derive_from h e vs
      else
        (let (candidate, index) = MatchSharedVTableSlot h e v
         in if candidate = 0 then derive_from h e vs else Some (candidate, index)))"

text \<open>\<open>stack\<close> holds the words from the local variable \<^verbatim>\<open>marker\<close> upwards.\<close>

definition DeriveProcessEvent :: "Heap \<Rightarrow> Engine \<Rightarrow> u64 list \<Rightarrow> Hooks \<Rightarrow> Hooks" where
  "DeriveProcessEvent h e stack k =
     (if g_ProcessEvent k \<noteq> 0 \<or> g_DeriveAttempted k then k
      else if \<not> e_initialized e then k
      else
        (let k1 = k\<lparr>g_DeriveAttempted := True\<rparr>
         in case derive_from h e (take 256 stack) of
              None \<Rightarrow> k1
            | Some (candidate, index) \<Rightarrow>
                k1\<lparr>g_ProcessEvent := candidate, g_Original := candidate, g_VTableIndex := index\<rparr>))"


section \<open>The layout of a frame\<close>

definition learn_at :: "Heap \<Rightarrow> u64 \<Rightarrow> u64 \<Rightarrow> u64 \<Rightarrow> u64 \<Rightarrow> u64 \<times> u64 \<times> u64 \<Rightarrow> u64 \<Rightarrow> u64 \<times> u64 \<times> u64" where
  "learn_at h pump context chain base found offset =
     (case found of (node, ob, propertyChain) \<Rightarrow>
        (let v = peek_ptr h (base + offset)
         in if v = 0 then found
            else (if node = 0 \<and> v = pump then offset else node,
                  if ob = 0 \<and> context \<noteq> 0 \<and> v = context then offset else ob,
                  if propertyChain = 0 \<and> chain \<noteq> 0 \<and> v = chain then offset else propertyChain)))"

definition frame_offsets :: "u64 list" where
  "frame_offsets = map (\<lambda>i. word_of_nat (8 * i)) [0 ..< 48]"

definition LearnFrameLayout :: "Heap \<Rightarrow> u64 \<Rightarrow> u64 \<Rightarrow> Hooks \<Rightarrow> Hooks" where
  "LearnFrameLayout h frame context k =
     (if g_LayoutReady k \<or> frame = 0 \<or> g_PumpFunction k = 0 then k
      else
        (let chain = peek_ptr h (g_PumpFunction k + kChildProperties);
             (node, ob, propertyChain) = foldl (learn_at h (g_PumpFunction k) context chain frame) (0, 0, 0) frame_offsets
         in if node = 0 \<or> propertyChain = 0 then k
            else k\<lparr>g_OffNode := node, g_OffObject := (if ob \<noteq> 0 then ob else node + 0x08), g_OffCode := node + 0x10,
                   g_OffLocals := node + 0x18, g_OffPropertyChain := propertyChain, g_LayoutReady := True\<rparr>))"


section \<open>The hooks\<close>

definition drain_if_work :: "Hooks \<Rightarrow> Hooks" where
  "drain_if_work k = (if g_Queue (hk_queue k) \<noteq> [] then k\<lparr>hk_queue := Drain (hk_queue k)\<rparr> else k)"

definition HookedProcessEvent :: "u64 \<Rightarrow> u64 \<Rightarrow> u64 \<Rightarrow> Hooks \<Rightarrow> Hooks \<times> game_jump list" where
  "HookedProcessEvent self function params k =
     (let k1 = drain_if_work k in (k1, [EventCall (g_Original k1) self function params]))"

definition PumpThunk :: "Heap \<Rightarrow> Engine \<Rightarrow> u64 list \<Rightarrow> nat \<Rightarrow> u64 \<Rightarrow> u64 \<Rightarrow> u64 \<Rightarrow> Hooks \<Rightarrow> Hooks \<times> game_jump list" where
  "PumpThunk h e stack thread context frame result k =
     (let k1 = (if g_GameThread k = None then k\<lparr>g_GameThread := Some thread\<rparr> else k);
          k2 = DeriveProcessEvent h e stack k1;
          k3 = LearnFrameLayout h frame context k2;
          k4 = drain_if_work k3
      in (k4, if g_PumpOriginal k4 \<noteq> 0 then [ThunkCall (g_PumpOriginal k4) context frame result] else []))"

definition kPumpCandidates :: "string list" where
  "kPumpCandidates = [''ServerUpdateCamera'', ''ServerUpdateLevelVisibility'', ''ServerAcknowledgePossession'',
     ''ServerCheckClientPossession'']"

text \<open>The first candidate that is a native function with a thunk in the image: its name, address and thunk.\<close>

fun pump_candidate :: "Heap \<Rightarrow> Engine \<Rightarrow> string list \<Rightarrow> (string \<times> u64 \<times> u64) option" where
  "pump_candidate h e [] = None"
| "pump_candidate h e (name # names) =
     (let function = FindFunction h e ''PlayerController'' name;
          original = peek_ptr h (function + kExecFunction)
      in if function = 0 then pump_candidate h e names
         else if \<not> has_flag h function then pump_candidate h e names
         else if original = 0 \<or> \<not> hp_image h original then pump_candidate h e names
         else Some (name, function, original))"

text \<open>\<open>pump\<close> is the address of \<^verbatim>\<open>PumpThunk\<close>.\<close>

definition InstallExecPump :: "u64 \<Rightarrow> Engine \<Rightarrow> Heap \<times> Hooks \<Rightarrow> bool \<times> Heap \<times> Hooks" where
  "InstallExecPump pump e st =
     (case st of (h, k) \<Rightarrow>
        if hk_ready k then (True, h, k)
        else if \<not> e_initialized e then (False, h, k\<lparr>hk_Status := ''engine not initialised''\<rparr>)
        else case pump_candidate h e kPumpCandidates of
          None \<Rightarrow> (False, h, k\<lparr>hk_Status := ''no native server RPC available to pump from''\<rparr>)
        | Some (name, function, original) \<Rightarrow>
            (True, store_ptr (function + kExecFunction) pump h,
             set_ready True (k\<lparr>g_PumpFunction := function, g_PumpOriginal := original,
               hk_Status := ''exec-pump on PlayerController.'' @ name\<rparr>)))"

definition RemoveExecPump :: "Heap \<times> Hooks \<Rightarrow> Heap \<times> Hooks" where
  "RemoveExecPump st =
     (case st of (h, k) \<Rightarrow>
        if g_PumpFunction k = 0 \<or> g_PumpOriginal k = 0 then (h, k)
        else (store_ptr (g_PumpFunction k + kExecFunction) (g_PumpOriginal k) h,
              set_ready False (k\<lparr>g_PumpFunction := 0, g_PumpOriginal := 0\<rparr>)))"

definition HasProcessEvent :: "Hooks \<Rightarrow> bool" where
  "HasProcessEvent k = (g_ProcessEvent k \<noteq> 0 \<and> g_Original k \<noteq> 0)"

definition IsGameThread :: "nat \<Rightarrow> Hooks \<Rightarrow> bool" where
  "IsGameThread thread k = (g_GameThread k = Some thread)"

definition CallFunction :: "u64 \<Rightarrow> u64 \<Rightarrow> u64 \<Rightarrow> Hooks \<Rightarrow> game_jump list" where
  "CallFunction ob function params k =
     (if g_Original k = 0 \<or> ob = 0 \<or> function = 0 then [] else [EventCall (g_Original k) ob function params])"

text \<open>
  \<^verbatim>\<open>Initialize\<close>: \<open>hook\<close> is the address of \<^verbatim>\<open>HookedProcessEvent\<close>, \<open>mprotect\<close> whether the page can be
  made writable, \<open>found\<close> what \<^verbatim>\<open>FindBySymbol\<close> returns.
\<close>

definition install_slot :: "u64 \<Rightarrow> bool \<Rightarrow> u64 \<Rightarrow> Heap \<times> Hooks \<Rightarrow> bool \<times> Heap \<times> Hooks" where
  "install_slot hook mprotect vtable st =
     (case st of (h, k) \<Rightarrow>
        (let index = FindVTableIndex h vtable (g_ProcessEvent k);
             k1 = k\<lparr>g_VTableIndex := index\<rparr>
         in if index < 0 then (False, h, k1\<lparr>hk_Status := ''ProcessEvent not present in the UObject vtable''\<rparr>)
            else
              (let slotAddress = vtable + word_of_int index * 8;
                   k2 = k1\<lparr>g_Original := g_ProcessEvent k1\<rparr>
               in if \<not> mprotect then (False, h, k2\<lparr>hk_Status := ''could not make the vtable page writable''\<rparr>)
                  else (True, store_ptr slotAddress hook h,
                        set_ready True (k2\<lparr>hk_Status := ''ready ('' @ hk_Status k2 @ '', vtable slot '' @ to_string index @ '')''\<rparr>)))))"

definition GameThread_Initialize ::
    "u64 \<Rightarrow> bool \<Rightarrow> u64 \<times> string \<Rightarrow> Engine \<Rightarrow> u64 \<Rightarrow> u64 \<Rightarrow> Heap \<times> Hooks \<Rightarrow> bool \<times> Heap \<times> Hooks" where
  "GameThread_Initialize hook mprotect found e moduleStart moduleStop st =
     (case (st, found) of ((h, k), (address, source)) \<Rightarrow>
        if hk_ready k then (True, h, k)
        else if \<not> e_initialized e then (False, h, k\<lparr>hk_Status := ''engine not initialised''\<rparr>)
        else if address \<noteq> 0 \<and> address \<ge> moduleStart \<and> address < moduleStop
        then
          (let k1 = k\<lparr>g_ProcessEvent := address, hk_Status := source\<rparr>;
               sample = GetObjectByIndex h e 1;
               vtable = peek_ptr h sample
           in if sample = 0 then (False, h, k1\<lparr>hk_Status := ''no sample object to read a vtable from''\<rparr>)
              else if vtable = 0 \<or> \<not> hp_image h vtable
                   then (False, h, k1\<lparr>hk_Status := ''sample object vtable is not in the image''\<rparr>)
              else install_slot hook mprotect vtable (h, k1))
        else (False, h, k\<lparr>hk_Status := ''ProcessEvent not found in .dynsym or .symtab''\<rparr>))"

text \<open>\<^verbatim>\<open>HookVTable\<close>: the result, the previous entry (0 for none) and the memory.\<close>

definition HookVTable :: "bool \<Rightarrow> u64 \<Rightarrow> u64 \<Rightarrow> Heap \<Rightarrow> Hooks \<Rightarrow> bool \<times> u64 \<times> Heap" where
  "HookVTable mprotect ob hook h k =
     (if g_VTableIndex k < 0 \<or> ob = 0 \<or> \<not> hp_readable h ob 8 then (False, 0, h)
      else
        (let vtable = peek_ptr h ob;
             slotAddress = vtable + word_of_int (g_VTableIndex k) * 8;
             previous = peek_ptr h slotAddress
         in if vtable = 0 \<or> \<not> hp_image h vtable then (False, 0, h)
            else if previous = 0 then (False, 0, h)
            else if previous = hook then (True, 0, h)
            else if \<not> mprotect then (False, 0, h)
            else (True, previous, store_ptr slotAddress hook h)))"


section \<open>Native calls\<close>

definition IsNative :: "Heap \<Rightarrow> u64 \<Rightarrow> bool" where
  "IsNative h function = (if function = 0 \<or> \<not> hp_readable h function 0xE0 then False else has_flag h function)"

text \<open>
  A store into the local array \<^verbatim>\<open>frame\<close>; one that does not fit is \<^term>\<open>None\<close>.
\<close>

definition put_ptr :: "u64 \<Rightarrow> u64 \<Rightarrow> bytes option \<Rightarrow> bytes option" where
  "put_ptr off v frame =
     (case frame of
        None \<Rightarrow> None
      | Some b \<Rightarrow> if unat off + 8 \<le> length b then Some (take (unat off) b @ le_bytes 8 (uint v) @ drop (unat off + 8) b)
                   else None)"

definition build_frame :: "u64 \<Rightarrow> u64 \<Rightarrow> u64 \<Rightarrow> u64 \<Rightarrow> Hooks \<Rightarrow> bytes option" where
  "build_frame context function params chain k =
     put_ptr (g_OffPropertyChain k) chain
      (put_ptr (g_OffLocals k) params
        (put_ptr (g_OffCode k) 0
          (put_ptr (g_OffObject k) context
            (put_ptr (g_OffNode k) function (Some (replicate 0x200 0))))))"

text \<open>\<^verbatim>\<open>Invoke\<close>: \<^term>\<open>None\<close> is a store outside the frame; else the call made, if any.\<close>

definition Invoke :: "Heap \<Rightarrow> u64 \<Rightarrow> u64 \<Rightarrow> u64 \<Rightarrow> u64 \<Rightarrow> Hooks \<Rightarrow> game_jump list option" where
  "Invoke h context function params returnValueOffset k =
     (if context = 0 \<or> function = 0 \<or> params = 0 then Some []
      else if \<not> hp_readable h function 0xE0 then Some []
      else if \<not> has_flag h function then Some []
      else
        (let exec = peek_ptr h (function + kExecFunction);
             chain = peek_ptr h (function + kChildProperties)
         in if exec = 0 \<or> \<not> hp_image h exec then Some []
            else if \<not> g_LayoutReady k then Some []
            else if chain = 0 then Some []
            else map_option (\<lambda>frame. [FrameCall exec context frame (params + returnValueOffset)])
                   (build_frame context function params chain k)))"


section \<open>Frames\<close>

text \<open>What is known of the offsets once the layout is learned.\<close>

definition layout_ok :: "Hooks \<Rightarrow> bool" where
  "layout_ok k = (g_LayoutReady k \<longrightarrow>
     list_all (\<lambda>off. unat off mod 8 = 0 \<and> unat off \<le> 0x190)
       [g_OffNode k, g_OffObject k, g_OffCode k, g_OffLocals k, g_OffPropertyChain k])"

lemma learned_offsets:
  assumes "foldl (learn_at h pump context chain base) (n0, o0, p0) offs = (n, ob, p)"
  shows "n \<in> insert n0 (set offs) \<and> ob \<in> insert o0 (set offs) \<and> p \<in> insert p0 (set offs)"
  using assms
proof (induction offs arbitrary: n0 o0 p0)
  case (Cons off offs)
  obtain n1 o1 p1 where s: "learn_at h pump context chain base (n0, o0, p0) off = (n1, o1, p1)"
    using prod_cases3 by blast
  then have "n1 \<in> {n0, off} \<and> o1 \<in> {o0, off} \<and> p1 \<in> {p0, off}"
    by (auto simp: learn_at_def Let_def split: if_splits)
  then show ?case using Cons.IH [of n1 o1 p1] Cons.prems s by auto
qed simp

lemma frame_offset_unat: "off \<in> set frame_offsets \<Longrightarrow> unat off mod 8 = 0 \<and> unat off \<le> 0x178"
proof -
  assume "off \<in> set frame_offsets"
  then obtain i where i: "i < 48" "off = word_of_nat (8 * i)" unfolding frame_offsets_def by auto
  then have "unat off = 8 * i" by (simp add: unat_of_nat del: of_nat_mult)
  then show ?thesis using i by simp
qed

lemma layout_ok_learn: "layout_ok k \<Longrightarrow> layout_ok (LearnFrameLayout h frame context k)"
proof (cases "g_LayoutReady k \<or> frame = 0 \<or> g_PumpFunction k = 0")
  case False
  assume I: "layout_ok k"
  obtain n ob p where f: "foldl (learn_at h (g_PumpFunction k) context (peek_ptr h (g_PumpFunction k + kChildProperties)) frame)
      (0, 0, 0) frame_offsets = (n, ob, p)" using prod_cases3 by blast
  have r: "n \<in> set frame_offsets" "ob \<in> set frame_offsets" "p \<in> set frame_offsets"
    using learned_offsets [OF f] by (auto simp: frame_offsets_def image_iff intro: bexI [of _ 0])
  have add: "unat (n + c) mod 8 = 0 \<and> unat (n + c) \<le> 0x190" if "c \<in> {0x8, 0x10, 0x18}" for c
    using frame_offset_unat [OF r(1)] that by (auto simp: unat_word_ariths mod_add_eq)
  have "unat n mod 8 = 0 \<and> unat n \<le> 0x190" "unat ob mod 8 = 0 \<and> unat ob \<le> 0x190" "unat p mod 8 = 0 \<and> unat p \<le> 0x190"
    using frame_offset_unat [OF r(1)] frame_offset_unat [OF r(2)] frame_offset_unat [OF r(3)] by auto
  moreover have "LearnFrameLayout h frame context k = (if n = 0 \<or> p = 0 then k
      else k\<lparr>g_OffNode := n, g_OffObject := (if ob \<noteq> 0 then ob else n + 0x08), g_OffCode := n + 0x10,
             g_OffLocals := n + 0x18, g_OffPropertyChain := p, g_LayoutReady := True\<rparr>)"
    using False f by (simp add: LearnFrameLayout_def Let_def)
  ultimately show ?thesis using I add [of 8] add [of 16] add [of 24] by (simp add: layout_ok_def)
qed (auto simp: LearnFrameLayout_def)

text \<open>The states the hooks go through, on any memory and with any jobs queued in between.\<close>

inductive hook_step :: "Hooks \<Rightarrow> Hooks \<Rightarrow> bool" where
  event: "hook_step k (fst (HookedProcessEvent self function params k))"
| pump: "hook_step k (fst (PumpThunk h e stack thread context frame result k))"
| install: "hook_step k (snd (snd (InstallExecPump pump e (h, k))))"
| remove: "hook_step k (snd (RemoveExecPump (h, k)))"
| initialize: "hook_step k (snd (snd (GameThread_Initialize hook mprotect found e lo hi (h, k))))"
| queue: "hook_step k (k\<lparr>hk_queue := q\<rparr>)"

lemma layout_ok_cong:
  assumes "g_LayoutReady k' = g_LayoutReady k" "g_OffNode k' = g_OffNode k" "g_OffObject k' = g_OffObject k"
    "g_OffCode k' = g_OffCode k" "g_OffLocals k' = g_OffLocals k" "g_OffPropertyChain k' = g_OffPropertyChain k"
  shows "layout_ok k' = layout_ok k"
  using assms by (simp add: layout_ok_def)

lemma layout_ok_step: "hook_step k k' \<Longrightarrow> layout_ok k \<Longrightarrow> layout_ok k'"
proof (induction rule: hook_step.induct)
  case (pump k h e stack thread ctx frame result)
  let ?k1 = "if g_GameThread k = None then k\<lparr>g_GameThread := Some thread\<rparr> else k"
  have "layout_ok (DeriveProcessEvent h e stack ?k1)"
    using pump by (subst layout_ok_cong [of _ k]) (auto simp: DeriveProcessEvent_def Let_def split: option.split)
  then have "layout_ok (LearnFrameLayout h frame ctx (DeriveProcessEvent h e stack ?k1))" by (rule layout_ok_learn)
  then show ?case
    by (subst layout_ok_cong [of _ "LearnFrameLayout h frame ctx (DeriveProcessEvent h e stack ?k1)"])
      (auto simp: PumpThunk_def drain_if_work_def Let_def)
next
  case (event k self fn params)
  then show ?case by (subst layout_ok_cong [of _ k]) (auto simp: HookedProcessEvent_def drain_if_work_def Let_def)
next
  case (install k pump e h)
  then show ?case by (subst layout_ok_cong [of _ k]) (auto simp: InstallExecPump_def split: option.split prod.split)
next
  case (remove k h)
  then show ?case by (subst layout_ok_cong [of _ k]) (auto simp: RemoveExecPump_def)
next
  case (initialize k hook mprotect found e lo hi h)
  then show ?case
    by (subst layout_ok_cong [of _ k]) (auto simp: GameThread_Initialize_def install_slot_def Let_def split: prod.split)
next
  case (queue k q)
  then show ?case by (subst layout_ok_cong [of _ k]) auto
qed

lemma layout_ok_reachable: "hook_step\<^sup>*\<^sup>* new_Hooks k \<Longrightarrow> layout_ok k"
  by (induction rule: rtranclp_induct) (auto intro: layout_ok_step, simp add: layout_ok_def new_Hooks_def)

text \<open>A field of a frame.\<close>

definition get_ptr :: "u64 \<Rightarrow> bytes \<Rightarrow> u64" where
  "get_ptr off b = le_ptr (take 8 (drop (unat off) b))"

lemma put_ptr_fits:
  "length b = 0x200 \<Longrightarrow> unat off \<le> 0x190 \<Longrightarrow>
   \<exists>b'. put_ptr off v (Some b) = Some b' \<and> length b' = 0x200 \<and> get_ptr off b' = v"
  by (auto simp: put_ptr_def get_ptr_def length_le_bytes le_roundtrip)

lemma aligned_apart: "(a :: nat) mod 8 = 0 \<Longrightarrow> b mod 8 = 0 \<Longrightarrow> a \<noteq> b \<Longrightarrow> a + 8 \<le> b \<or> b + 8 \<le> a"
  by presburger

lemma put_ptr_other:
  assumes "put_ptr off v (Some b) = Some b'" "unat off mod 8 = 0" "unat off' mod 8 = 0" "off' \<noteq> off"
  shows "get_ptr off' b' = get_ptr off' b"
proof -
  have b': "unat off + 8 \<le> length b" "b' = take (unat off) b @ le_bytes 8 (uint v) @ drop (unat off + 8) b"
    using assms(1) by (auto simp: put_ptr_def split: if_splits)
  have "unat off \<noteq> unat off'" using assms(4) by (auto simp: word_unat_eq_iff)
  then consider "unat off + 8 \<le> unat off'" | "unat off' + 8 \<le> unat off"
    using aligned_apart [OF assms(2,3)] by blast
  then have "take 8 (drop (unat off') b') = take 8 (drop (unat off') b)"
    using b' by cases (auto simp: length_le_bytes take_drop min_def)
  then show ?thesis by (simp add: get_ptr_def)
qed

lemma build_frame_ok:
  assumes "layout_ok k" "g_LayoutReady k"
  obtains frame where "build_frame ctx fn params chain k = Some frame" "length frame = 0x200"
    "get_ptr (g_OffPropertyChain k) frame = chain"
    "distinct [g_OffNode k, g_OffObject k, g_OffCode k, g_OffLocals k, g_OffPropertyChain k] \<Longrightarrow>
       get_ptr (g_OffNode k) frame = fn \<and> get_ptr (g_OffObject k) frame = ctx \<and> get_ptr (g_OffCode k) frame = 0 \<and>
       get_ptr (g_OffLocals k) frame = params"
proof -
  have f: "unat off mod 8 = 0" "unat off \<le> 0x190"
    if "off \<in> {g_OffNode k, g_OffObject k, g_OffCode k, g_OffLocals k, g_OffPropertyChain k}" for off
    using assms that by (auto simp: layout_ok_def)
  obtain b1 where 1: "put_ptr (g_OffNode k) fn (Some (replicate 0x200 0)) = Some b1" "length b1 = 0x200" "get_ptr (g_OffNode k) b1 = fn"
    using put_ptr_fits [of "replicate 0x200 0" "g_OffNode k" fn] f by auto
  obtain b2 where 2: "put_ptr (g_OffObject k) ctx (Some b1) = Some b2" "length b2 = 0x200" "get_ptr (g_OffObject k) b2 = ctx"
    using put_ptr_fits [of b1 "g_OffObject k" ctx] f 1(2) by auto
  obtain b3 where 3: "put_ptr (g_OffCode k) 0 (Some b2) = Some b3" "length b3 = 0x200" "get_ptr (g_OffCode k) b3 = 0"
    using put_ptr_fits [of b2 "g_OffCode k" 0] f 2(2) by auto
  obtain b4 where 4: "put_ptr (g_OffLocals k) params (Some b3) = Some b4" "length b4 = 0x200" "get_ptr (g_OffLocals k) b4 = params"
    using put_ptr_fits [of b3 "g_OffLocals k" params] f 3(2) by auto
  obtain b5 where 5: "put_ptr (g_OffPropertyChain k) chain (Some b4) = Some b5" "length b5 = 0x200"
      "get_ptr (g_OffPropertyChain k) b5 = chain"
    using put_ptr_fits [of b4 "g_OffPropertyChain k" chain] f 4(2) by auto
  have m: "unat (g_OffNode k) mod 8 = 0" "unat (g_OffObject k) mod 8 = 0" "unat (g_OffCode k) mod 8 = 0"
      "unat (g_OffLocals k) mod 8 = 0" "unat (g_OffPropertyChain k) mod 8 = 0"
    by (rule f; simp)+
  note keep = put_ptr_other [OF 2(1) m(2) m(1)]
    put_ptr_other [OF 3(1) m(3) m(1)] put_ptr_other [OF 3(1) m(3) m(2)]
    put_ptr_other [OF 4(1) m(4) m(1)] put_ptr_other [OF 4(1) m(4) m(2)] put_ptr_other [OF 4(1) m(4) m(3)]
    put_ptr_other [OF 5(1) m(5) m(1)] put_ptr_other [OF 5(1) m(5) m(2)] put_ptr_other [OF 5(1) m(5) m(3)] put_ptr_other [OF 5(1) m(5) m(4)]
  show thesis
  proof (rule that [of b5])
    show "build_frame ctx fn params chain k = Some b5" by (simp add: build_frame_def 1 2 3 4 5)
    show "get_ptr (g_OffNode k) b5 = fn \<and> get_ptr (g_OffObject k) b5 = ctx \<and> get_ptr (g_OffCode k) b5 = 0 \<and>
        get_ptr (g_OffLocals k) b5 = params"
      if "distinct [g_OffNode k, g_OffObject k, g_OffCode k, g_OffLocals k, g_OffPropertyChain k]"
      using that by (simp add: keep 1(3) 2(3) 3(3) 4(3))
  qed (use 5 in simp_all)
qed

text \<open>
  C18: A native call never writes outside the frame it builds. Whatever memory the hooks have
  learned the layout from, every store of \<^verbatim>\<open>Invoke\<close> falls into its array of \<open>0x200\<close> bytes; a
  call is made only through the thunk of a native function that lies in the image, and its
  frame has the function's property chain at the learned offset and, where the learned offsets
  do not collide, the function, the object, no code and the parameters at theirs.
\<close>
theorem invoke_frame_in_bounds:
  assumes "hook_step\<^sup>*\<^sup>* new_Hooks k"
  shows "\<exists>js. Invoke h ctx fn params ret k = Some js \<and>
    (js \<noteq> [] \<longrightarrow> IsNative h fn \<and> hp_image h (peek_ptr h (fn + kExecFunction)) \<and>
      (\<exists>frame. js = [FrameCall (peek_ptr h (fn + kExecFunction)) ctx frame (params + ret)] \<and> length frame = 0x200 \<and>
        get_ptr (g_OffPropertyChain k) frame = peek_ptr h (fn + kChildProperties) \<and>
        (distinct [g_OffNode k, g_OffObject k, g_OffCode k, g_OffLocals k, g_OffPropertyChain k] \<longrightarrow>
           get_ptr (g_OffNode k) frame = fn \<and> get_ptr (g_OffObject k) frame = ctx \<and> get_ptr (g_OffCode k) frame = 0 \<and>
           get_ptr (g_OffLocals k) frame = params)))"
proof (cases "g_LayoutReady k")
  case True
  show ?thesis
    by (rule build_frame_ok [OF layout_ok_reachable [OF assms] True, of ctx fn params "peek_ptr h (fn + kChildProperties)"])
      (auto simp: Invoke_def IsNative_def Let_def True)
qed (simp add: Invoke_def Let_def)


section \<open>A process with a function to pump from\<close>

definition pump_heap :: Heap where
  "pump_heap = \<lparr>hp_readable = (\<lambda>a n. 0x500000 \<le> a \<and> a < 0x800000), hp_image = (\<lambda>a. 0x400000 \<le> a \<and> a < 0x500000),
     hp_byte = (\<lambda>a.
       if a < 0x510000 then
         sparse [(0x500000, [0, 0x10, 0x50]), (0x500014, [1]), (0x50001C, [1]), (0x501000, [0, 0x20, 0x50]), (0x502000, [0, 0, 0x51])] a
       else if a < 0x510040 then
         sparse [(0x510010, [0, 0, 0x52]), (0x510018, [15]), (0x510020, [0, 0, 0x53])] a
       else if a < 0x600000 then
         sparse [(0x510050, [0, 0, 0x54]), (0x5100B0, [0, 4]), (0x5100D8, [0, 0x10, 0x40]), (0x520018, [1]), (0x530018, [6])] a
       else if a < 0x700000 then
         sparse [(0x600008, [0, 0, 0x61]), (0x610002, [0, 2] @ map code ''Function''), (0x61000C, [0, 4] @ map code ''PlayerController''),
           (0x61001E, [0x80, 4] @ map code ''ServerUpdateCamera'')] a
       else sparse [(0x700010, [0, 0, 0x51]), (0x700018, [0, 0, 0x71]), (0x700080, [0, 0, 0x54])] a)\<rparr>"

definition pump_engine :: Engine where
  "pump_engine = new_Engine\<lparr>e_gObjects := 0x500000, e_gNames := 0x600000, e_initialized := True\<rparr>"

lemma pump_pointers:
  "peek_ptr pump_heap 0x500000 = 0x501000" "peek_ptr pump_heap 0x501000 = 0x502000" "peek_ptr pump_heap 0x502000 = 0x510000"
  "peek_ptr pump_heap 0x510010 = 0x520000" "peek_ptr pump_heap 0x510020 = 0x530000" "peek_ptr pump_heap 0x510050 = 0x540000"
  "peek_ptr pump_heap 0x5100D8 = 0x401000" "peek_ptr pump_heap 0x600008 = 0x610000"
  by (simp_all add: peek_ptr_def le_ptr_def rd_def load_eval load_Suc pump_heap_def sparse_def little_endian_def)

lemma pump_numbers:
  "peek_i32 pump_heap 0x500014 = 1" "peek_i32 pump_heap 0x50001C = 1" "peek_i32 pump_heap 0x510018 = 15"
  "peek_i32 pump_heap 0x51001C = 0" "peek_i32 pump_heap 0x520018 = 1" "peek_i32 pump_heap 0x52001C = 0"
  "peek_i32 pump_heap 0x530018 = 6" "peek_i32 pump_heap 0x53001C = 0" "peek_i32 pump_heap 0x5100B0 = 0x400"
  by (simp_all add: peek_i32_def le_i32_def rd_def load_eval load_Suc pump_heap_def sparse_def little_endian_def)

lemma pump_names:
  "rd pump_heap 2 0x610002 = Some [0, 2]" "rd pump_heap 2 0x61000C = Some [0, 4]" "rd pump_heap 2 0x61001E = Some [0x80, 4]"
  "chars pump_heap 0x610004 8 = ''Function''" "chars pump_heap 0x61000E 16 = ''PlayerController''"
  "chars pump_heap 0x610020 18 = ''ServerUpdateCamera''"
  by (simp_all add: chars_def rd_def load_eval load_Suc pump_heap_def sparse_def little_endian_def) code_simp+

lemma pump_ranges: "hp_readable pump_heap a n = (0x500000 \<le> a \<and> a < 0x800000)"
  "hp_image pump_heap a = (0x400000 \<le> a \<and> a < 0x500000)"
  by (simp_all add: pump_heap_def)

lemmas pump_facts = pump_pointers pump_numbers pump_names pump_ranges

lemma pump_object_names:
  "GetObjectName pump_heap pump_engine 0x510000 = ''ServerUpdateCamera''"
  "GetObjectName pump_heap pump_engine 0x520000 = ''Function''"
  "GetObjectName pump_heap pump_engine 0x530000 = ''PlayerController''"
  by (simp_all add: GetObjectName_def NameToString_def Let_def pump_facts pump_engine_def offset_defs u32_of_def le_nat_def
      little_endian_def take_bit_eq_mod drop_bit_eq_div)

lemma pump_objects: "objects pump_heap pump_engine = [0x510000]"
  by (simp add: objects_def GetObjectCount_def GetObjectByIndex_def Let_def pump_facts pump_engine_def offset_defs)

lemma pump_found: "FindFunction pump_heap pump_engine ''PlayerController'' ''ServerUpdateCamera'' = 0x510000"
  by (simp add: FindFunction_def first_of_def pump_objects GetObjectClassName_def pump_object_names pump_facts offset_defs)

lemma pump_installs:
  "InstallExecPump 0x900000 pump_engine (pump_heap, new_Hooks) =
     (True, store_ptr 0x5100D8 0x900000 pump_heap,
      set_ready True (new_Hooks\<lparr>g_PumpFunction := 0x510000, g_PumpOriginal := 0x401000,
        hk_Status := ''exec-pump on PlayerController.ServerUpdateCamera''\<rparr>))"
proof -
  have i: "e_initialized pump_engine" "\<not> hk_ready new_Hooks"
    by (simp_all add: pump_engine_def new_Hooks_def new_JobQueue_def)
  have "u32_of 0x400 AND kFuncNative \<noteq> 0" by (simp add: u32_of_def kFuncNative_def)
  then have "pump_candidate pump_heap pump_engine kPumpCandidates = Some (''ServerUpdateCamera'', 0x510000, 0x401000)"
    by (simp add: kPumpCandidates_def pump_found kExecFunction_def kFunctionFlags_def pump_facts)
  then show ?thesis using i by (simp add: InstallExecPump_def kExecFunction_def)
qed

lemma frame_offsets_list: "frame_offsets = [0, 0x8, 0x10, 0x18, 0x20, 0x28, 0x30, 0x38, 0x40, 0x48, 0x50, 0x58, 0x60, 0x68, 0x70, 0x78, 0x80, 0x88, 0x90, 0x98, 0xa0, 0xa8, 0xb0, 0xb8, 0xc0, 0xc8, 0xd0, 0xd8, 0xe0, 0xe8, 0xf0, 0xf8, 0x100, 0x108, 0x110, 0x118, 0x120, 0x128, 0x130, 0x138, 0x140, 0x148, 0x150, 0x158, 0x160, 0x168, 0x170, 0x178]"
  by (simp add: frame_offsets_def upt_rec numeral_eq_Suc [symmetric])

lemma pump_zero:
  assumes a: "0x700020 \<le> unat a \<and> unat a + 8 \<le> 0x700080 \<or> 0x700088 \<le> unat a" "unat a < 0x800000"
  shows "peek_ptr pump_heap a = 0"
proof -
  have "hp_byte pump_heap (a + word_of_nat k) = 0" if "k < 8" for k
  proof -
    have u: "unat (a + word_of_nat k) = unat a + k" using a that by (simp add: unat_word_ariths unat_of_nat)
    have lo: "\<not> a + word_of_nat k < 0x510000" "\<not> a + word_of_nat k < 0x510040" "\<not> a + word_of_nat k < 0x600000"
      "\<not> a + word_of_nat k < 0x700000" "0x700010 \<le> a + word_of_nat k" "0x700018 \<le> a + word_of_nat k"
      using a u by (auto simp: word_less_nat_alt word_le_nat_alt)
    then have "unat (a + word_of_nat k - c) = unat a + k - unat c" if "c \<le> a + word_of_nat k" for c
      using that u by (simp add: unat_sub)
    moreover have "\<not> 0x700080 \<le> a + word_of_nat k \<or> 0x700088 \<le> unat a + k"
      using a u that by (auto simp: word_le_nat_alt)
    ultimately show ?thesis using lo a that by (auto simp: pump_heap_def sparse_def)
  qed
  then have "load (hp_byte pump_heap) a 8 = replicate 8 0" by (auto simp: load_def list_eq_iff_nth_eq)
  then show ?thesis by (simp add: peek_ptr_def rd_def le_ptr_def little_endian_def numeral_eq_Suc)
qed

lemma pump_frame: "map (\<lambda>off. peek_ptr pump_heap (0x700000 + off)) frame_offsets =
    [0, 0, 0x510000, 0x710000, 0, 0, 0, 0, 0, 0, 0, 0, 0, 0, 0, 0, 0x540000, 0, 0, 0, 0, 0, 0, 0, 0, 0, 0, 0, 0, 0, 0, 0, 0, 0, 0, 0, 0, 0, 0, 0, 0, 0, 0, 0, 0, 0, 0, 0]"
  unfolding frame_offsets_list
  by (simp add: pump_zero) (simp add: peek_ptr_def le_ptr_def rd_def load_eval load_Suc pump_heap_def sparse_def little_endian_def)

definition pump_state :: Hooks where
  "pump_state = snd (snd (InstallExecPump 0x900000 pump_engine (pump_heap, new_Hooks)))"

definition pumped_state :: Hooks where
  "pumped_state = fst (PumpThunk pump_heap pump_engine [] 7 0x710000 0x700000 0 pump_state)"

lemma pumped_reachable: "hook_step\<^sup>*\<^sup>* new_Hooks pumped_state"
proof -
  have "hook_step new_Hooks pump_state" unfolding pump_state_def by (rule hook_step.install)
  moreover have "hook_step pump_state pumped_state" unfolding pumped_state_def by (rule hook_step.pump)
  ultimately show ?thesis by (meson converse_rtranclp_into_rtranclp rtranclp.rtrancl_refl)
qed

lemma pump_learns: "foldl (learn_at pump_heap 0x510000 0x710000 0x540000 0x700000) (0, 0, 0) frame_offsets = (0x10, 0x18, 0x80)"
proof -
  have *: "foldl (learn_at h p c ch b) acc offs = foldl (\<lambda>acc (off, v). case acc of (node, ob, chn) \<Rightarrow>
      if v = 0 then acc else (if node = 0 \<and> v = p then off else node, if ob = 0 \<and> c \<noteq> 0 \<and> v = c then off else ob,
        if chn = 0 \<and> ch \<noteq> 0 \<and> v = ch then off else chn)) acc (zip offs (map (\<lambda>off. peek_ptr h (b + off)) offs))"
    for h p c ch b acc offs
    by (induction offs arbitrary: acc) (auto simp: learn_at_def Let_def)
  show ?thesis unfolding * pump_frame unfolding frame_offsets_list by simp
qed

lemma pumped_offsets:
  "g_LayoutReady pumped_state" "g_OffNode pumped_state = 0x10" "g_OffObject pumped_state = 0x18" "g_OffCode pumped_state = 0x20"
  "g_OffLocals pumped_state = 0x28" "g_OffPropertyChain pumped_state = 0x80"
proof -
  have p: "g_PumpFunction pump_state = 0x510000" "\<not> g_LayoutReady pump_state" "g_Queue (hk_queue pump_state) = []"
    unfolding pump_state_def pump_installs by (simp_all add: new_Hooks_def new_JobQueue_def)
  have f: "g_LayoutReady (DeriveProcessEvent h e [] k) = g_LayoutReady k" "g_PumpFunction (DeriveProcessEvent h e [] k) = g_PumpFunction k"
    "hk_queue (DeriveProcessEvent h e [] k) = hk_queue k" for h e k
    by (simp_all add: DeriveProcessEvent_def Let_def)
  have c: "peek_ptr pump_heap (0x510000 + kChildProperties) = 0x540000" by (simp add: kChildProperties_def pump_facts)
  show "g_LayoutReady pumped_state" "g_OffNode pumped_state = 0x10" "g_OffObject pumped_state = 0x18" "g_OffCode pumped_state = 0x20"
    "g_OffLocals pumped_state = 0x28" "g_OffPropertyChain pumped_state = 0x80"
    by (simp_all add: pumped_state_def PumpThunk_def Let_def drain_if_work_def LearnFrameLayout_def f p c pump_learns)
qed

theorem invoke_frame_in_bounds_witness:
  "\<exists>frame. Invoke pump_heap 0x710000 0x510000 0x720000 8 pumped_state = Some [FrameCall 0x401000 0x710000 frame 0x720008] \<and>
     length frame = 0x200 \<and> get_ptr 0x10 frame = 0x510000 \<and> get_ptr 0x80 frame = 0x540000"
proof -
  have "u32_of 0x400 AND kFuncNative \<noteq> 0" by (simp add: u32_of_def kFuncNative_def)
  then have "Invoke pump_heap 0x710000 0x510000 0x720000 8 pumped_state \<noteq> Some []"
    by (auto simp: Invoke_def Let_def kFunctionFlags_def kExecFunction_def kChildProperties_def pump_facts pumped_offsets)
  then show ?thesis
    using invoke_frame_in_bounds [OF pumped_reachable, of pump_heap "0x710000" "0x510000" "0x720000" 8]
    by (auto simp: kExecFunction_def kChildProperties_def pump_facts pumped_offsets)
qed


section \<open>Replacing and restoring pointers\<close>

lemma little_endian_Cons: "little_endian (b # bs) = uint b + 256 * little_endian bs"
  by (simp add: little_endian_def)

lemma little_endian_bound: "0 \<le> little_endian bs \<and> little_endian bs < 256 ^ length bs"
proof (induction bs)
  case (Cons b bs)
  have "uint b < 256" using uint_bounded [of b] by simp
  moreover have "256 * little_endian bs + 256 \<le> 256 * 256 ^ length bs" using Cons by linarith
  ultimately show ?case using Cons by (simp add: little_endian_Cons)
qed (simp add: little_endian_def)

lemma le_bytes_little_endian: "length bs = n \<Longrightarrow> le_bytes n (little_endian bs) = bs"
proof (induction bs arbitrary: n)
  case (Cons b bs)
  have b: "0 \<le> uint b" "uint b < 256" using uint_bounded [of b] by simp_all
  have "word_of_int (uint b + 256 * little_endian bs) = b"
    by (rule word_uint_eqI) (use b in \<open>simp add: unsigned_of_int take_bit_eq_mod del: of_int_add of_int_mult\<close>)
  moreover have "(uint b + 256 * little_endian bs) div 256 = little_endian bs" using b by simp
  ultimately show ?case using Cons by (auto simp: little_endian_Cons)
qed auto

lemma le_bytes_le_ptr: "length bs = 8 \<Longrightarrow> le_bytes 8 (uint (le_ptr bs)) = bs"
  using little_endian_bound [of bs] le_bytes_little_endian [of bs 8]
  by (simp add: le_ptr_def unsigned_of_int take_bit_eq_mod)

lemma peek_store: "a \<noteq> 0 \<Longrightarrow> hp_readable h a 8 \<Longrightarrow> peek_ptr (store_ptr a v h) a = v"
  using load_poke_same [of 0 8 "le_bytes 8 (uint v)" a h]
  by (simp add: peek_ptr_def rd_def store_ptr_def length_le_bytes le_roundtrip)

lemma store_store: "store_ptr a v (store_ptr a w h) = store_ptr a v h"
  by (simp add: store_ptr_def poke_def length_le_bytes fun_eq_iff)

text \<open>Writing back the pointer that was read leaves the memory as it was.\<close>

lemma store_peek:
  assumes "peek_ptr h a \<noteq> 0"
  shows "store_ptr a (peek_ptr h a) h = h"
proof -
  have p: "peek_ptr h a = le_ptr (load (hp_byte h) a 8)"
    using assms by (simp add: peek_ptr_def rd_def split: if_splits)
  have b: "le_bytes 8 (uint (peek_ptr h a)) = load (hp_byte h) a 8"
    by (simp add: p le_bytes_le_ptr load_def)
  have "(if unat (x - a) < 8 then load (hp_byte h) a 8 ! unat (x - a) else hp_byte h x) = hp_byte h x" for x
    by (simp add: load_def)
  then show ?thesis by (simp add: store_ptr_def poke_def b) (simp add: load_def)
qed

lemma pump_candidate_ok:
  "pump_candidate h e names = Some (name, fn, original) \<Longrightarrow>
   name \<in> set names \<and> fn = FindFunction h e ''PlayerController'' name \<and> fn \<noteq> 0 \<and> has_flag h fn \<and>
   original = peek_ptr h (fn + kExecFunction) \<and> original \<noteq> 0 \<and> hp_image h original"
  by (induction names) (auto simp: Let_def split: if_splits)

lemma InstallExecPump_fresh:
  assumes "InstallExecPump pump e (h, k) = (True, h', k')" "\<not> hk_ready k"
  obtains name where "name \<in> set kPumpCandidates" "g_PumpFunction k' = FindFunction h e ''PlayerController'' name"
    "g_PumpFunction k' \<noteq> 0" "has_flag h (g_PumpFunction k')"
    "g_PumpOriginal k' = peek_ptr h (g_PumpFunction k' + kExecFunction)" "g_PumpOriginal k' \<noteq> 0"
    "hp_image h (g_PumpOriginal k')" "h' = store_ptr (g_PumpFunction k' + kExecFunction) pump h" "hk_ready k'"
proof -
  obtain name fn original where c: "pump_candidate h e kPumpCandidates = Some (name, fn, original)"
      "h' = store_ptr (fn + kExecFunction) pump h" "hk_ready k'" "g_PumpFunction k' = fn" "g_PumpOriginal k' = original"
    using assms by (auto simp: InstallExecPump_def split: if_splits option.splits)
  show thesis by (rule that [of name]) (use c pump_candidate_ok [OF c(1)] in auto)
qed

text \<open>
  C21: The pump can be taken out without a trace. When it is installed, the thunk it replaces is
  the one of a native player controller function and lies in the image, the slot then holds
  the pump, and a second installation changes nothing; removing it restores every byte of the
  memory and leaves the pump not ready.
\<close>
theorem pump_roundtrip:
  assumes "InstallExecPump pump e (h, k) = (True, h', k')" "\<not> hk_ready k"
  shows "(\<exists>name \<in> set kPumpCandidates. g_PumpFunction k' = FindFunction h e ''PlayerController'' name) \<and>
    has_flag h (g_PumpFunction k') \<and> hp_image h (g_PumpOriginal k') \<and>
    peek_ptr h' (g_PumpFunction k' + kExecFunction) = pump \<and>
    InstallExecPump pump e (h', k') = (True, h', k') \<and>
    fst (RemoveExecPump (h', k')) = h \<and> \<not> hk_ready (snd (RemoveExecPump (h', k')))"
proof -
  from InstallExecPump_fresh [OF assms] obtain name where n: "name \<in> set kPumpCandidates"
    "g_PumpFunction k' = FindFunction h e ''PlayerController'' name" "g_PumpFunction k' \<noteq> 0" "has_flag h (g_PumpFunction k')"
    and o: "g_PumpOriginal k' = peek_ptr h (g_PumpFunction k' + kExecFunction)" "g_PumpOriginal k' \<noteq> 0"
    and h: "hp_image h (g_PumpOriginal k')" "h' = store_ptr (g_PumpFunction k' + kExecFunction) pump h" "hk_ready k'" .
  have r: "g_PumpFunction k' + kExecFunction \<noteq> 0" "hp_readable h (g_PumpFunction k' + kExecFunction) 8"
    using o by (auto simp: peek_ptr_def rd_def split: if_splits)
  have "store_ptr (g_PumpFunction k' + kExecFunction) (g_PumpOriginal k') h' = h"
    using store_peek [of h "g_PumpFunction k' + kExecFunction"] o by (simp add: h(2) store_store)
  then show ?thesis using n o h peek_store [OF r] by (auto simp: RemoveExecPump_def InstallExecPump_def)
qed

theorem pump_roundtrip_witness:
  "fst (RemoveExecPump (snd (InstallExecPump 0x900000 pump_engine (pump_heap, new_Hooks)))) = pump_heap"
proof -
  have "\<not> hk_ready new_Hooks" by (simp add: new_Hooks_def new_JobQueue_def)
  then show ?thesis using pump_roundtrip [OF pump_installs] by (simp add: pump_installs)
qed

lemma drain_if_work_simps: "hk_queue (drain_if_work k) = Drain (hk_queue k)" "g_Original (drain_if_work k) = g_Original k"
  "g_PumpOriginal (drain_if_work k) = g_PumpOriginal k"
  by (simp_all add: drain_if_work_def Drain.simps [of "hk_queue k"])

lemma hooks_keep: "hk_queue (DeriveProcessEvent h e stack k) = hk_queue k" "hk_queue (LearnFrameLayout h frame ctx k) = hk_queue k"
  "g_PumpOriginal (DeriveProcessEvent h e stack k) = g_PumpOriginal k"
  "g_PumpOriginal (LearnFrameLayout h frame ctx k) = g_PumpOriginal k"
  by (simp_all add: DeriveProcessEvent_def LearnFrameLayout_def Let_def split_beta split: option.split)

text \<open>
  The hooks are transparent: each forwards its call once and unchanged to the function it
  replaced, after it has emptied the queue and run every job that waited.
\<close>
lemma hooks_transparent:
  "snd (HookedProcessEvent self fn params k) = [EventCall (g_Original k) self fn params]"
  "snd (PumpThunk h e stack thread ctx frame result k) =
     (if g_PumpOriginal k \<noteq> 0 then [ThunkCall (g_PumpOriginal k) ctx frame result] else [])"
  "hk_queue (fst (HookedProcessEvent self fn params k)) = Drain (hk_queue k)"
  "hk_queue (fst (PumpThunk h e stack thread ctx frame result k)) = Drain (hk_queue k)"
  by (simp_all add: HookedProcessEvent_def PumpThunk_def Let_def drain_if_work_simps hooks_keep)

text \<open>
  A symbol found but not installed blocks the fallback: when the virtual table of the sample
  object does not contain the address, \<^verbatim>\<open>g_ProcessEvent\<close> stays set without \<^verbatim>\<open>g_Original\<close>, the pump
  never derives the function from the stack, and broadcasts stay disabled.
\<close>
lemma failed_initialize_blocks_derive:
  assumes "g_Original k = 0" "\<not> hk_ready k" "e_initialized e" "address \<noteq> 0" "lo \<le> address" "address < hi"
    "GetObjectByIndex h e 1 = 0 \<or> \<not> hp_image h (peek_ptr h (GetObjectByIndex h e 1)) \<or>
     FindVTableIndex h (peek_ptr h (GetObjectByIndex h e 1)) address < 0"
  shows "\<exists>k'. GameThread_Initialize hook mprotect (address, source) e lo hi (h, k) = (False, h, k') \<and>
    DeriveProcessEvent h' e' stack k' = k' \<and> \<not> HasProcessEvent k'"
  using assms by (auto simp: GameThread_Initialize_def install_slot_def Let_def DeriveProcessEvent_def HasProcessEvent_def)


section \<open>What is derived from the stack\<close>

text \<open>An entry at the same slot of every virtual table, shortly before a return address.\<close>

definition shared_slot :: "Heap \<Rightarrow> u64 list \<Rightarrow> u64 \<Rightarrow> u64 \<Rightarrow> int \<Rightarrow> bool" where
  "shared_slot h vtables address entry index =
     (4 \<le> index \<and> index < 200 \<and> hp_image h entry \<and>
      list_all (\<lambda>v. peek_ptr h (v + word_of_int index * 8) = entry) vtables \<and>
      entry \<le> address \<and> 0x40 \<le> address - entry \<and> address - entry \<le> 0x8000)"

lemma best_slot_shared:
  assumes "vtables \<noteq> []" "\<forall>s \<in> set slots. 4 \<le> s \<and> s < 200" "fst best \<noteq> 0 \<longrightarrow> shared_slot h vtables address (fst best) (snd best)"
    "fst (best_slot h vtables address slots best) \<noteq> 0"
  shows "shared_slot h vtables address (fst (best_slot h vtables address slots best)) (snd (best_slot h vtables address slots best))"
  using assms
proof (induction slots arbitrary: best)
  case (Cons s slots)
  let ?entry = "peek_ptr h (hd vtables + word_of_nat s * 8)"
  have "shared_slot h vtables address ?entry (int s)"
    if "hp_image h ?entry" "list_all (\<lambda>v. peek_ptr h (v + word_of_nat s * 8) = ?entry) (tl vtables)" "\<not> ?entry > address"
      "\<not> address - ?entry > 0x8000" "\<not> address - ?entry < 0x40"
    using that Cons.prems(1,2) by (cases vtables) (auto simp: shared_slot_def not_less)
  then show ?case using Cons.prems Cons.IH [of best] Cons.IH [of "(?entry, int s)"] by (auto simp: Let_def split: if_splits)
qed auto

lemma collect_vtables_ok:
  "distinct vs \<Longrightarrow> list_all (\<lambda>v. v \<noteq> 0 \<and> hp_image h v) vs \<Longrightarrow> length vs \<le> 4 \<Longrightarrow>
   distinct (collect_vtables h e idx vs) \<and> list_all (\<lambda>v. v \<noteq> 0 \<and> hp_image h v) (collect_vtables h e idx vs) \<and>
   length (collect_vtables h e idx vs) \<le> 4"
  by (induction idx arbitrary: vs) (auto simp: Let_def)

text \<open>
  The fallback takes no guess: when it sets \<^verbatim>\<open>ProcessEvent\<close>, the address stands at one slot of
  two to four different virtual tables of the image, lies in the image, and a word of the
  stack returns to between \<open>0x40\<close> and \<open>0x8000\<close> bytes after it; the slot is remembered, and it
  is tried only once.
\<close>
lemma derive_sound:
  assumes "g_ProcessEvent k = 0" "g_ProcessEvent (DeriveProcessEvent h e stack k) \<noteq> 0"
  shows "let k' = DeriveProcessEvent h e stack k; vtables = collect_vtables h e [1 ..< 400] []
    in HasProcessEvent k' \<and> g_Original k' = g_ProcessEvent k' \<and> g_DeriveAttempted k' \<and>
       2 \<le> length vtables \<and> length vtables \<le> 4 \<and> distinct vtables \<and> list_all (hp_image h) vtables \<and>
       (\<exists>address \<in> set (take 256 stack). hp_image h address \<and>
          shared_slot h vtables address (g_ProcessEvent k') (g_VTableIndex k'))"
proof -
  let ?vs = "collect_vtables h e [1 ..< 400] []"
  have found: "\<exists>v \<in> set vs. hp_image h v \<and> c \<noteq> 0 \<and> (c, i) = MatchSharedVTableSlot h e v"
    if "derive_from h e vs = Some (c, i)" for vs c i
    using that by (induction vs) (auto simp: Let_def split: if_splits prod.splits)
  obtain c i where d: "derive_from h e (take 256 stack) = Some (c, i)" "\<not> g_DeriveAttempted k" "e_initialized e"
    using assms by (auto simp: DeriveProcessEvent_def Let_def split: if_splits option.splits)
  then have k': "DeriveProcessEvent h e stack k = k\<lparr>g_DeriveAttempted := True, g_ProcessEvent := c, g_Original := c, g_VTableIndex := i\<rparr>"
    using assms(1) by (simp add: DeriveProcessEvent_def Let_def)
  obtain v where v: "v \<in> set (take 256 stack)" "hp_image h v" "c \<noteq> 0" "(c, i) = MatchSharedVTableSlot h e v"
    using found [OF d(1)] by blast
  then have m: "2 \<le> length ?vs" "best_slot h ?vs v [4 ..< 200] (0, -1) = (c, i)"
    by (auto simp: MatchSharedVTableSlot_def Let_def simp del: upt_rec_numeral split: if_splits)
  have ne: "?vs \<noteq> []" using m(1) by (metis list.size(3) not_numeral_le_zero)
  have "\<forall>s \<in> set [4 ..< 200]. 4 \<le> s \<and> s < (200 :: nat)" by (simp only: set_upt atLeastLessThan_iff ball_simps) auto
  then have "shared_slot h ?vs v c i"
    using best_slot_shared [of ?vs "[4 ..< 200]" "(0, -1)" h v] v(3) m(2) ne by (auto simp del: upt_rec_numeral)
  moreover have "distinct ?vs \<and> list_all (\<lambda>v. v \<noteq> 0 \<and> hp_image h v) ?vs \<and> length ?vs \<le> 4" by (rule collect_vtables_ok) auto
  ultimately show ?thesis using v(1,2,3) m(1) by (auto simp: k' HasProcessEvent_def list_all_iff Let_def simp del: upt_rec_numeral)
qed

end
