(* ===== verification/Chat_Hooks.thy ===== *)
theory Chat_Hooks
  imports Chat Players Hooks
begin

text \<open>
  The memory side of chat (\<^verbatim>\<open>src/src/engine/chat.cpp\<close>): finding the functions and replacing the
  thunk of the game's send function (\<^verbatim>\<open>Initialize\<close>), watching the chat components' virtual tables
  (\<^verbatim>\<open>Poll\<close>, \<^verbatim>\<open>HookedChatProcessEvent\<close>), reading a message or an event from a call's parameters,
  and building the parameters of a message. Theory \<^theory_text>\<open>Chat\<close> holds what is done with them.
\<close>

section \<open>State\<close>

definition kSenderId :: u64 where "kSenderId = 0x00"
definition kSecondaryId :: u64 where "kSecondaryId = 0x30"
definition kCharacterGuid :: u64 where "kCharacterGuid = 0x60"
definition kPlayerId :: u64 where "kPlayerId = 0x70"
definition kColor :: u64 where "kColor = 0x74"
definition kMessageBody :: u64 where "kMessageBody = 0x78"
definition kMessageSize :: nat where "kMessageSize = 0x88"
definition kEventTag :: u64 where "kEventTag = 0x78"
definition kEventSize :: nat where "kEventSize = 0x80"
definition kControllerChatComponent :: u64 where "kControllerChatComponent = 0x1288"

lemmas chat_offsets = kSenderId_def kSecondaryId_def kCharacterGuid_def kPlayerId_def kColor_def kMessageBody_def
  kMessageSize_def kEventTag_def kEventSize_def kControllerChatComponent_def

record ChatHooks =
  g_OriginalSend :: u64
  g_SendFunction :: u64
  g_ReceiveFunction :: u64
  g_AdminFunction :: u64
  g_AdminLibrary :: u64
  g_ClientEventFunction :: u64
  g_ServerEventFunction :: u64
  g_SystemMessageFunction :: u64
  g_Hooked :: bool
  ch_Status :: string
  g_HookedVTables :: "u64 \<rightharpoonup> u64"

definition new_ChatHooks :: ChatHooks where
  "new_ChatHooks = \<lparr>g_OriginalSend = 0, g_SendFunction = 0, g_ReceiveFunction = 0, g_AdminFunction = 0, g_AdminLibrary = 0,
     g_ClientEventFunction = 0, g_ServerEventFunction = 0, g_SystemMessageFunction = 0, g_Hooked = False,
     ch_Status = ''not initialised'', g_HookedVTables = Map.empty\<rparr>"

text \<open>\<^verbatim>\<open>Initialize\<close>; \<open>thunk\<close> is the address of \<^verbatim>\<open>SendThunk\<close>.\<close>

definition find_functions :: "Heap \<Rightarrow> Engine \<Rightarrow> ChatHooks \<Rightarrow> ChatHooks" where
  "find_functions h e c =
     c\<lparr>g_SendFunction := FindFunction h e ''PlayerChatComponent'' ''Server_SendChatMessage'',
       g_ReceiveFunction := FindFunction h e ''PlayerChatComponent'' ''Client_ReceiveChatMessage'',
       g_AdminFunction := FindFunction h e ''PrivilegeFunctionLibrary'' ''ControllerIsOwnerOrAdmin'',
       g_AdminLibrary := FindObject h e ''PrivilegeFunctionLibrary'' True,
       g_ClientEventFunction := FindFunction h e ''PlayerChatComponent'' ''Client_ReceivePlayerEvent'',
       g_ServerEventFunction := FindFunction h e ''PlayerChatComponent'' ''Server_SendPlayerEvent'',
       g_SystemMessageFunction := FindFunction h e ''PlayerChatComponent'' ''Client_ReceiveSystemMessage''\<rparr>"

definition Chat_Initialize :: "u64 \<Rightarrow> Engine \<Rightarrow> Heap \<times> ChatHooks \<Rightarrow> bool \<times> Heap \<times> ChatHooks" where
  "Chat_Initialize thunk e st =
     (case st of (h, c) \<Rightarrow>
        if g_Hooked c then (True, h, c)
        else if \<not> e_initialized e then (False, h, c\<lparr>ch_Status := ''engine not initialised''\<rparr>)
        else
          (let c1 = find_functions h e c;
               slot = g_SendFunction c1 + kExecFunction;
               original = peek_ptr h slot
           in if g_SendFunction c1 = 0 then (False, h, c1\<lparr>ch_Status := ''Server_SendChatMessage not found''\<rparr>)
              else if original = 0 \<or> \<not> hp_image h original
                   then (False, h, c1\<lparr>ch_Status := ''Server_SendChatMessage has no usable thunk''\<rparr>)
              else (True, store_ptr slot thunk h, c1\<lparr>g_OriginalSend := original, g_Hooked := True, ch_Status := ''hooked''\<rparr>)))"


section \<open>Watching the components\<close>

text \<open>The body of the loop of \<^verbatim>\<open>Poll\<close>; \<open>hook\<close> is the address of \<^verbatim>\<open>HookedChatProcessEvent\<close>.\<close>

definition poll_player :: "u64 \<Rightarrow> bool \<Rightarrow> Hooks \<Rightarrow> Heap \<times> ChatHooks \<Rightarrow> PlayerInfo \<Rightarrow> Heap \<times> ChatHooks" where
  "poll_player hook mprotect k st player =
     (case st of (h, c) \<Rightarrow>
        if controllerPtr player = 0 then (h, c)
        else
          (let component = peek_ptr h (controllerPtr player + kControllerChatComponent);
               vtable = peek_ptr h component
           in if component = 0 \<or> \<not> hp_readable h component 8 then (h, c)
              else if vtable = 0 then (h, c)
              else if g_HookedVTables c vtable \<noteq> None then (h, c)
              else case HookVTable mprotect component hook h k of
                (False, previous, h') \<Rightarrow> (h', c)
              | (True, previous, h') \<Rightarrow>
                  if previous = 0 then (h', c)
                  else (h', c\<lparr>g_HookedVTables := (g_HookedVTables c)(vtable \<mapsto> previous)\<rparr>)))"

definition Poll :: "u64 \<Rightarrow> bool \<Rightarrow> Engine \<Rightarrow> Hooks \<Rightarrow> Heap \<times> ChatHooks \<Rightarrow> Heap \<times> ChatHooks" where
  "Poll hook mprotect e k st =
     (case st of (h, c) \<Rightarrow>
        if \<not> e_initialized e \<or> \<not> g_Hooked c then (h, c)
        else if g_ClientEventFunction c = 0 \<and> g_ServerEventFunction c = 0 \<and> g_SystemMessageFunction c = 0 then (h, c)
        else if g_VTableIndex k < 0 then (h, c)
        else foldl (poll_player hook mprotect k) (h, c) (Engine_GetAllPlayers h e))"

datatype chat_notice =
    EventNotice u64
  | SystemNotice string
  | NoNotice

text \<open>\<^verbatim>\<open>HookedChatProcessEvent\<close>: what it takes note of, and the call it forwards.\<close>

definition HookedChatProcessEvent ::
  "Heap \<Rightarrow> Engine \<Rightarrow> u64 \<Rightarrow> u64 \<Rightarrow> u64 \<Rightarrow> ChatHooks \<Rightarrow> chat_notice \<times> game_jump list" where
  "HookedChatProcessEvent h e self fn params c =
     (let previous = (case g_HookedVTables c (peek_ptr h self) of None \<Rightarrow> 0 | Some p \<Rightarrow> p);
          notice =
            (if fn \<noteq> 0 \<and> (fn = g_ClientEventFunction c \<or> fn = g_ServerEventFunction c) then EventNotice params
             else if fn \<noteq> 0 \<and> fn = g_SystemMessageFunction c \<and> hp_readable h params 8
             then SystemNotice (NameToString h e (u32_of (peek_i32 h params)) (u32_of (peek_i32 h (params + 4))))
             else NoNotice)
      in (notice, if previous \<noteq> 0 then [EventCall previous self fn params] else []))"


section \<open>Listeners\<close>

text \<open>A listener is what it does to the state; an exception ends that listener only.\<close>

type_synonym ('m, 's) listener = "'m \<Rightarrow> 's \<Rightarrow> 's"

definition AddListener :: "(Message, 's) listener \<Rightarrow> (Message, 's) listener list \<Rightarrow> (Message, 's) listener list" where
  "AddListener l listeners = listeners @ [l]"

definition AddEventListener :: "(PlayerEvent, 's) listener \<Rightarrow> (PlayerEvent, 's) listener list \<Rightarrow> (PlayerEvent, 's) listener list" where
  "AddEventListener l listeners = listeners @ [l]"

definition Deliver :: "(Message, 's) listener list \<Rightarrow> Message \<Rightarrow> 's \<Rightarrow> 's" where
  "Deliver listeners m s = foldl (\<lambda>s l. l m s) s listeners"

definition DeliverEvent :: "(PlayerEvent, 's) listener list \<Rightarrow> PlayerEvent \<Rightarrow> 's \<Rightarrow> 's" where
  "DeliverEvent listeners e s = foldl (\<lambda>s l. l e s) s listeners"


section \<open>Reading messages and events\<close>

definition read_message :: "Heap \<Rightarrow> Engine \<Rightarrow> Hooks \<Rightarrow> u64 \<Rightarrow> Message option" where
  "read_message h e k frame =
     (let locals = peek_ptr h (frame + g_OffLocals k)
      in if locals = 0 \<or> \<not> hp_readable h locals kMessageSize then None
         else
           (let body = ReadFString h (locals + kMessageBody)
            in if body = [] then None
               else Some \<lparr>msg_senderName = [], msg_senderNetId = fst (ReadUniqueNetId h (locals + kSenderId)),
                 msg_characterGuid = ReadGuid h (locals + kCharacterGuid), msg_playerId = peek_i32 h (locals + kPlayerId),
                 msg_body = body\<rparr>))"

definition read_event :: "Heap \<Rightarrow> Engine \<Rightarrow> u64 \<Rightarrow> PlayerEvent option" where
  "read_event h e params =
     (if \<not> hp_readable h params kEventSize then None
      else
        (let tag = NameToString h e (u32_of (peek_i32 h (params + kEventTag))) (u32_of (peek_i32 h (params + kEventTag + 4)))
         in if tag = [] \<or> tag = ''None'' then None
            else Some \<lparr>ev_senderName = [], ev_senderNetId = fst (ReadUniqueNetId h (params + kSenderId)),
              ev_characterGuid = ReadGuid h (params + kCharacterGuid), ev_playerId = peek_i32 h (params + kPlayerId),
              ev_tag = tag\<rparr>))"


section \<open>Sending a message\<close>

definition put_bytes :: "u64 \<Rightarrow> bytes \<Rightarrow> bytes option \<Rightarrow> bytes option" where
  "put_bytes off bs buf =
     (case buf of
        None \<Rightarrow> None
      | Some b \<Rightarrow> if unat off + length bs \<le> length b then Some (take (unat off) b @ bs @ drop (unat off + length bs) b)
                   else None)"

definition copy_range :: "Heap \<Rightarrow> u64 \<Rightarrow> nat \<Rightarrow> u64 \<Rightarrow> bytes option \<Rightarrow> bytes option" where
  "copy_range h src n off buf = (if hp_readable h src n then put_bytes off (load (hp_byte h) src n) buf else buf)"

text \<open>
  The parameters \<^verbatim>\<open>SendToPlayer\<close> builds; \<open>buffer\<close> is where its \<^verbatim>\<open>WriteFString\<close> put the characters.
  \<^term>\<open>None\<close> is a store outside the array.
\<close>

definition message_params :: "Heap \<Rightarrow> PlayerInfo \<Rightarrow> u64 \<Rightarrow> string \<Rightarrow> bytes option" where
  "message_params h player buffer body =
     (let state = playerStatePtr player;
          count = int (length body) + 1;
          b0 = Some (replicate (kMessageSize + 16) 0);
          b1 = copy_range h (state + PlayerState_UniqueID) (unat NetIdRepl_Size) kSenderId b0;
          b2 = copy_range h (state + DomPlayerState_NetIdSecondary) (unat NetIdRepl_Size) kSecondaryId b1;
          b3 = copy_range h (state + DomPlayerState_CharacterGuid) 16 kCharacterGuid b2;
          b4 = put_bytes kPlayerId (le_bytes 4 (playerId player)) b3;
          b5 = put_bytes kColor (le_bytes 4 0xFFFFFFFF) b4
      in put_bytes (kMessageBody + 12) (le_bytes 4 count)
          (put_bytes (kMessageBody + 8) (le_bytes 4 count) (put_bytes kMessageBody (le_bytes 8 (uint buffer)) b5)))"

text \<open>\<open>params\<close> is the address of the local array.\<close>

definition send_message ::
  "Heap \<Rightarrow> Hooks \<Rightarrow> ChatHooks \<Rightarrow> u64 \<Rightarrow> u64 \<Rightarrow> PlayerInfo \<Rightarrow> string \<Rightarrow> (bool \<times> bytes \<times> game_jump list) option" where
  "send_message h k c params buffer player body =
     (let component = peek_ptr h (controllerPtr player + kControllerChatComponent)
      in if g_ReceiveFunction c = 0 \<or> \<not> HasProcessEvent k then Some (False, [], [])
         else if controllerPtr player = 0 \<or> playerStatePtr player = 0 then Some (False, [], [])
         else if component = 0 \<or> \<not> hp_readable h component 0x150 then Some (False, [], [])
         else map_option (\<lambda>b. (True, b, CallFunction component (g_ReceiveFunction c) params k))
                (message_params h player buffer body))"


section \<open>The watch leaves the game as it was\<close>

text \<open>The slot of a virtual table that the hooks replace.\<close>

definition event_slot :: "Hooks \<Rightarrow> u64 \<Rightarrow> u64" where
  "event_slot k vtable = vtable + word_of_int (g_VTableIndex k) * 8"

lemma HookVTable_cases:
  assumes "HookVTable mprotect ob hook h k = (ok, previous, h')"
  shows "(h' = h \<and> previous = 0) \<or>
    (ok \<and> peek_ptr h ob \<noteq> 0 \<and> hp_image h (peek_ptr h ob) \<and> previous = peek_ptr h (event_slot k (peek_ptr h ob)) \<and>
     previous \<noteq> 0 \<and> previous \<noteq> hook \<and> h' = store_ptr (event_slot k (peek_ptr h ob)) hook h)"
  using assms by (auto simp: HookVTable_def event_slot_def Let_def split: if_splits)

lemma poll_player_cases:
  assumes "poll_player hook mprotect k (h, c) p = (h', c')"
  obtains "h' = h" "c' = c"
  | vtable where "g_HookedVTables c vtable = None" "vtable \<noteq> 0" "hp_image h vtable" "peek_ptr h (event_slot k vtable) \<noteq> 0"
      "peek_ptr h (event_slot k vtable) \<noteq> hook" "h' = store_ptr (event_slot k vtable) hook h"
      "c' = c\<lparr>g_HookedVTables := (g_HookedVTables c)(vtable \<mapsto> peek_ptr h (event_slot k vtable))\<rparr>"
proof -
  define component where "component = peek_ptr h (controllerPtr p + kControllerChatComponent)"
  obtain ok previous h1 where r: "HookVTable mprotect component hook h k = (ok, previous, h1)" using prod_cases3 by blast
  show thesis
  proof (cases "h' = h \<and> c' = c")
    case False
    then have g: "g_HookedVTables c (peek_ptr h component) = None" "peek_ptr h component \<noteq> 0"
      and e: "(h', c') = (if \<not> ok \<or> previous = 0 then (h1, c)
        else (h1, c\<lparr>g_HookedVTables := (g_HookedVTables c)(peek_ptr h component \<mapsto> previous)\<rparr>))"
      using assms r by (auto simp: poll_player_def Let_def component_def split: if_splits bool.splits)
    from HookVTable_cases [OF r] False e show thesis
      using g by (intro that(2) [of "peek_ptr h component"]) (auto split: if_splits)
  qed (use that(1) in blast)
qed

text \<open>What a poll may have done to memory and to the table of hooked virtual tables.\<close>

definition watched_from :: "u64 \<Rightarrow> Hooks \<Rightarrow> Heap \<times> ChatHooks \<Rightarrow> Heap \<times> ChatHooks \<Rightarrow> bool" where
  "watched_from hook k st st' =
     (case (st, st') of ((h, c), (h', c')) \<Rightarrow>
        hp_readable h' = hp_readable h \<and> hp_image h' = hp_image h \<and>
        c'\<lparr>g_HookedVTables := g_HookedVTables c\<rparr> = c \<and> g_HookedVTables c \<subseteq>\<^sub>m g_HookedVTables c' \<and>
        (\<forall>v previous. g_HookedVTables c v = None \<and> g_HookedVTables c' v = Some previous \<longrightarrow>
           v \<noteq> 0 \<and> hp_image h v \<and> previous \<noteq> 0 \<and> previous \<noteq> hook) \<and>
        (\<forall>x. hp_byte h' x \<noteq> hp_byte h x \<longrightarrow>
           (\<exists>v. g_HookedVTables c v = None \<and> g_HookedVTables c' v \<noteq> None \<and> unat (x - event_slot k v) < 8)))"

lemma watched_refl: "watched_from hook k st st"
  by (auto simp: watched_from_def split: prod.split)

lemma watched_step:
  assumes "watched_from hook k st (h, c)"
  shows "watched_from hook k st (poll_player hook mprotect k (h, c) p)"
proof -
  obtain h' c' where s: "poll_player hook mprotect k (h, c) p = (h', c')" by fastforce
  obtain h0 c0 where st: "st = (h0, c0)" by fastforce
  from s show ?thesis
  proof (cases rule: poll_player_cases)
    case 1
    then show ?thesis using assms s by simp
  next
    case (2 vtable)
    have bytes: "hp_byte h' x = (if unat (x - event_slot k vtable) < 8 then le_bytes 8 (uint hook) ! unat (x - event_slot k vtable)
        else hp_byte h x)" for x
      using 2 by (simp add: store_ptr_def poke_def length_le_bytes)
    have keep: "hp_readable h' = hp_readable h" "hp_image h' = hp_image h" using 2 by (simp_all add: store_ptr_def)
    have m: "g_HookedVTables c0 \<subseteq>\<^sub>m g_HookedVTables c" "g_HookedVTables c0 vtable = None"
      using assms st 2(1) by (auto simp: watched_from_def map_le_def) (metis domIff)
    then have "g_HookedVTables c0 \<subseteq>\<^sub>m g_HookedVTables c'" using 2 by (auto simp: map_le_def)
    then show ?thesis
      using assms m(2) 2 keep bytes unfolding s st watched_from_def prod.case
      by (intro conjI allI impI) (auto split: if_splits, metis+)
  qed
qed

definition table_ok :: "u64 \<Rightarrow> ChatHooks \<Rightarrow> bool" where
  "table_ok hook c = (\<forall>v previous. g_HookedVTables c v = Some previous \<longrightarrow> previous \<noteq> 0 \<and> previous \<noteq> hook)"

lemma watched_polls: "watched_from hook k st (h, c) \<Longrightarrow> watched_from hook k st (foldl (poll_player hook mprotect k) (h, c) ps)"
proof (induction ps arbitrary: h c)
  case (Cons p ps)
  obtain h1 c1 where s: "poll_player hook mprotect k (h, c) p = (h1, c1)" by fastforce
  then show ?case using Cons.IH [of h1 c1] watched_step [OF Cons.prems, of mprotect p] by simp
qed simp

lemma table_ok_watched:
  assumes "table_ok hook c" "watched_from hook k (h, c) (h', c')"
  shows "table_ok hook c'"
  unfolding table_ok_def
proof (intro allI impI)
  fix v previous assume v: "g_HookedVTables c' v = Some previous"
  show "previous \<noteq> 0 \<and> previous \<noteq> hook"
  proof (cases "g_HookedVTables c v")
    case (Some q)
    then have "g_HookedVTables c' v = Some q" using assms(2) by (auto simp: watched_from_def map_le_def dom_def)
    then show ?thesis using v Some assms(1) by (auto simp: table_ok_def)
  qed (use v assms(2) in \<open>auto simp: watched_from_def\<close>)
qed


definition watch_heap :: Heap where
  "watch_heap = \<lparr>hp_readable = (\<lambda>a n. 0x400000 \<le> a \<and> a < 0x600000), hp_image = (\<lambda>a. 0x400000 \<le> a \<and> a < 0x500000),
     hp_byte = sparse [(0x501288, [0, 0x20, 0x50]), (0x502000, [0, 0, 0x41]), (0x410028, [0, 0x10, 0x40])]\<rparr>"

lemma watch_pointers: "peek_ptr watch_heap 0x501288 = 0x502000" "peek_ptr watch_heap 0x502000 = 0x410000"
  "peek_ptr watch_heap 0x410028 = 0x401000"
  by (simp_all add: peek_ptr_def le_ptr_def rd_def load_eval load_Suc watch_heap_def sparse_def little_endian_def)

lemma watch_polls:
  "foldl (poll_player 0x900000 True (new_Hooks\<lparr>g_VTableIndex := 5\<rparr>)) (watch_heap, new_ChatHooks) [new_PlayerInfo\<lparr>controllerPtr := 0x500000\<rparr>] =
   (store_ptr 0x410028 0x900000 watch_heap, new_ChatHooks\<lparr>g_HookedVTables := [0x410000 \<mapsto> 0x401000]\<rparr>)"
proof -
  have "hp_readable watch_heap 0x502000 8" "hp_image watch_heap 0x410000" by (simp_all add: watch_heap_def)
  then show ?thesis
    by (simp add: poll_player_def HookVTable_def kControllerChatComponent_def watch_pointers Let_def new_ChatHooks_def)
qed


text \<open>
  Between the two steps of a poll the hook is in place without an entry: a call that comes
  then finds no function to forward to and is lost.
\<close>
lemma hook_gap_drops_event:
  assumes "HookVTable mprotect ob hook h k = (True, previous, h')" "previous \<noteq> 0"
    "g_HookedVTables c (peek_ptr h' ob) = None"
  shows "snd (HookedChatProcessEvent h' e ob fn params c) = [] \<and> previous = peek_ptr h (event_slot k (peek_ptr h ob))"
  using HookVTable_cases [OF assms(1)] assms(2,3) by (auto simp: HookedChatProcessEvent_def)

text \<open>Installing the hook on sent messages: what it replaces, and that it is done once.\<close>

lemma chat_hook_installed:
  assumes "Chat_Initialize thunk e (h, c) = (True, h', c')" "\<not> g_Hooked c"
  shows "g_SendFunction c' = FindFunction h e ''PlayerChatComponent'' ''Server_SendChatMessage'' \<and> g_SendFunction c' \<noteq> 0 \<and>
    g_OriginalSend c' = peek_ptr h (g_SendFunction c' + kExecFunction) \<and> g_OriginalSend c' \<noteq> 0 \<and>
    hp_image h (g_OriginalSend c') \<and> peek_ptr h' (g_SendFunction c' + kExecFunction) = thunk \<and>
    Chat_Initialize thunk e (h', c') = (True, h', c')"
proof -
  let ?slot = "g_SendFunction c' + kExecFunction"
  have r: "h' = store_ptr ?slot thunk h" "g_OriginalSend c' = peek_ptr h ?slot" "peek_ptr h ?slot \<noteq> 0" "hp_image h (peek_ptr h ?slot)"
      "g_SendFunction c' \<noteq> 0" "g_SendFunction c' = FindFunction h e ''PlayerChatComponent'' ''Server_SendChatMessage''" "g_Hooked c'"
    using assms by (auto simp: Chat_Initialize_def find_functions_def Let_def split: if_splits)
  then have "?slot \<noteq> 0" "hp_readable h ?slot 8" by (auto simp: peek_ptr_def rd_def split: if_splits)
  then show ?thesis using r peek_store by (simp add: Chat_Initialize_def)
qed


section \<open>The parameters of a message\<close>

definition slice_at :: "u64 \<Rightarrow> nat \<Rightarrow> bytes \<Rightarrow> bytes" where
  "slice_at off n b = take n (drop (unat off) b)"

lemma put_bytes_fits:
  assumes "length b = N" "unat off + length bs \<le> N"
  shows "\<exists>b'. put_bytes off bs (Some b) = Some b' \<and> length b' = N \<and> slice_at off (length bs) b' = bs \<and>
    (\<forall>off' n. unat off' + n \<le> unat off \<or> unat off + length bs \<le> unat off' \<longrightarrow> slice_at off' n b' = slice_at off' n b)"
proof (intro exI conjI allI impI)
  let ?b' = "take (unat off) b @ bs @ drop (unat off + length bs) b"
  show "put_bytes off bs (Some b) = Some ?b'" "length ?b' = N" "slice_at off (length bs) ?b' = bs"
    using assms by (auto simp: put_bytes_def slice_at_def)
  show "slice_at off' n ?b' = slice_at off' n b" if "unat off' + n \<le> unat off \<or> unat off + length bs \<le> unat off'" for off' n
    using that assms by (auto simp: slice_at_def take_drop min_def)
qed

lemma copy_range_fits:
  assumes "length b = N" "unat off + n \<le> N"
  shows "\<exists>b'. copy_range h src n off (Some b) = Some b' \<and> length b' = N \<and>
    (hp_readable h src n \<longrightarrow> slice_at off n b' = load (hp_byte h) src n) \<and>
    (\<forall>off' m. unat off' + m \<le> unat off \<or> unat off + n \<le> unat off' \<longrightarrow> slice_at off' m b' = slice_at off' m b)"
proof -
  have "length (load (hp_byte h) src n) = n" by (simp add: load_def)
  then show ?thesis using assms put_bytes_fits [OF assms(1), where off = off and bs = "load (hp_byte h) src n"]
    by (auto simp: copy_range_def)
qed

text \<open>
  The parameters always fit their array of \<open>0x98\<close> bytes, and the fields hold what the game
  reads back: the ids copied from the player state, the player's number and the string.
\<close>
lemma message_params_fit:
  obtains b where "message_params h p buffer body = Some b" "length b = 0x98"
    "slice_at kPlayerId 4 b = le_bytes 4 (playerId p)" "slice_at kMessageBody 8 b = le_bytes 8 (uint buffer)"
    "slice_at (kMessageBody + 8) 4 b = le_bytes 4 (int (length body) + 1)"
    "hp_readable h (playerStatePtr p + PlayerState_UniqueID) 0x30 \<Longrightarrow>
       slice_at kSenderId 0x30 b = load (hp_byte h) (playerStatePtr p + PlayerState_UniqueID) 0x30"
    "hp_readable h (playerStatePtr p + DomPlayerState_CharacterGuid) 16 \<Longrightarrow>
       slice_at kCharacterGuid 16 b = load (hp_byte h) (playerStatePtr p + DomPlayerState_CharacterGuid) 16"
proof -
  let ?s = "playerStatePtr p" and ?n = "le_bytes 4 (int (length body) + 1)"
  note d = chat_offsets length_le_bytes NetIdRepl_Size_def
  obtain b1 where 1: "copy_range h (?s + PlayerState_UniqueID) (unat NetIdRepl_Size) kSenderId (Some (replicate (kMessageSize + 16) 0)) = Some b1"
      "length b1 = 0x98" "hp_readable h (?s + PlayerState_UniqueID) 0x30 \<Longrightarrow> slice_at kSenderId 0x30 b1 = load (hp_byte h) (?s + PlayerState_UniqueID) 0x30"
    using copy_range_fits [where b = "replicate (kMessageSize + 16) 0" and N = "0x98" and off = kSenderId and n = "unat NetIdRepl_Size" and h = h and src = "?s + PlayerState_UniqueID"]
    by (auto simp: d)
  obtain b2 where 2: "copy_range h (?s + DomPlayerState_NetIdSecondary) (unat NetIdRepl_Size) kSecondaryId (Some b1) = Some b2" "length b2 = 0x98"
      "slice_at kSenderId 0x30 b2 = slice_at kSenderId 0x30 b1"
    using copy_range_fits [OF 1(2), where off = kSecondaryId and n = "unat NetIdRepl_Size" and h = h and src = "?s + DomPlayerState_NetIdSecondary"] by (auto simp: d)
  obtain b3 where 3: "copy_range h (?s + DomPlayerState_CharacterGuid) 16 kCharacterGuid (Some b2) = Some b3" "length b3 = 0x98"
      "hp_readable h (?s + DomPlayerState_CharacterGuid) 16 \<Longrightarrow> slice_at kCharacterGuid 16 b3 = load (hp_byte h) (?s + DomPlayerState_CharacterGuid) 16"
      "slice_at kSenderId 0x30 b3 = slice_at kSenderId 0x30 b2"
    using copy_range_fits [OF 2(2), where off = kCharacterGuid and n = "16" and h = h and src = "?s + DomPlayerState_CharacterGuid"] by (auto simp: d)
  obtain b4 where 4: "put_bytes kPlayerId (le_bytes 4 (playerId p)) (Some b3) = Some b4" "length b4 = 0x98"
      "slice_at kPlayerId 4 b4 = le_bytes 4 (playerId p)" "slice_at kSenderId 0x30 b4 = slice_at kSenderId 0x30 b3"
      "slice_at kCharacterGuid 16 b4 = slice_at kCharacterGuid 16 b3"
    using put_bytes_fits [OF 3(2), where off = kPlayerId and bs = "le_bytes 4 (playerId p)"] by (auto simp: d)
  obtain b5 where 5: "put_bytes kColor (le_bytes 4 0xFFFFFFFF) (Some b4) = Some b5" "length b5 = 0x98"
      "slice_at kPlayerId 4 b5 = slice_at kPlayerId 4 b4" "slice_at kSenderId 0x30 b5 = slice_at kSenderId 0x30 b4"
      "slice_at kCharacterGuid 16 b5 = slice_at kCharacterGuid 16 b4"
    using put_bytes_fits [OF 4(2), where off = kColor and bs = "le_bytes 4 0xFFFFFFFF"] by (auto simp: d)
  obtain b6 where 6: "put_bytes kMessageBody (le_bytes 8 (uint buffer)) (Some b5) = Some b6" "length b6 = 0x98"
      "slice_at kMessageBody 8 b6 = le_bytes 8 (uint buffer)" "slice_at kPlayerId 4 b6 = slice_at kPlayerId 4 b5"
      "slice_at kSenderId 0x30 b6 = slice_at kSenderId 0x30 b5" "slice_at kCharacterGuid 16 b6 = slice_at kCharacterGuid 16 b5"
    using put_bytes_fits [OF 5(2), where off = kMessageBody and bs = "le_bytes 8 (uint buffer)"] by (auto simp: d)
  obtain b7 where 7: "put_bytes (kMessageBody + 8) ?n (Some b6) = Some b7" "length b7 = 0x98" "slice_at (kMessageBody + 8) 4 b7 = ?n"
      "slice_at kMessageBody 8 b7 = slice_at kMessageBody 8 b6" "slice_at kPlayerId 4 b7 = slice_at kPlayerId 4 b6"
      "slice_at kSenderId 0x30 b7 = slice_at kSenderId 0x30 b6" "slice_at kCharacterGuid 16 b7 = slice_at kCharacterGuid 16 b6"
    using put_bytes_fits [OF 6(2), where off = "kMessageBody + 8" and bs = ?n] by (auto simp: d)
  obtain b8 where 8: "put_bytes (kMessageBody + 12) ?n (Some b7) = Some b8" "length b8 = 0x98"
      "slice_at (kMessageBody + 8) 4 b8 = slice_at (kMessageBody + 8) 4 b7" "slice_at kMessageBody 8 b8 = slice_at kMessageBody 8 b7"
      "slice_at kPlayerId 4 b8 = slice_at kPlayerId 4 b7" "slice_at kSenderId 0x30 b8 = slice_at kSenderId 0x30 b7"
      "slice_at kCharacterGuid 16 b8 = slice_at kCharacterGuid 16 b7"
    using put_bytes_fits [OF 7(2), where off = "kMessageBody + 12" and bs = ?n] by (auto simp: d)
  show thesis
    by (rule that [of b8]) (simp_all add: message_params_def Let_def 1 2 3 4 5 6 7 8)
qed

end
