(* ===== verification/Game_View.thy ===== *)
theory Game_View
  imports Chat_Hooks
begin

text \<open>
  What the handlers see of the game, computed from memory. The other theories take the game as
  a record of the answers its functions give (\<^typ>\<open>Game\<close>); here every field that the program reads
  from memory is defined by the reads it makes, and the native calls of a kick, a gift, a chat
  line and the administrator check (\<^verbatim>\<open>kick.cpp\<close>, \<^verbatim>\<open>items.cpp\<close>, \<^verbatim>\<open>chat.cpp\<close>) are built with the
  frames of theory \<^theory_text>\<open>Hooks\<close>. What the game does with a call, and the clocks, stay parameters. One
  action sees one state of the memory.
\<close>

section \<open>Answers that are the game's\<close>

text \<open>
  \<open>an_params\<close> and \<open>an_text_params\<close> are the addresses of the parameter structs on the stack;
  \<open>an_runs\<close> is whether a job finishes in time.
\<close>

record Answers =
  an_params :: u64
  an_text_params :: u64
  an_runs :: bool
  an_kick :: "u64 \<Rightarrow> string \<Rightarrow> bool"
  an_give :: "u64 \<Rightarrow> u64 \<Rightarrow> int \<Rightarrow> bool"
  an_admin :: "u64 \<Rightarrow> bool"
  an_bans_writable :: bool
  an_time :: nat
  an_clock :: int
  an_runtime :: Runtime

text \<open>The jump an \<^verbatim>\<open>Invoke\<close> makes, if any.\<close>

abbreviation made :: "game_jump list option \<Rightarrow> game_jump list" where
  "made r \<equiv> (case r of None \<Rightarrow> [] | Some js \<Rightarrow> js)"


section \<open>The actions on memory\<close>

definition text_jumps :: "Heap \<Rightarrow> Engine \<Rightarrow> Hooks \<Rightarrow> Answers \<Rightarrow> game_jump list" where
  "text_jumps h e k a =
     (let textFunction = FindFunction h e ''KismetTextLibrary'' ''Conv_StringToText'';
          textLibrary = FindObject h e ''KismetTextLibrary'' True
      in if textFunction \<noteq> 0 \<and> textLibrary \<noteq> 0 \<and> IsNative h textFunction
         then made (Invoke h textLibrary textFunction (an_text_params a) 0x10 k) else [])"

definition kick_jumps :: "Heap \<Rightarrow> Engine \<Rightarrow> Hooks \<Rightarrow> Answers \<Rightarrow> game_jump list" where
  "kick_jumps h e k a =
     made (Invoke h (FindObject h e ''RedpointFrameworkBlueprintLibrary'' True)
       (FindFunction h e ''RedpointFrameworkBlueprintLibrary'' ''KickPlayerController'') (an_params a) 0x18 k)"

text \<open>\<^verbatim>\<open>KickPlayer\<close> from the target on: the error, the call that makes the text, and the kick.\<close>

definition kick_controller ::
  "Heap \<Rightarrow> Engine \<Rightarrow> Hooks \<Rightarrow> Answers \<Rightarrow> u64 \<Rightarrow> string \<Rightarrow> string \<Rightarrow> string option \<times> game_jump list \<times> game_jump list" where
  "kick_controller h e k a controller matched reason =
     (let kickFunction = FindFunction h e ''RedpointFrameworkBlueprintLibrary'' ''KickPlayerController'';
          kickLibrary = FindObject h e ''RedpointFrameworkBlueprintLibrary'' True;
          texts = text_jumps h e k a; kicks = kick_jumps h e k a
      in if kickFunction = 0 then (Some ''KickPlayerController function not found in GObjects'', [], [])
         else if kickLibrary = 0 then (Some ''RedpointFrameworkBlueprintLibrary default object not found'', [], [])
         else if \<not> IsNative h kickFunction then (Some ''KickPlayerController is not a native function'', [], [])
         else if \<not> hk_ready k then (Some (''kick needs the game thread pump: '' @ hk_Status k), [], [])
         else if \<not> an_runs a then (Some ''the game thread did not run the kick within 10s'', [], [])
         else if texts = [] then (Some ''could not build the kick reason text'', [], [])
         else if kicks = [] then (Some ''could not invoke KickPlayerController'', texts, [])
         else if \<not> an_kick a controller reason
              then (Some (''the game refused the kick for '' @ [APOS] @ matched @ [APOS]), texts, kicks)
         else (None, texts, kicks))"

text \<open>\<open>cache\<close> holds \<^verbatim>\<open>g_GiveFunction\<close> and \<^verbatim>\<open>g_GiveLibrary\<close>, which are looked up until found.\<close>

definition resolve_give :: "Heap \<Rightarrow> Engine \<Rightarrow> u64 \<times> u64 \<Rightarrow> u64 \<times> u64" where
  "resolve_give h e cache =
     (if fst cache = 0 then FindFunction h e ''DominionRuntimeBlueprintLibrary'' ''TryGiveItemToPlayer'' else fst cache,
      if snd cache = 0 then FindObject h e ''DominionRuntimeBlueprintLibrary'' True else snd cache)"

definition give_jumps :: "Heap \<Rightarrow> Engine \<Rightarrow> Hooks \<Rightarrow> u64 \<times> u64 \<Rightarrow> Answers \<Rightarrow> game_jump list" where
  "give_jumps h e k cache a =
     (case resolve_give h e cache of (f, l) \<Rightarrow> made (Invoke h l f (an_params a) 0x14 k))"

definition give_controller ::
  "Heap \<Rightarrow> Engine \<Rightarrow> Hooks \<Rightarrow> u64 \<times> u64 \<Rightarrow> Answers \<Rightarrow> u64 \<Rightarrow> u64 \<Rightarrow> int \<Rightarrow> bool \<times> game_jump list" where
  "give_controller h e k cache a controller itemData amount =
     (case resolve_give h e cache of (f, l) \<Rightarrow>
        if \<not> e_initialized e \<or> f = 0 \<or> l = 0 \<or> \<not> IsNative h f \<or> \<not> hk_ready k then (False, [])
        else if controller = 0 \<or> itemData = 0 \<or> amount \<le> 0 then (False, [])
        else if \<not> an_runs a then (False, [])
        else (give_jumps h e k cache a \<noteq> [] \<and> an_give a controller itemData amount, give_jumps h e k cache a))"

definition admin_check :: "Heap \<Rightarrow> Hooks \<Rightarrow> ChatHooks \<Rightarrow> Answers \<Rightarrow> u64 \<Rightarrow> bool \<times> game_jump list" where
  "admin_check h k c a controller =
     (if controller = 0 \<or> g_AdminFunction c = 0 \<or> g_AdminLibrary c = 0 then (False, [])
      else if \<not> IsNative h (g_AdminFunction c) then (False, [])
      else
        (let js = made (Invoke h (g_AdminLibrary c) (g_AdminFunction c) (an_params a) 0x08 k)
         in if js = [] then (False, []) else (an_admin a controller, js)))"


section \<open>The view\<close>

definition game_view :: "Heap \<Rightarrow> Engine \<Rightarrow> Hooks \<Rightarrow> ChatHooks \<Rightarrow> u64 \<times> u64 \<Rightarrow> Answers \<Rightarrow> Game" where
  "game_view h e k c cache a =
     \<lparr>initialized = e_initialized e,
      GetAllPlayers = Engine_GetAllPlayers h e,
      item_objects = read_items h e,
      kick_function = FindFunction h e ''RedpointFrameworkBlueprintLibrary'' ''KickPlayerController'' \<noteq> 0,
      kick_library = FindObject h e ''RedpointFrameworkBlueprintLibrary'' True \<noteq> 0,
      kick_native = IsNative h (FindFunction h e ''RedpointFrameworkBlueprintLibrary'' ''KickPlayerController''),
      pump_ready = hk_ready k,
      pump_status = hk_Status k,
      pump_runs = an_runs a,
      text_ok = text_jumps h e k a \<noteq> [],
      kick_invoked = kick_jumps h e k a \<noteq> [],
      kick_result = an_kick a,
      give_function = (fst (resolve_give h e cache) \<noteq> 0 \<and> snd (resolve_give h e cache) \<noteq> 0),
      give_native = IsNative h (fst (resolve_give h e cache)),
      give_invoked = give_jumps h e k cache a \<noteq> [],
      give_result = an_give a,
      receive_function = g_ReceiveFunction c \<noteq> 0,
      has_process_event = HasProcessEvent k,
      frame_layout_ready = g_LayoutReady k,
      chat_component = (\<lambda>controller.
        let component = peek_ptr h (controller + kControllerChatComponent)
        in component \<noteq> 0 \<and> hp_readable h component 0x150),
      admin_function = g_AdminFunction c \<noteq> 0,
      admin_library = g_AdminLibrary c \<noteq> 0,
      admin_native = IsNative h (g_AdminFunction c),
      admin_answer = (\<lambda>controller.
        if made (Invoke h (g_AdminLibrary c) (g_AdminFunction c) (an_params a) 0x08 k) = [] then None
        else Some (an_admin a controller)),
      bans_writable = an_bans_writable a,
      clock_text = Now (an_time a),
      clock = an_clock a,
      server_info = GetServerInfo h e,
      discovery_info = fst (GetDiscoveryInfo h e),
      runtime = an_runtime a\<rparr>"


section \<open>Guarded memory\<close>

lemma IsNative_agree [guarded]: "agree h h' \<Longrightarrow> IsNative h f = IsNative h' f"
  by (simp add: IsNative_def guarded)

lemma Invoke_agree [guarded]: "agree h h' \<Longrightarrow> Invoke h ctx f params ret k = Invoke h' ctx f params ret k"
  by (simp add: Invoke_def guarded Let_def)

lemma jumps_agree [guarded]:
  assumes "agree h h'"
  shows "text_jumps h e k a = text_jumps h' e k a" "kick_jumps h e k a = kick_jumps h' e k a"
    "resolve_give h e cache = resolve_give h' e cache" "give_jumps h e k cache a = give_jumps h' e k cache a"
proof -
  show r: "resolve_give h e cache = resolve_give h' e cache" using assms by (simp add: resolve_give_def guarded)
  show "text_jumps h e k a = text_jumps h' e k a" "kick_jumps h e k a = kick_jumps h' e k a"
    "give_jumps h e k cache a = give_jumps h' e k cache a"
    using assms by (simp_all add: text_jumps_def kick_jumps_def give_jumps_def r guarded Let_def cong: prod.case_cong)
qed

lemma read_message_agree [guarded]: "agree h h' \<Longrightarrow> read_message h e k frame = read_message h' e k frame"
  by (simp add: read_message_def guarded Let_def)

lemma read_event_agree [guarded]: "agree h h' \<Longrightarrow> read_event h e params = read_event h' e params"
  by (simp add: read_event_def guarded Let_def)

lemma info_agree [guarded]:
  assumes "agree h h'"
  shows "GetServerInfo h e = GetServerInfo h' e" "GetDiscoveryInfo h e = GetDiscoveryInfo h' e"
  using assms by (simp_all add: GetServerInfo_def GetDiscoveryInfo_def guarded Let_def)

text \<open>
  C16: Nothing outside guarded memory reaches a handler. Two memories that accept the same ranges
  and agree on every byte of an accepted range give the same view of the game: the same
  players, items, functions, world and pump, the same calls for a kick, a gift or a check, and
  the same messages and events read by the chat hooks.
\<close>
theorem game_view_guarded:
  assumes "agree h h'"
  shows "game_view h e k c cache a = game_view h' e k c cache a \<and>
    kick_controller h e k a = kick_controller h' e k a \<and>
    give_controller h e k cache a = give_controller h' e k cache a \<and>
    admin_check h k c a = admin_check h' k c a \<and>
    read_message h e k frame = read_message h' e k frame \<and> read_event h e params = read_event h' e params"
proof -
  have p: "Engine_GetAllPlayers h e = Engine_GetAllPlayers h' e" using assms by (rule Engine_GetAllPlayers_agree)
  have "game_view h e k c cache a = game_view h' e k c cache a"
    using assms unfolding game_view_def by (simp add: guarded p)
  moreover have "kick_controller h e k a = kick_controller h' e k a" "give_controller h e k cache a = give_controller h' e k cache a"
    "admin_check h k c a = admin_check h' k c a"
    using assms by (simp_all add: fun_eq_iff kick_controller_def give_controller_def admin_check_def guarded Let_def split: prod.split)
  ultimately show ?thesis using assms by (simp add: guarded)
qed

text \<open>A memory without anything guarded but one page, seen twice.\<close>

theorem game_view_guarded_witness:
  "initialized (game_view (watch_heap\<lparr>hp_byte := (\<lambda>x. if x < 0x10000 then 7 else hp_byte watch_heap x), hp_readable := (\<lambda>a n. 0x400000 \<le> a \<and> a < 0x600000 \<and> n \<le> 64)\<rparr>)
      pump_engine new_Hooks new_ChatHooks (0, 0) undefined) \<and>
   game_view (watch_heap\<lparr>hp_byte := (\<lambda>x. if x < 0x10000 then 7 else hp_byte watch_heap x), hp_readable := (\<lambda>a n. 0x400000 \<le> a \<and> a < 0x600000 \<and> n \<le> 64)\<rparr>)
      pump_engine new_Hooks new_ChatHooks (0, 0) undefined =
   game_view (watch_heap\<lparr>hp_readable := (\<lambda>a n. 0x400000 \<le> a \<and> a < 0x600000 \<and> n \<le> 64)\<rparr>)
      pump_engine new_Hooks new_ChatHooks (0, 0) undefined"
proof -
  have "\<not> a + word_of_nat k < (0x10000 :: u64)" if "0x400000 \<le> a" "a < 0x600000" "k < n" "n \<le> 64" for a k n
  proof -
    have "unat (a + word_of_nat k) = unat a + k"
      using that by (simp add: unat_word_ariths unat_of_nat word_le_nat_alt word_less_nat_alt)
    then show ?thesis using that by (simp add: word_le_nat_alt word_less_nat_alt)
  qed
  then have "agree (watch_heap\<lparr>hp_byte := (\<lambda>x. if x < 0x10000 then 7 else hp_byte watch_heap x), hp_readable := (\<lambda>a n. 0x400000 \<le> a \<and> a < 0x600000 \<and> n \<le> 64)\<rparr>)
      (watch_heap\<lparr>hp_readable := (\<lambda>a n. 0x400000 \<le> a \<and> a < 0x600000 \<and> n \<le> 64)\<rparr>)"
    by (auto simp: agree_def)
  from game_view_guarded [OF this] show ?thesis by (simp add: game_view_def pump_engine_def)
qed


section \<open>The abstract actions are those on memory\<close>

lemma admin_refines: "game w = game_view h e k c cache a \<Longrightarrow> IsAdmin controller (game w) = fst (admin_check h k c a controller)"
  by (simp add: IsAdmin_def admin_check_def game_view_def Let_def)

lemma give_refines:
  assumes "game w = game_view h e k c cache a"
  shows "GiveItemToController controller itemData amount w =
    (case give_controller h e k cache a controller itemData amount of
       (ok, js) \<Rightarrow> (ok, if js = [] then w else call (Give controller itemData amount) w))"
  using assms by (cases "resolve_give h e cache")
    (simp add: GiveItemToController_def ResolveGive_def give_controller_def game_view_def Let_def)

text \<open>\<^verbatim>\<open>KickPlayer\<close> on memory: the error, the player and reason of the kick made, and the call.\<close>

definition kick_on_memory ::
  "Heap \<Rightarrow> Engine \<Rightarrow> Hooks \<Rightarrow> Answers \<Rightarrow> string \<Rightarrow> string \<Rightarrow> string option \<times> target \<times> game_jump list" where
  "kick_on_memory h e k a identifier reason =
     (if \<not> e_initialized e then (Some ''engine not initialised'', (0, [], []), [])
      else case find_target identifier (Engine_GetAllPlayers h e) of
        Inl err \<Rightarrow> (Some err, (0, [], []), [])
      | Inr (controller, matched, netId) \<Rightarrow>
          (case kick_controller h e k a controller matched reason of
             (err, texts, kicks) \<Rightarrow> (err, (controller, matched, netId), kicks)))"

lemma kick_refines:
  assumes "game w = game_view h e k c cache a"
  shows "KickPlayer identifier reason w =
    (case kick_on_memory h e k a identifier reason of
       (err, (controller, matched, netId), kicks) \<Rightarrow>
         (err, (if err = None then RememberKick netId matched reason else id)
                 (if kicks = [] then w else call (Kick controller reason) w)))"
  using assms by (simp add: KickPlayer_def kick_on_memory_def kick_controller_def game_view_def Let_def split: sum.split)

lemma send_refines:
  assumes "game w = game_view h e k c cache a"
  shows "\<exists>b. send_message h k c params buffer p body =
      Some (fst (SendToPlayer p body w), b,
        if fst (SendToPlayer p body w)
        then [EventCall (g_Original k) (peek_ptr h (controllerPtr p + kControllerChatComponent)) (g_ReceiveFunction c) params]
        else []) \<and>
    snd (SendToPlayer p body w) = (if fst (SendToPlayer p body w) then call (Say (controllerPtr p) body) w else w)"
proof -
  obtain b where "message_params h p buffer body = Some b" by (rule message_params_fit [of h p buffer body])
  moreover have "receive_function (game w) = (g_ReceiveFunction c \<noteq> 0)" "has_process_event (game w) = HasProcessEvent k"
    "chat_component (game w) (controllerPtr p) = (peek_ptr h (controllerPtr p + kControllerChatComponent) \<noteq> 0 \<and>
       hp_readable h (peek_ptr h (controllerPtr p + kControllerChatComponent)) 0x150)"
    unfolding assms game_view_def Let_def Game.simps by (rule refl)+
  ultimately show ?thesis by (simp add: SendToPlayer_def send_message_def CallFunction_def HasProcessEvent_def Let_def)
qed



end
