(* ===== verification/Boot.thy ===== *)
theory Boot
  imports Lifecycle Game_View
begin

text \<open>
  The thread that brings the module up, on memory (\<^verbatim>\<open>InitThread\<close> of \<^verbatim>\<open>src/src/rsdwapi.cpp\<close> from
  the moment the engine is found): the way onto the game thread, the chat hook, Discord and the
  bans, and one pass of the watch loop. Theory \<^theory_text>\<open>Lifecycle\<close> treats the same steps on the
  abstract game.
\<close>

section \<open>The whole state\<close>

text \<open>
  \<open>en_hook\<close>, \<open>en_pump\<close>, \<open>en_thunk\<close>, \<open>en_chat\<close> are the addresses of the module's own functions
  (\<^verbatim>\<open>HookedProcessEvent\<close>, \<^verbatim>\<open>PumpThunk\<close>, \<^verbatim>\<open>SendThunk\<close>, \<^verbatim>\<open>HookedChatProcessEvent\<close>); \<open>en_found\<close> what
  \<^verbatim>\<open>FindBySymbol\<close> returns, \<open>en_mprotect\<close> whether pages can be made writable.
\<close>

record Env =
  en_hook :: u64
  en_pump :: u64
  en_thunk :: u64
  en_chat :: u64
  en_mprotect :: bool
  en_found :: "u64 \<times> string"

record System =
  sy_heap :: Heap
  sy_engine :: Engine
  sy_hooks :: Hooks
  sy_chat :: ChatHooks
  sy_give :: "u64 \<times> u64"
  sy_discord :: Discord
  sy_world :: World

text \<open>The world as the handlers see it now.\<close>

definition seen_world :: "Answers \<Rightarrow> System \<Rightarrow> World" where
  "seen_world a s = (sy_world s)\<lparr>game := game_view (sy_heap s) (sy_engine s) (sy_hooks s) (sy_chat s) (sy_give s) a\<rparr>"

definition start_pump :: "Env \<Rightarrow> System \<Rightarrow> bool \<times> System" where
  "start_pump env s =
     (let (info, e) = GetDiscoveryInfo (sy_heap s) (sy_engine s);
          (ok, h, k) = GameThread_Initialize (en_hook env) (en_mprotect env) (en_found env) e (moduleBase info) (moduleEnd info)
                         (sy_heap s, sy_hooks s);
          (ok', h', k') = (if ok then (ok, h, k) else InstallExecPump (en_pump env) e (h, k))
      in (ok', s\<lparr>sy_heap := h', sy_engine := e, sy_hooks := k'\<rparr>))"

definition engine_started :: "Env \<Rightarrow> APIConfig \<Rightarrow> System \<Rightarrow> bool \<times> System" where
  "engine_started env cfg s =
     (if \<not> e_initialized (sy_engine s) then (False, s)
      else
        (let (ok, s1) = start_pump env s
         in if \<not> ok then (False, s1)
            else
              (let (hooked, h, c) = Chat_Initialize (en_thunk env) (sy_engine s1) (sy_heap s1, sy_chat s1)
               in (True, s1\<lparr>sy_heap := h, sy_chat := c, sy_discord := start_discord (discord cfg) (sy_discord s1),
                            sy_world := Bans_Load (sy_world s1)\<rparr>))))"

text \<open>One pass of the watch loop on memory.\<close>

record SystemWatch =
  sw_system :: System
  sw_wasDead :: "string \<rightharpoonup> bool"
  sw_deathPosted :: "string \<rightharpoonup> int"

definition system_tick :: "Env \<Rightarrow> Answers \<Rightarrow> int \<Rightarrow> SystemWatch \<Rightarrow> SystemWatch" where
  "system_tick env a now t =
     (let s = sw_system t;
          w = Enforce (EnforceKicks (seen_world a s));
          (h, c) = Poll (en_chat env) (en_mprotect env) (sy_engine s) (sy_hooks s) (sy_heap s, sy_chat s);
          (nowDead, posted, d) = watch_deaths now (sw_wasDead t) (Engine_GetAllPlayers h (sy_engine s)) Map.empty
                                   (sw_deathPosted t, sy_discord s)
      in \<lparr>sw_system = s\<lparr>sy_heap := h, sy_chat := c, sy_discord := d, sy_world := w\<rparr>,
          sw_wasDead = nowDead, sw_deathPosted = posted\<rparr>)"

section \<open>Bringing the module up\<close>

lemma install_slot_result:
  "install_slot hook mprotect vtable (h, k) = (ok, h', k') \<Longrightarrow> hk_ready k' = (hk_ready k \<or> ok) \<and> (\<not> ok \<longrightarrow> h' = h)"
  by (auto simp: install_slot_def Let_def split: if_splits)

lemma GameThread_Initialize_result:
  "GameThread_Initialize hook mprotect found e lo hi (h, k) = (ok, h', k') \<Longrightarrow>
   hk_ready k' = ok \<and> (\<not> ok \<longrightarrow> h' = h)"
  by (auto simp: GameThread_Initialize_def Let_def split: if_splits prod.splits dest!: install_slot_result)

lemma InstallExecPump_result:
  "InstallExecPump pump e (h, k) = (ok, h', k') \<Longrightarrow> hk_ready k' = ok \<and> (\<not> ok \<longrightarrow> h' = h)"
  by (auto simp: InstallExecPump_def split: if_splits option.splits)

lemma start_pump_result:
  "start_pump env s = (ok, s') \<Longrightarrow> hk_ready (sy_hooks s') = ok \<and> (\<not> ok \<longrightarrow> sy_heap s' = sy_heap s) \<and>
     sy_chat s' = sy_chat s \<and> sy_discord s' = sy_discord s \<and> sy_world s' = sy_world s"
  by (auto simp: start_pump_def Let_def split: prod.splits if_splits
      dest!: GameThread_Initialize_result InstallExecPump_result)

text \<open>
  Coming up is all or nothing. Whether a way onto the game thread is found decides exactly
  what \<^verbatim>\<open>InitThread\<close> does next, on memory as on the abstract game: with one, jobs are accepted,
  Discord is started and the bans are loaded; without one, not a byte of the game's memory has
  changed, no chat hook is set and neither the bans nor Discord have been touched.
\<close>
lemma engine_started_refines:
  "case engine_started env cfg s of
     (ok, s') \<Rightarrow> (sy_discord s', sy_world s') = engine_ready ok cfg (sy_discord s, sy_world s) \<and>
       (if ok then hk_ready (sy_hooks s') \<and> e_initialized (sy_engine s)
        else sy_heap s' = sy_heap s \<and> sy_chat s' = sy_chat s)"
proof (cases "e_initialized (sy_engine s)")
  case True
  obtain ok s1 where s1: "start_pump env s = (ok, s1)" by fastforce
  show ?thesis using start_pump_result [OF s1] True
    by (simp add: engine_started_def s1 engine_ready_def split: prod.split)
qed (simp add: engine_started_def engine_ready_def)

text \<open>
  With \<^verbatim>\<open>ProcessEvent\<close> found by symbol the pump function is never installed, so no frame layout is
  ever learned: every native call is refused for good, kicks, gifts and the check for
  administrators included.
\<close>
definition symbol_mode :: "Hooks \<Rightarrow> bool" where
  "symbol_mode k = (hk_ready k \<and> g_PumpFunction k = 0 \<and> \<not> g_LayoutReady k)"

lemma Drain_ready: "g_Ready (Drain q) = g_Ready q"
proof (induction q rule: Drain.induct)
  case (1 q)
  then show ?case
    by (subst Drain.simps) (auto simp: Drain_run_def Drain_pop_def split: list.splits)
qed

lemma symbol_mode_starts:
  assumes "GameThread_Initialize hook mprotect found e lo hi (h, new_Hooks) = (True, h', k')"
  shows "symbol_mode k'"
  using assms
  by (auto simp: GameThread_Initialize_def install_slot_def Let_def symbol_mode_def new_Hooks_def new_JobQueue_def
      split: if_splits prod.splits)

lemma DeriveProcessEvent_keeps [simp]:
  "hk_ready (DeriveProcessEvent h e st k) = hk_ready k" "g_PumpFunction (DeriveProcessEvent h e st k) = g_PumpFunction k"
  "g_LayoutReady (DeriveProcessEvent h e st k) = g_LayoutReady k"
  by (simp_all add: DeriveProcessEvent_def Let_def split: option.split prod.split)

lemma LearnFrameLayout_no_pump [simp]: "g_PumpFunction k = 0 \<Longrightarrow> LearnFrameLayout h f c k = k"
  by (simp add: LearnFrameLayout_def)

lemma symbol_mode_stays:
  assumes "symbol_mode k"
  shows "symbol_mode (fst (HookedProcessEvent self fn params k))" "symbol_mode (fst (PumpThunk h e stack thread ctx frame result k))"
    "InstallExecPump pump e (h, k) = (True, h, k)" "GameThread_Initialize hook mprotect found e lo hi (h, k) = (True, h, k)"
    "RemoveExecPump (h, k) = (h, k)"
  using assms
  by (simp_all add: symbol_mode_def HookedProcessEvent_def PumpThunk_def drain_if_work_def Drain_ready
      InstallExecPump_def GameThread_Initialize_def RemoveExecPump_def Let_def)

lemma symbol_mode_refuses:
  assumes "symbol_mode k"
  shows "Invoke h ctx fn params ret k = Some []" "kick_jumps h e k a = []" "fst (admin_check h k c a controller) = False"
  using assms by (auto simp: symbol_mode_def Invoke_def kick_jumps_def admin_check_def Let_def)

end
