(* ===== verification/Startup.thy ===== *)
theory Startup
  imports Boot
begin

text \<open>
  The whole of \<^verbatim>\<open>InitThread\<close> (\<^verbatim>\<open>src/src/rsdwapi.cpp\<close>) up to its watch loop: the settings, the
  listeners, the wait for the engine with the real attempts of \<^verbatim>\<open>Initialize\<close>, and the way onto
  the game thread of theory \<^theory_text>\<open>Boot\<close>. The log file is treated in theory \<^theory_text>\<open>Logger\<close>.
\<close>

text \<open>
  \<open>bi_file\<close> is \<^verbatim>\<open>settings.ini\<close>, \<open>bi_bytes\<close> and \<open>bi_bytes'\<close> what \<^verbatim>\<open>/dev/urandom\<close> delivers for the
  two secrets; \<open>bi_attempts\<close> has the memory and the loaded objects at each attempt to find the
  engine, its end being the shutdown; \<open>bi_stopped\<close> is the shutdown flag after a successful one.
\<close>

record Boot_Input =
  bi_file :: "string option"
  bi_bytes :: "string option"
  bi_bytes' :: "string option"
  bi_now :: int
  bi_rest :: Net
  bi_rcon :: Net
  bi_attempts :: "(Heap \<times> dl_info list) list"
  bi_stopped :: bool

fun engine_loop :: "nat \<Rightarrow> (Heap \<times> dl_info list) list \<Rightarrow> Engine \<Rightarrow> nat list \<times> (Heap \<times> Engine) option" where
  "engine_loop attempt [] e = ([], None)"
| "engine_loop attempt ((h, infos) # ms) e =
     (let (ok, e') = Engine_Initialize h infos e
      in if ok then ([], Some (h, e'))
         else let (ws, r) = engine_loop (attempt + 1) ms e' in (waitSeconds attempt # ws, r))"

definition system_of :: "Heap \<times> Engine \<Rightarrow> Process \<Rightarrow> System" where
  "system_of m p = \<lparr>sy_heap = fst m, sy_engine = snd m, sy_hooks = new_Hooks, sy_chat = new_ChatHooks, sy_give = (0, 0),
     sy_discord = p_discord p, sy_world = p_world p\<rparr>"

text \<open>The process, the settings file afterwards, and what came of the engine, if it was found.\<close>

definition InitThread :: "Env \<Rightarrow> Boot_Input \<Rightarrow> World \<Rightarrow> Process \<times> string \<times> (bool \<times> System) option" where
  "InitThread env b w =
     (let (c, saved) = boot_config (bi_file b) (bi_bytes b) (bi_bytes' b);
          p = StartListeners (bi_rest b) (bi_rcon b) (new_Process c (set_runtime (MarkStart (bi_now b)) w))
      in if \<not> rest_enabled (rest c) \<and> \<not> rcon_enabled (rcon c) then (p, saved, None)
         else case snd (engine_loop 1 (bi_attempts b) new_Engine) of
             None \<Rightarrow> (p, saved, None)
           | Some m \<Rightarrow>
               if bi_stopped b then (p, saved, None)
               else (let (ok, s) = engine_started env c (system_of m p)
                     in (p\<lparr>p_discord := sy_discord s, p_world := sy_world s\<rparr>, saved, Some (ok, s))))"

text \<open>The library's destructor; the watch loop and the listeners see the flags.\<close>

definition RSDWApiUnload :: "Process \<Rightarrow> Process" where
  "RSDWApiUnload p = p\<lparr>p_shutdown := True, p_world := set_runtime BeginShutdown (p_world p)\<rparr>"

text \<open>The loop is the one whose waits theory \<^theory_text>\<open>Lifecycle\<close> counts, on the attempts' outcomes.\<close>

fun outcomes :: "(Heap \<times> dl_info list) list \<Rightarrow> Engine \<Rightarrow> bool list" where
  "outcomes [] e = []"
| "outcomes ((h, infos) # ms) e = (let (ok, e') = Engine_Initialize h infos e in ok # outcomes ms e')"

lemma engine_loop_waits:
  "wait_engine n (outcomes ms e) = (fst (engine_loop n ms e), snd (engine_loop n ms e) \<noteq> None)"
  by (induction ms arbitrary: n e) (auto simp: Let_def split: prod.splits)

lemma engine_loop_found:
  "snd (engine_loop n ms e) = Some (h, e') \<Longrightarrow> \<exists>infos e0. (h, infos) \<in> set ms \<and> Engine_Initialize h infos e0 = (True, e')"
proof (induction ms arbitrary: n e)
  case (Cons m ms)
  obtain h1 i1 where m: "m = (h1, i1)" by fastforce
  obtain ok e1 where i: "Engine_Initialize h1 i1 e = (ok, e1)" by fastforce
  show ?case
  proof (cases ok)
    case True
    then show ?thesis using Cons.prems i by (auto simp: m)
  next
    case False
    then have "snd (engine_loop (n + 1) ms e1) = Some (h, e')" using Cons.prems i by (simp add: m split_beta)
    from Cons.IH [OF this] show ?thesis by auto
  qed
qed simp

lemma Engine_Initialize_valid:
  assumes "Engine_Initialize h infos e = (True, e')"
  shows "e_initialized e' \<and> ValidateNamePool h (e_gNames e') \<and> ValidateObjectArray h (e_gObjects e')"
proof -
  obtain e1 e2 e3 where r: "ResolveNamePool h infos e1 = (True, e2)" "ResolveObjectArray h infos e2 = (True, e3)"
    "e' = e3\<lparr>e_initialized := True\<rparr>"
    using Engine_Initialize_steps [OF assms] by metis
  have "e_gNames e3 = e_gNames e2"
    using ResolveObjectArray_ok [OF r(2)] by (metis (no_types, lifting) Engine.ext_inject Engine.surjective Engine.update_convs)
  then show ?thesis using ResolveNamePool_ok [OF r(1)] ResolveObjectArray_ok [OF r(2)] r(3) by simp
qed

lemma engine_started_engine:
  "engine_started env c s = (ok, s') \<Longrightarrow> e_gNames (sy_engine s') = e_gNames (sy_engine s) \<and>
     e_gObjects (sy_engine s') = e_gObjects (sy_engine s) \<and> e_initialized (sy_engine s') = e_initialized (sy_engine s)"
  by (auto simp: engine_started_def start_pump_def GetDiscoveryInfo_def Let_def split: prod.splits if_splits)

lemma engine_started_result:
  "engine_started env c s = (ok, s') \<Longrightarrow> (sy_discord s', sy_world s') = engine_ready ok c (sy_discord s, sy_world s) \<and>
    (if ok then hk_ready (sy_hooks s') else sy_heap s' = sy_heap s \<and> sy_chat s' = sy_chat s)"
  using engine_started_refines [where env = env and cfg = c and s = s] by (auto split: if_splits)


text \<open>
  A first start on which \<^verbatim>\<open>/dev/urandom\<close> cannot be read leaves the console without a password, so
  that it does not start; the REST interface, enabled by default, starts without a token, and
  then a request needs none.
\<close>
lemma first_start_open:
  assumes "boot_config None None None = (c, out)"
  shows "rest_enabled (rest c)" "rest_bearerToken (rest c) = []" "rcon_password (rcon c) = []"
    "req_method req \<noteq> ''OPTIONS'' \<Longrightarrow> answer (rest_bearerToken (rest c)) rs req v = dispatch rs req v"
  using assms by (auto simp: boot_config_def Load_def GenerateSecrets_def GenerateSecureToken_def Let_def
      default_config_def default_rest_def answer_def)

end
