(* ===== verification/Program.thy ===== *)
theory Program
  imports Lifecycle
begin

text \<open>
  The running program as a sequence of events: requests that reached a route, console lines that
  reached a command, chat messages on the game thread, passes of the watch loop
  (\<^verbatim>\<open>src/src/rsdwapi.cpp\<close>), and turns of the game in between, which may change everything the game
  answers. Events come in any order and number; one is handled as a whole. What
  survives every sequence is proved over the relation \<open>evolves\<close>, which each operation that the code
  runs under a list's lock satisfies on its own and which composes.
\<close>

section \<open>Events\<close>

datatype Event =
    Request HttpRequest
  | Console string
  | ChatLine "Message option"
  | WatchPass
  | GameTurn Game

text \<open>One event, handled; the watch loop's part that changes the lists.\<close>

fun perform :: "Event \<Rightarrow> World \<Rightarrow> World" where
  "perform (Request req) w = snd (dispatch (routes (ApiRoutes_RegisterAll new_HttpServer)) req w)"
| "perform (Console line) w = snd (Dispatch RegisterAll line w)"
| "perform (ChatLine locals) w = snd (snd (SendThunk locals w))"
| "perform WatchPass w = Enforce (EnforceKicks w)"
| "perform (GameTurn g) w = w\<lparr>game := g\<rparr>"

text \<open>The events that are an administrator's request to lift a ban.\<close>

fun lifts_ban :: "Event \<Rightarrow> bool" where
  "lifts_ban (Request req) = (req_method req = ''POST'' \<and> req_path req = ''/api/unban'')"
| "lifts_ban (Console line) = (tokens line \<noteq> [] \<and> Lower (hd (tokens line)) = ''unban'')"
| "lifts_ban (ChatLine (Some m)) = (tokens (msg_body m) \<noteq> [] \<and> Lower (hd (tokens (msg_body m))) = ''/unban'')"
| "lifts_ban _ = False"

text \<open>\<^verbatim>\<open>bans.json\<close> can be written after the event.\<close>

fun stays_writable :: "Event \<Rightarrow> bool" where
  "stays_writable (GameTurn g) = bans_writable g"
| "stays_writable _ = True"


section \<open>How the lists evolve\<close>

definition kicks_ok :: "World \<Rightarrow> bool" where
  "kicks_ok w = (distinct (map kp_netId (g_Kicked w)) \<and> [] \<notin> set (map kp_netId (g_Kicked w)))"

definition banned_ids :: "World \<Rightarrow> string set" where
  "banned_ids w = set (map ban_netId (g_Bans w))"

definition kicked_ids :: "World \<Rightarrow> string set" where
  "kicked_ids w = set (map kp_netId (g_Kicked w))"

definition recorded :: "World \<Rightarrow> World \<Rightarrow> bool" where
  "recorded w w' = (g_Bans w' = g_Bans w \<and> bans_file w' = bans_file w \<or> bans_file w' = Some (bans_text (g_Bans w')))"

text \<open>\<open>lift\<close> allows bans to be lifted.\<close>

definition evolves :: "bool \<Rightarrow> World \<Rightarrow> World \<Rightarrow> bool" where
  "evolves lift w w' =
     (game w' = game w \<and> (bans_ok w \<longrightarrow> bans_ok w') \<and> (kicks_ok w \<longrightarrow> kicks_ok w') \<and>
      kicked_ids w \<subseteq> kicked_ids w' \<and> (lift \<or> banned_ids w \<subseteq> banned_ids w') \<and>
      (bans_writable (game w) \<longrightarrow> recorded w w'))"

named_theorems evolution

lemma evolves_refl [evolution, simp]: "evolves lift w w"
  by (simp add: evolves_def recorded_def)

lemma recorded_trans: "recorded w w' \<Longrightarrow> recorded w' w'' \<Longrightarrow> recorded w w''"
  by (auto simp: recorded_def)

lemma evolves_trans: "evolves lift w w' \<Longrightarrow> evolves lift w' w'' \<Longrightarrow> evolves lift w w''"
  by (auto simp: evolves_def intro: recorded_trans)

lemma evolves_lift: "evolves False w w' \<Longrightarrow> evolves lift w w'"
  by (simp add: evolves_def)

lemma evolves_game: "evolves lift w w' \<Longrightarrow> game w' = game w"
  by (simp add: evolves_def)

lemmas list_simps = bans_ok_def kicks_ok_def banned_ids_def kicked_ids_def recorded_def

lemma evolves_call [evolution]: "evolves lift w w' \<Longrightarrow> evolves lift w (call c w')"
  by (simp add: evolves_def list_simps)

lemma evolves_RememberKick [evolution]:
  assumes w: "evolves lift w w'"
  shows "evolves lift w (RememberKick i n r w')"
proof -
  have "evolves lift w' (RememberKick i n r w')"
  proof (cases "i = [] \<or> list_ex (\<lambda>e. kp_netId e = i) (g_Kicked w')")
    case True
    then show ?thesis by (auto simp: RememberKick_def)
  next
    case False
    then have "i \<noteq> []" "i \<notin> set (map kp_netId (g_Kicked w'))" by (auto simp: list_ex_iff)
    then show ?thesis using False by (simp add: RememberKick_def evolves_def list_simps subset_insertI)
  qed
  then show ?thesis by (rule evolves_trans [OF w])
qed

lemma evolves_KickPlayer [evolution]: "evolves lift w w' \<Longrightarrow> evolves lift w (snd (KickPlayer i r w'))"
  by (rule KickPlayer_ind) (simp_all add: evolution)

lemma evolves_SendToPlayer [evolution]: "evolves lift w w' \<Longrightarrow> evolves lift w (say p line w')"
  by (simp add: SendToPlayer_def Let_def evolution)

lemma evolves_send_each [evolution]: "evolves lift w w' \<Longrightarrow> evolves lift w (snd (send_each ps body n w'))"
proof (induction ps body n w' rule: send_each.induct)
  case (2 p ps body n w')
  then show ?case using evolves_SendToPlayer [OF "2.prems", of p body]
    by (cases "SendToPlayer p body w'") auto
qed simp

lemma evolves_Broadcast [evolution]: "evolves lift w w' \<Longrightarrow> evolves lift w (snd (Broadcast body w'))"
  by (auto simp: Broadcast_def Let_def split_beta intro: evolves_send_each)

lemma evolves_GiveItem [evolution]: "evolves lift w w' \<Longrightarrow> evolves lift w (snd (snd (GiveItem player item n w')))"
  by (auto simp: GiveItem_def GiveItemToController_def Let_def evolution split: option.splits)

lemma evolves_Ban [evolution]:
  assumes "evolves lift w w'"
  shows "evolves lift w (snd (snd (Ban now player reason w')))"
proof -
  obtain ok msg w2 where b: "Ban now player reason w' = (ok, msg, w2)" by (cases "Ban now player reason w'")
  have "w2 = w' \<or> (\<exists>i n. i \<noteq> [] \<and> add_ban now i n reason w' = (ok, msg, w2))" using Ban_cases [OF b] by blast
  moreover have "evolves False w' w2" if i: "i \<noteq> []" and a: "add_ban now i n reason w' = (ok, msg, w2)" for i n
  proof (cases ok)
    case True
    let ?w1 = "SaveLocked (w'\<lparr>g_Bans := g_Bans w' @ [ban_entry now i n reason]\<rparr>)"
    have "w2 = snd (KickPlayer i reason ?w1)"
      using a True by (auto simp: add_ban_def Let_def ban_entry_def split: if_splits prod.splits)
    moreover have "i \<notin> set (map ban_netId (g_Bans w'))" using add_ban_cases(1) [OF a] True by simp
    then have "evolves False w' ?w1" using i by (auto simp: evolves_def list_simps SaveLocked_def ban_entry_def)
    ultimately show ?thesis by (simp add: evolution)
  qed (use add_ban_cases(2) [OF a] in simp)
  ultimately show ?thesis using assms b evolves_trans evolves_lift by (metis snd_conv)
qed

lemma evolves_Unban [evolution]: "evolves True w w' \<Longrightarrow> evolves True w (snd (snd (Unban i w')))"
proof (rule evolves_trans)
  obtain ok msg w2 where u: "Unban i w' = (ok, msg, w2)" by (cases "Unban i w'")
  show "evolves True w' (snd (snd (Unban i w')))"
    using Unban_cases [OF u] by (auto simp: u evolves_def list_simps)
qed

lemma evolves_foldl: "(\<And>w x. evolves lift w (f w x)) \<Longrightarrow> evolves lift w (foldl f w xs)"
  by (induction xs arbitrary: w) (auto intro: evolves_trans)

lemma evolves_watch: "evolves lift w (Enforce (EnforceKicks w))"
proof -
  have "evolves lift v (EnforceKicks v)" "evolves lift v (Enforce v)" for v
    by (auto simp: EnforceKicks_def Enforce_def enforce_kick_def enforce_ban_def evolution
        intro!: evolves_foldl split: option.splits)
  then show ?thesis using evolves_trans by blast
qed


section \<open>The handlers\<close>

lemma evolves_post:
  "evolves lift w (snd (post_kick req w))" "evolves lift w (snd (post_broadcast req w))"
  "evolves lift w (snd (post_give req w))" "evolves lift w (snd (post_ban req w))" "evolves True w (snd (post_unban req w))"
  using evolves_KickPlayer [OF evolves_refl] evolves_Broadcast [OF evolves_refl] evolves_GiveItem [OF evolves_refl]
    evolves_Ban [OF evolves_refl] evolves_Unban [OF evolves_refl]
  by (force simp: post_kick_def post_broadcast_def post_give_def post_ban_def post_unban_def Let_def split_beta
      split: option.splits prod.splits)+

lemma evolves_request: "evolves (lifts_ban (Request req)) w (perform (Request req) w)"
proof -
  let ?rs = "routes (ApiRoutes_RegisterAll new_HttpServer)"
  show ?thesis
  proof (cases "find_route ?rs req")
    case None
    then show ?thesis by (simp add: dispatch_def)
  next
    case (Some r)
    then have r: "r \<in> set ?rs" "route_method r = req_method req" "route_path r = req_path req"
      by (auto simp: find_route_def find_Some_iff)
    have "perform (Request req) w = snd (route_handler r req w)"
      using Some by (simp add: dispatch_def split: prod.split option.split)
    then show ?thesis using r evolves_post by (auto simp: api_routes new_HttpServer_def)
  qed
qed

lemma evolves_commands:
  "evolves lift w (snd (cmd_kick args w))" "evolves lift w (snd (cmd_broadcast args w))"
  "evolves lift w (snd (cmd_give args w))" "evolves lift w (snd (cmd_ban args w))" "evolves True w (snd (cmd_unban args w))"
  using evolves_KickPlayer [OF evolves_refl] evolves_Broadcast [OF evolves_refl] evolves_GiveItem [OF evolves_refl]
    evolves_Ban [OF evolves_refl] evolves_Unban [OF evolves_refl]
  by (force simp: cmd_kick_def cmd_broadcast_def cmd_give_def cmd_ban_def cmd_unban_def Let_def split_beta
      split: option.splits prod.splits)+

lemma evolves_registry:
  assumes "c \<in> set RegisterAll"
  shows "evolves (cmd_name c = ''unban'') w (snd (cmd_handler c all args w))"
proof -
  have "list_all (\<lambda>c. cmd_name c \<in> set readonly_names \<or> evolves (cmd_name c = ''unban'') w (snd (cmd_handler c all args w))) RegisterAll"
    by (simp add: RegisterAll_def RegisterPlayerCommands_def RegisterSystemCommands_def readonly_names_def snd_plain
        evolves_commands)
  then show ?thesis using assms readonly_handler [OF assms] by (auto simp: list_all_iff)
qed

lemma evolves_console: "evolves (lifts_ban (Console line)) w (perform (Console line) w)"
proof (cases "\<exists>name args c. tokens line = name # args \<and> find (\<lambda>c. Lower (cmd_name c) = Lower name) RegisterAll = Some c")
  case False
  then have "snd (Dispatch RegisterAll line w) = w"
    by (cases "tokens line") (auto simp: Dispatch_def split: option.split)
  then show ?thesis by simp
next
  case True
  then obtain name args c where t: "tokens line = name # args"
    and c: "find (\<lambda>c. Lower (cmd_name c) = Lower name) RegisterAll = Some c" by blast
  then have m: "c \<in> set RegisterAll" "Lower name = cmd_name c"
    using registry_lower by (auto simp: find_Some_iff in_set_conv_nth) (metis nth_mem)
  have p: "perform (Console line) w = snd (cmd_handler c (All RegisterAll) args w)"
    using t c by (simp add: Dispatch_def split: prod.split outcome.split)
  show ?thesis using p t m(2) evolves_registry [OF m(1)] by simp
qed

lemma evolves_chat_commands:
  "evolves lift w (chat_kick p parts w)" "evolves lift w (chat_ban p parts w)" "evolves True w (chat_unban p parts w)"
  "evolves lift w (chat_give p parts w)" "evolves lift w (chat_help p w)"
  using evolves_KickPlayer [OF evolves_refl] evolves_GiveItem [OF evolves_refl]
    evolves_Ban [OF evolves_refl] evolves_Unban [OF evolves_refl]
  by (auto simp: chat_kick_def chat_ban_def chat_unban_def chat_give_def chat_help_def split_beta
      intro!: evolves_SendToPlayer split: option.split prod.split)

lemma evolves_chat: "evolves (lifts_ban (ChatLine locals)) w (perform (ChatLine locals) w)"
proof (cases locals)
  case None
  then show ?thesis by (simp add: SendThunk_def)
next
  case (Some m)
  have "evolves (lifts_ban (ChatLine (Some m))) w (snd (HandleCommand p (msg_body m) w))" for p
    using evolves_chat_commands evolves_SendToPlayer [OF evolves_refl]
    by (auto simp: HandleCommand_def Let_def)
  then show ?thesis using Some by (auto simp: SendThunk_def Let_def split_beta split: option.split)
qed

section \<open>What every sequence of events keeps\<close>

definition kept :: "bool \<Rightarrow> bool \<Rightarrow> World \<Rightarrow> World \<Rightarrow> bool" where
  "kept lift writable w w' =
     ((bans_ok w \<longrightarrow> bans_ok w') \<and> (kicks_ok w \<longrightarrow> kicks_ok w') \<and> kicked_ids w \<subseteq> kicked_ids w' \<and>
      (lift \<or> banned_ids w \<subseteq> banned_ids w') \<and>
      (writable \<and> bans_writable (game w) \<longrightarrow> bans_writable (game w') \<and> recorded w w'))"

lemma kept_trans: "kept l1 b1 w w' \<Longrightarrow> kept l2 b2 w' w'' \<Longrightarrow> kept (l1 \<or> l2) (b1 \<and> b2) w w''"
  unfolding kept_def using recorded_trans [of w w' w''] by blast

lemma evolves_kept: "evolves lift w w' \<Longrightarrow> kept lift b w w'"
  by (simp add: evolves_def kept_def)

lemma perform_kept: "kept (lifts_ban e) (stays_writable e) w (perform e w)"
proof (cases e)
  case (GameTurn g)
  then show ?thesis by (simp add: kept_def list_simps)
qed (use evolves_request evolves_console evolves_chat evolves_watch in \<open>auto intro!: evolves_kept simp del: perform.simps(1-3)\<close>)

lemma performs_kept: "kept (list_ex lifts_ban es) (list_all stays_writable es) w (fold perform es w)"
proof (induction es arbitrary: w)
  case (Cons e es)
  show ?case using kept_trans [OF perform_kept Cons.IH] by simp
qed (simp add: kept_def recorded_def)

text \<open>
  C9: What an administrator decided stays decided. From any state with well-formed lists, whatever
  requests, console lines, chat messages, passes of the watch loop and turns of the game follow,
  in any order and number: both lists keep one entry per net id; nobody leaves the kick list;
  nobody leaves the ban list unless one of the events asks to lift a ban; and as long as
  \<^verbatim>\<open>bans.json\<close> can be written, a list that has changed is exactly what the file holds.
\<close>
theorem decisions_kept:
  assumes "bans_ok w" "kicks_ok w"
  shows "let w' = fold perform es w
    in bans_ok w' \<and> kicks_ok w' \<and> kicked_ids w \<subseteq> kicked_ids w' \<and>
      (\<not> list_ex lifts_ban es \<longrightarrow> banned_ids w \<subseteq> banned_ids w') \<and>
      (list_all stays_writable es \<and> bans_writable (game w) \<longrightarrow>
        g_Bans w' = g_Bans w \<and> bans_file w' = bans_file w \<or> bans_file w' = Some (bans_text (g_Bans w')))"
  using performs_kept [of es w] assms by (auto simp: kept_def recorded_def Let_def)

text \<open>A ban outlives a guess at another name, a kick, a pass of the watch loop and a new game state.\<close>

theorem decisions_kept_witness:
  "''1'' \<in> banned_ids (fold perform
     [Console ''ban Bob'', WatchPass, GameTurn (demo_game\<lparr>GetAllPlayers := []\<rparr>), ChatLine None, Console ''kick Ann'']
     (demo_world\<lparr>g_Bans := [ban_entry ''t'' ''1'' ''Ann'' ''r'']\<rparr>))"
proof -
  let ?w = "demo_world\<lparr>g_Bans := [ban_entry ''t'' ''1'' ''Ann'' ''r'']\<rparr>"
  let ?es = "[Console ''ban Bob'', WatchPass, GameTurn (demo_game\<lparr>GetAllPlayers := []\<rparr>), ChatLine None, Console ''kick Ann'']"
  have "Lower (hd (tokens ''ban Bob'')) \<noteq> ''unban''" "Lower (hd (tokens ''kick Ann'')) \<noteq> ''unban''" by code_simp+
  then have "\<not> list_ex lifts_ban ?es" by simp
  moreover have "bans_ok ?w" "kicks_ok ?w" by (simp_all add: bans_ok_def kicks_ok_def demo_world_def ban_entry_def)
  ultimately have "banned_ids ?w \<subseteq> banned_ids (fold perform ?es ?w)"
    using decisions_kept [of ?w ?es] by (simp only: Let_def simp_thms)
  then show ?thesis by (auto simp: banned_ids_def ban_entry_def)
qed

end
