(* ===== verification/Json_Float.thy ===== *)
theory Json_Float
  imports Serialize
begin

text \<open>
  The getter for floating-point numbers of \<^verbatim>\<open>src/src/utils/json.h\<close>, \<^verbatim>\<open>Json::GetFloat\<close>. The
  characters it collects are digits, points and minus signs, so of what \<^verbatim>\<open>strtof\<close> accepts only
  the decimal form without an exponent can occur. A value is rounded to the nearest
  \<^verbatim>\<open>float\<close>; the C library reports a range error when that overflows, or when it is subnormal
  and inexact, and \<^verbatim>\<open>std::stof\<close> throws. The main result reads back what \<^const>\<open>Num\<close> prints.
\<close>

section \<open>Reading a decimal number\<close>

text \<open>The sign, the digits before and those after the point, when there is any digit.\<close>

definition decimal_prefix :: "string \<Rightarrow> (bool \<times> string \<times> string) option" where
  "decimal_prefix s =
     (let t = dropWhile is_space s;
          neg = (case t of c # _ \<Rightarrow> c = CHR ''-'' | [] \<Rightarrow> False);
          u = (case t of c # r \<Rightarrow> if c = CHR ''-'' \<or> c = CHR ''+'' then r else t | [] \<Rightarrow> []);
          ds = takeWhile is_digit u;
          fs = (case dropWhile is_digit u of
                  c # r \<Rightarrow> if c = CHR ''.'' then takeWhile is_digit r else []
                | [] \<Rightarrow> [])
      in if ds = [] \<and> fs = [] then None else Some (neg, ds, fs))"

definition decimal_value :: "string \<Rightarrow> string \<Rightarrow> rat" where
  "decimal_value ds fs = of_nat (read_digits (ds @ fs)) / 10 ^ length fs"

text \<open>
  A magnitude as a \<^verbatim>\<open>float\<close>, \<^term>\<open>None\<close> on a range error. Whether a value is subnormal is
  decided after it was rounded to 24 bits.
\<close>

definition float_overflows :: "rat \<Rightarrow> bool" where
  "float_overflows x = (2 ^ 128 \<le> fl32 x)"

definition float_underflows :: "rat \<Rightarrow> bool" where
  "float_underflows x =
     (0 < x \<and> round_at (binade x - 23) x < 2 powi (- 126) \<and> fl32 x \<noteq> x)"

definition stof :: "string \<Rightarrow> stoi_error + fp" where
  "stof s =
     (case decimal_prefix s of
        None \<Rightarrow> Inl InvalidArgument
      | Some (neg, ds, fs) \<Rightarrow>
          (let x = decimal_value ds fs
           in if float_overflows x \<or> float_underflows x then Inl OutOfRange
              else Inr (Finite neg (fl32 x))))"

definition GetFloat :: "string \<Rightarrow> string \<Rightarrow> fp option" where
  "GetFloat body key =
     (case GetNumber body key of
        None \<Rightarrow> None
      | Some num \<Rightarrow> (case stof num of Inl _ \<Rightarrow> None | Inr v \<Rightarrow> Some v))"


section \<open>Numbers as the program prints them\<close>

lemma num_char_digit: "is_digit c \<Longrightarrow> num_char c"
  by (simp add: num_char_def)

lemma decimal_prefix_fixed:
  assumes "list_all is_digit ds" "list_all is_digit fs" "ds \<noteq> []"
  shows "decimal_prefix (sign neg @ ds @ ''.'' @ fs) = Some (neg, ds, fs)"
proof -
  obtain d ds' where ds: "ds = d # ds'" "is_digit d" using assms(1,3) by (cases ds) auto
  have b: "\<not> is_space (CHR ''-'')" "\<not> is_digit (CHR ''.'')" by (simp_all add: is_space_def is_digit_def)
  have w: "dropWhile is_space (sign neg @ ds @ ''.'' @ fs) = sign neg @ ds @ ''.'' @ fs"
    using ds digit_not_space b by (simp add: sign_def)
  have t: "takeWhile is_digit (ds @ ''.'' @ fs) = ds" "dropWhile is_digit (ds @ ''.'' @ fs) = ''.'' @ fs"
    "takeWhile is_digit fs = fs"
    using assms(1,2) b by (auto simp: list_all_iff takeWhile_append2 dropWhile_append2 takeWhile_eq_all_conv)
  have u: "(case sign neg @ ds @ ''.'' @ fs of c # r \<Rightarrow> if c = CHR ''-'' \<or> c = CHR ''+'' then r else sign neg @ ds @ ''.'' @ fs
      | [] \<Rightarrow> []) = ds @ ''.'' @ fs"
    "(case sign neg @ ds @ ''.'' @ fs of c # _ \<Rightarrow> c = CHR ''-'' | [] \<Rightarrow> False) = neg"
    using ds digit_not_sign by (auto simp: sign_def)
  show ?thesis using t assms(3) unfolding decimal_prefix_def Let_def w u by simp
qed

lemma read_digits_append: "read_digits (ds @ fs) = read_digits ds * 10 ^ length fs + read_digits fs"
proof (induction fs rule: rev_induct)
  case Nil
  then show ?case by (simp add: read_digits_def)
next
  case (snoc f fs)
  then show ?case by (simp add: append_assoc [symmetric] read_digits_snoc del: append_assoc)
qed

lemma read_digits_zeros: "read_digits (zeros k s) = read_digits s"
proof -
  have "read_digits (replicate n (CHR ''0'')) = 0" for n
    by (induction n) (simp_all add: read_digits_def digit_val_def)
  then show ?thesis by (simp add: zeros_def read_digits_append)
qed

lemma fixed_decimal:
  fixes q :: rat
  assumes "0 < k"
  defines "n \<equiv> nat (round_even (q * 10 ^ k))"
  shows "decimal_prefix (fixed k (Finite s q)) =
      Some (s, show_nat (n div 10 ^ k), zeros k (show_nat (n mod 10 ^ k)))"
    and "decimal_value (show_nat (n div 10 ^ k)) (zeros k (show_nat (n mod 10 ^ k))) = of_nat n / 10 ^ k"
proof -
  let ?ds = "show_nat (n div 10 ^ k)" and ?fs = "zeros k (show_nat (n mod 10 ^ k))"
  have d: "list_all is_digit ?ds" "list_all is_digit (show_nat (n mod 10 ^ k))"
    by (simp_all add: list_all_iff show_nat_digits)
  then have "decimal_prefix (sign s @ ?ds @ ''.'' @ ?fs) = Some (s, ?ds, ?fs)"
    by (intro decimal_prefix_fixed zeros_digits) simp_all
  then show "decimal_prefix (fixed k (Finite s q)) = Some (s, ?ds, ?fs)"
    using assms(1) by (simp add: n_def Let_def)
  have "length (show_nat (n mod 10 ^ k)) \<le> Suc (k - 1)"
    using assms(1) by (intro length_show_nat) simp
  then have "length ?fs = k" using assms(1) by (intro zeros_length) simp
  then show "decimal_value ?ds ?fs = of_nat n / 10 ^ k"
    by (simp only: decimal_value_def read_digits_append read_digits_zeros read_digits_show_nat div_mult_mod_eq)
qed

section \<open>Objects of numbers\<close>

lemma find_key_obj:
  assumes "plain_key k" "list_all (\<lambda>(k', v'). plain_key k' \<and> k' \<noteq> k \<and> QUOTE \<notin> set v') pre"
  defines "fld \<equiv> \<lambda>(k, v). QUOTE # k @ [QUOTE, CHR '':''] @ v"
  shows "\<exists>t s. commas (map fld (pre @ (k, v) # post)) = t @ fld (k, v) @ s \<and>
           no_start ([QUOTE] @ k @ [QUOTE]) t (fld (k, v) @ s @ r) \<and> (s = [] \<or> hd s = CHR '','')"
  using assms(2)
proof (induction pre)
  case Nil
  show ?case
  proof (cases post)
    case Nil
    then show ?thesis by (intro exI [of _ "[]"]) simp
  next
    case (Cons f fs)
    then show ?thesis by (intro exI [of _ "[]"] exI [of _ "CHR '','' # commas (map fld post)"]) simp
  qed
next
  case (Cons f pre)
  obtain k' v' where f: "f = (k', v')" by (cases f)
  from Cons obtain t s where ts: "commas (map fld (pre @ (k, v) # post)) = t @ fld (k, v) @ s"
      "no_start ([QUOTE] @ k @ [QUOTE]) t (fld (k, v) @ s @ r)" "s = [] \<or> hd s = CHR '',''"
    by auto
  obtain g gs where g: "pre @ (k, v) # post = g # gs" by (cases "pre @ (k, v) # post") auto
  let ?t = "fld (k', v') @ CHR '','' # t"
  have "commas (map fld ((f # pre) @ (k, v) # post)) = ?t @ fld (k, v) @ s"
    using ts(1) g by (simp add: f)
  moreover have "no_start ([QUOTE] @ k @ [QUOTE]) ?t (fld (k, v) @ s @ r)"
  proof -
    have k': "plain_key k'" "k' \<noteq> k" "QUOTE \<notin> set v'" using Cons.prems by (simp_all add: f)
    from assms(1) k'(1) have q: "QUOTE \<notin> set k" "QUOTE \<notin> set k'" by (auto simp: plain_key_def)
    have "no_start ([QUOTE] @ k @ [QUOTE]) ([QUOTE] @ k' @ [QUOTE, CHR '':'']) u" for u
      using assms(1) k'(2) q quoted_key_eq [OF q]
      by (cases k) (auto simp: plain_key_def intro!: no_start_notin)
    moreover have "no_start ([QUOTE] @ k @ [QUOTE]) (v' @ '','') u" for u
      using k'(3) by (intro no_start_notin) auto
    moreover have "?t = ([QUOTE] @ k' @ [QUOTE, CHR '':'']) @ (v' @ '','') @ t" by (simp add: fld_def)
    ultimately show ?thesis using ts(2) by (simp only: no_start_append)
  qed
  ultimately show ?case using ts(3) by blast
qed

lemma GetNumber_obj:
  assumes "plain_key k" "list_all (\<lambda>(k', v'). plain_key k' \<and> k' \<noteq> k \<and> QUOTE \<notin> set v') pre"
    and "list_all num_char num" "num \<noteq> []"
  shows "GetNumber (obj (pre @ (k, num) # post)) k = Some num"
proof -
  let ?fld = "\<lambda>(k, v). QUOTE # k @ [QUOTE, CHR '':''] @ v"
  from find_key_obj [OF assms(1,2), of num post "''}''"] obtain t s where
    ts: "commas (map ?fld (pre @ (k, num) # post)) = t @ ?fld (k, num) @ s"
      "no_start ([QUOTE] @ k @ [QUOTE]) t (?fld (k, num) @ s @ ''}'')" "s = [] \<or> hd s = CHR '',''" by blast
  let ?pre = "''{'' @ t" and ?v = "num @ s @ ''}''"
  let ?key = "?pre @ [QUOTE] @ k @ [QUOTE, CHR '':'']"
  have eq: "obj (pre @ (k, num) # post) = ?pre @ [QUOTE] @ k @ [QUOTE, CHR '':''] @ ?v"
    by (simp only: obj_def ts(1)) simp
  have "no_start ([QUOTE] @ k @ [QUOTE]) ?pre (([QUOTE] @ k @ [QUOTE]) @ CHR '':'' # ?v)"
    using ts(2) by (simp add: starts_with_def)
  from find_sub_at [OF this] have found: "find_sub ([QUOTE] @ k @ [QUOTE])
      (?pre @ [QUOTE] @ k @ [QUOTE, CHR '':''] @ ?v) = Some (length ?pre)" by simp
  have "\<not> blank (hd ?v)" using assms(3,4) by (cases num) (auto simp: num_char_def is_digit_def)
  from FindValue_here [OF found disjI2 [OF this]]
  have at: "FindValue (obj (pre @ (k, num) # post)) k = Some (length ?key)" by (simp only: eq)
  have "s @ ''}'' \<noteq> []" "\<not> num_char (hd (s @ ''}''))"
    using ts(3) by (cases s; simp add: num_char_def is_digit_def)+
  then have "takeWhile num_char ?v = num"
    using assms(3) by (cases "s @ ''}''") (simp_all add: list_all_iff takeWhile_append2)
  moreover have "drop (length ?key) (obj (pre @ (k, num) # post)) = ?v"
    using arg_cong [OF eq, of "drop (length ?key)"] by (metis append_assoc append_eq_conv_conj)
  ultimately show ?thesis using at assms(4) by (simp add: GetNumber_def Let_def)
qed


section \<open>Reading back a printed number\<close>

definition thousandths :: "rat \<Rightarrow> rat" where
  "thousandths q = of_int (round_even (q * 1000)) / 1000"

lemma thousandths_near: "\<bar>thousandths q - q\<bar> \<le> 1 / 2000"
proof -
  have "thousandths q - q = (of_int (round_even (q * 1000)) - q * 1000) / 1000"
    by (simp add: thousandths_def field_simps)
  also have "\<bar>\<dots>\<bar> \<le> 1 / 2000" using round_even_near [of "q * 1000"] by simp
  finally show ?thesis .
qed


lemma float_range:
  assumes "0 \<le> q" "q \<le> 10 ^ 38"
  shows "0 \<le> thousandths q" "thousandths q \<le> 10 ^ 38" "thousandths q = 0 \<or> 1 / 1000 \<le> thousandths q"
proof -
  have "0 \<le> q * 1000" "q * 1000 \<le> of_int (10 ^ 41)" using assms by simp_all
  then have r: "0 \<le> round_even (q * 1000)" "round_even (q * 1000) \<le> 10 ^ 41"
    using round_even_mono [of 0 "q * 1000"] round_even_le [of "q * 1000" "10 ^ 41"] round_even_of_int [of 0]
    by simp_all
  then have "of_int (round_even (q * 1000)) \<le> (of_int (10 ^ 41) :: rat)" by (simp only: of_int_le_iff)
  then show "thousandths q \<le> 10 ^ 38" by (simp add: thousandths_def)
  show "0 \<le> thousandths q" using r(1) by (simp add: thousandths_def)
  have "round_even (q * 1000) = 0 \<or> 1 \<le> round_even (q * 1000)" using r(1) by linarith
  then show "thousandths q = 0 \<or> 1 / 1000 \<le> thousandths q"
  proof
    assume "1 \<le> round_even (q * 1000)"
    then have "of_int 1 \<le> (of_int (round_even (q * 1000)) :: rat)" by (simp only: of_int_le_iff)
    then show ?thesis by (simp add: thousandths_def)
  qed (simp add: thousandths_def)
qed

lemma float_no_overflow:
  assumes "x \<le> 10 ^ 38"
  shows "\<not> float_overflows x"
proof -
  have "(10 :: rat) ^ 38 \<le> 2 powi 127" by (simp add: power_int_def)
  then have "fl32 x \<le> fl32 (2 powi 127)" using assms by (intro f32.rnd_mono) linarith
  also have "\<dots> < 2 powi 128" by (simp only: fl32_def fl_at_powi2) (simp add: power_int_def)
  also have "\<dots> = 2 ^ 128" by (simp add: power_int_def)
  finally show ?thesis by (simp add: float_overflows_def)
qed

lemma float_no_underflow:
  assumes "x = 0 \<or> 1 / 1000 \<le> x"
  shows "\<not> float_underflows x"
proof
  assume u: "float_underflows x"
  then have x: "0 < x" "1 / 1000 \<le> x" using assms by (auto simp: float_underflows_def)
  have "(2 :: rat) powi (- 10) \<le> x" using x(2) by (simp add: power_int_def power_divide)
  then have "binade (2 powi (- 10)) \<le> binade x" by (intro binade_mono) simp_all
  then have "- 126 \<le> binade x" by (simp only: binade_power)
  then have "(2 :: rat) powi (- 126) \<le> 2 powi binade x" by (simp only: powi2_le_iff)
  also have "2 powi binade x = round_at (binade x - 23) (2 powi binade x)"
    by (simp add: round_at_powi2)
  also have "\<dots> \<le> round_at (binade x - 23) x"
    using binade_bounds(1) [OF x(1)] by (rule round_at_mono)
  finally show False using u by (simp add: float_underflows_def)
qed

lemma stof_Num:
  assumes "0 \<le> q" "q \<le> 10 ^ 38"
  shows "stof (Num (Finite s q)) = Inr (Finite s (fl32 (thousandths q)))"
proof -
  let ?n = "nat (round_even (q * 10 ^ 3))"
  have "0 \<le> round_even (q * 1000)"
    using assms(1) round_even_mono [of 0 "q * 1000"] round_even_of_int [of 0] by simp
  then have v: "of_nat ?n / 10 ^ 3 = thousandths q" by (simp add: thousandths_def)
  have n: "Num (Finite s q) = fixed 3 (Finite s q)"
    using assms by (intro Num_fixed) (simp add: num_ok_def)
  show ?thesis
    using fixed_decimal [where k = 3 and q = q] float_range [OF assms] float_no_overflow float_no_underflow
    unfolding n stof_def by (simp only: v option.case prod.case Let_def) simp
qed

lemma Num_chars: "num_ok v \<Longrightarrow> list_all num_char (Num v)" "num_ok v \<Longrightarrow> Num v \<noteq> []"
proof -
  assume ok: "num_ok v"
  then obtain s q where v: "v = Finite s q" by (auto simp: num_ok_def split: fp.splits)
  have d: "num_char c" if "c \<in> set (show_nat n)" for c n using that by (simp add: num_char_digit show_nat_digits)
  have "num_char (CHR ''0'')" "num_char (CHR ''.'')" "num_char (CHR ''-'')"
    by (simp_all add: num_char_def is_digit_def)
  then show "list_all num_char (Num v)" "Num v \<noteq> []"
    using d unfolding Num_fixed [OF ok] by (auto simp: v Let_def sign_def zeros_def list_all_iff)
qed

lemma Num_no_quote: "num_ok v \<Longrightarrow> QUOTE \<notin> set (Num v)"
  using Num_chars(1) [of v] by (auto simp: list_all_iff num_char_def is_digit_def)

lemma GetFloat_obj:
  assumes "plain_key k" "list_all (\<lambda>(k', v'). plain_key k' \<and> k' \<noteq> k \<and> QUOTE \<notin> set v') pre"
    and "0 \<le> q" "q \<le> 10 ^ 38"
  shows "GetFloat (obj (pre @ (k, Num (Finite s q)) # post)) k = Some (Finite s (fl32 (thousandths q)))"
proof -
  have "num_ok (Finite s q)" using assms(3,4) by (simp add: num_ok_def)
  from GetNumber_obj [OF assms(1,2) Num_chars [OF this]] show ?thesis
    by (simp only: GetFloat_def stof_Num [OF assms(3,4)] option.case sum.case)
qed

text \<open>
  The coordinates of a position are read back as they were printed: \<open>GetFloat\<close> on the text
  of \<open>xyz\<close> gives, for each key, the sign and the \<^verbatim>\<open>float\<close> next to the magnitude in thousandths,
  which by \<open>thousandths_near\<close> is within half a thousandth of the value itself.
\<close>
lemma xyz_roundtrip:
  assumes "v = (Finite sx x, Finite sy y, Finite sz z)" "\<forall>q \<in> {x, y, z}. 0 \<le> q \<and> q \<le> 10 ^ 38"
  shows "GetFloat (xyz v) ''x'' = Some (Finite sx (fl32 (thousandths x))) \<and>
    GetFloat (xyz v) ''y'' = Some (Finite sy (fl32 (thousandths y))) \<and>
    GetFloat (xyz v) ''z'' = Some (Finite sz (fl32 (thousandths z)))"
proof -
  have k: "plain_key ''x''" "plain_key ''y''" "plain_key ''z''" by (simp_all add: plain_key_def)
  have n: "QUOTE \<notin> set (Num (Finite s q))" if "q \<in> {x, y, z}" for s q
    using assms(2) that by (intro Num_no_quote) (auto simp: num_ok_def)
  note f = GetFloat_obj [of _ "[]"] GetFloat_obj [of _ "[a]" for a] GetFloat_obj [of _ "[a, b]" for a b]
  show ?thesis using f k n assms by (simp add: xyz_def)
qed


section \<open>Range errors\<close>

lemma float_overflowsI: "2 powi 128 \<le> x \<Longrightarrow> float_overflows x"
  using f32.rnd_mono [of "2 powi 128" x] fl_at_powi2 [of 24 "- 149" 128]
  by (simp add: float_overflows_def fl32_def power_int_def)

lemma float_underflowsI:
  assumes "0 < x" "x < 2 powi (- 151)"
  shows "float_underflows x"
proof -
  have b: "binade x < - 151" using assms by (rule binade_less)
  have "round_at (binade x - 23) x \<le> round_at (binade x - 23) (2 powi (binade x + 1))"
    using binade_bounds(2) [OF assms(1)] by (intro round_at_mono) simp
  also have "\<dots> = 2 powi (binade x + 1)" by (intro round_at_powi2) simp
  also have "\<dots> < 2 powi (- 126)" using b by (simp only: powi2_less_iff)
  finally have r: "round_at (binade x - 23) x < 2 powi (- 126)" .
  have "x / 2 powi (- 149) < 2 powi (- 151) / 2 powi (- 149)"
    using assms(2) by (intro divide_strict_right_mono) simp_all
  also have "\<dots> = 1 / 4" by (simp add: power_int_diff [symmetric])
  finally have l: "x / 2 powi (- 149) < 1 / 4" .
  moreover have "0 \<le> x / 2 powi (- 149)" using assms(1) by simp
  ultimately have "\<lfloor>x / 2 powi (- 149)\<rfloor> = 0" by (intro floor_unique) simp_all
  then have "round_even (x / 2 powi (- 149)) = 0" using l by (simp only: round_even_def Let_def) simp
  moreover have "ulp_exp 24 (- 149) x = - 149" using b assms(1) by (simp add: ulp_exp_def)
  ultimately have "fl32 x = 0" using assms(1) by (simp add: fl32_def fl_at_def round_at_def)
  with r assms(1) show ?thesis by (simp add: float_underflows_def)
qed

text \<open>
  A number with two points reads up to the second, and one without a digit is refused. \<open>-0\<close>
  keeps its sign.
\<close>
lemma stof_edges:
  "stof ''1.5.2'' = Inr (Finite False (3 / 2))" "stof ''-'' = Inl InvalidArgument"
  "stof ''.-'' = Inl InvalidArgument" "stof ''-0'' = Inr (Finite True 0)"
  by code_simp+

end
