(* ===== verification/Rate_Bound.thy ===== *)
theory Rate_Bound
  imports Access_Control
begin

text \<open>
  What the rate limiter of \<^verbatim>\<open>src/src/net/access_control.cpp\<close> promises: in any stretch of time an
  address gets at most a burst plus its rate times the length of the stretch. The limiter
  computes with \<^verbatim>\<open>double\<close>s, so the bound has the rounding errors written out: a relative one of
  \<open>2 ^ -50\<close> on the refill and \<open>2 ^ -20\<close> of a token for every call.
\<close>

section \<open>Rounding errors\<close>

lemma powi_inverse: "2 powi (- 53) = (1 / 2 ^ 53 :: rat)" "2 powi (- 1075) \<le> (1 / 2 ^ 60 :: rat)"
  "2 powi (- 1022) \<le> (1 / 2 ^ 60 :: rat)"
proof -
  have e: "(1 / 2 ^ 60 :: rat) = 2 powi (- 60)" "2 powi (- 53) = (1 / 2 ^ 53 :: rat)"
    by (simp_all add: power_int_def power_divide)
  show "2 powi (- 53) = (1 / 2 ^ 53 :: rat)" by (rule e(2))
  show "2 powi (- 1075) \<le> (1 / 2 ^ 60 :: rat)" "2 powi (- 1022) \<le> (1 / 2 ^ 60 :: rat)"
    unfolding e(1) by (simp_all only: powi2_le_iff)
qed

lemma fl64_near: "0 \<le> x \<Longrightarrow> fl64 x \<le> x + x / 2 ^ 53 + 1 / 2 ^ 60"
  using fl_at_near [of x 53 "- 1074"] powi_inverse by (simp add: fl64_def)

lemma fl64_near_normal: "1 / 2 ^ 60 \<le> x \<Longrightarrow> fl64 x \<le> x * (1 + 1 / 2 ^ 53)"
  using fl_at_near_normal [of "- 1074" 53 x] powi_inverse by (simp add: fl64_def distrib_left)

lemma fl64_ge: "2 powi n \<le> x \<Longrightarrow> - 1074 \<le> n \<Longrightarrow> 2 powi n \<le> fl64 x"
  using fl64_mono [of "2 powi n" x] fl_at_powi2 [of 53 "- 1074" n] by (simp add: fl64_def)

text \<open>A positive number of nanoseconds as seconds, and its product with a rate.\<close>

lemma duration_near:
  assumes "1 \<le> d"
  shows "duration_seconds d \<le> of_int d / 1000000000 * (1 + 1 / 2 ^ 53) ^ 2" "1 / 2 ^ 30 \<le> duration_seconds d"
proof -
  have d: "(1 :: rat) \<le> of_int d" using assms by simp
  have f: "1 \<le> fl64 (of_int d)" using f64.rnd_ge_int [of 1 "of_int d"] d by simp
  have "fl64 (of_int d) \<le> of_int d * (1 + 1 / 2 ^ 53)" using d by (intro fl64_near_normal) simp
  then have "fl64 (of_int d) / 1000000000 * (1 + 1 / 2 ^ 53) \<le> of_int d * (1 + 1 / 2 ^ 53) / 1000000000 * (1 + 1 / 2 ^ 53)"
    by (intro mult_right_mono divide_right_mono) simp_all
  moreover have "duration_seconds d \<le> fl64 (of_int d) / 1000000000 * (1 + 1 / 2 ^ 53)"
    unfolding duration_seconds_def using f by (intro fl64_near_normal) simp
  ultimately show "duration_seconds d \<le> of_int d / 1000000000 * (1 + 1 / 2 ^ 53) ^ 2"
    by (simp add: power2_eq_square)
  have "2 powi (- 30) \<le> fl64 (of_int d) / 1000000000" using f by (simp add: power_int_def power_divide)
  then have "2 powi (- 30) \<le> duration_seconds d" unfolding duration_seconds_def by (rule fl64_ge) simp
  then show "1 / 2 ^ 30 \<le> duration_seconds d" by (simp add: power_int_def power_divide)
qed

lemma rate_near:
  assumes "1 \<le> p" "in_int32 p"
  shows "fl64 (fl64 (of_int p) / 60) \<le> of_int p / 60 * (1 + 1 / 2 ^ 53)" "1 / 61 \<le> fl64 (fl64 (of_int p) / 60)"
proof -
  have "(1 :: rat) \<le> of_int p" using assms(1) by simp
  then show "fl64 (fl64 (of_int p) / 60) \<le> of_int p / 60 * (1 + 1 / 2 ^ 53)"
    unfolding fl64_int32 [OF assms(2)] by (intro fl64_near_normal) simp
  show "1 / 61 \<le> fl64 (fl64 (of_int p) / 60)" using assms by (rule refill_rate)
qed

section \<open>One call\<close>

lemma gain_near:
  assumes "0 \<le> d" "1 / 61 \<le> R" "R \<le> r * (1 + 1 / 2 ^ 53)"
  shows "0 \<le> fl64 (duration_seconds d * R)"
    "fl64 (duration_seconds d * R) \<le> of_int d / 1000000000 * r * (1 + 1 / 2 ^ 50)"
proof -
  let ?u = "1 + 1 / 2 ^ 53 :: rat"
  show "0 \<le> fl64 (duration_seconds d * R)"
    using assms(2) duration_nonneg [OF assms(1)] by (intro f64.rnd_nonneg mult_nonneg_nonneg) simp_all
  have r: "0 \<le> r" using order_trans [OF assms(2,3)] by (simp add: zero_le_mult_iff)
  show "fl64 (duration_seconds d * R) \<le> of_int d / 1000000000 * r * (1 + 1 / 2 ^ 50)"
  proof (cases "d = 0")
    case False
    then have d: "1 \<le> d" "(0 :: rat) \<le> of_int d" using assms(1) by simp_all
    have "1 / 2 ^ 30 * (1 / 61) \<le> duration_seconds d * R"
      using duration_near(2) [OF d(1)] assms(2) by (intro mult_mono) simp_all
    moreover have "1 / 2 ^ 60 \<le> 1 / 2 ^ 30 * (1 / 61 :: rat)" by simp
    ultimately have "1 / 2 ^ 60 \<le> duration_seconds d * R" by (rule order_trans [rotated])
    then have "fl64 (duration_seconds d * R) \<le> duration_seconds d * R * ?u" by (rule fl64_near_normal)
    also have "\<dots> \<le> of_int d / 1000000000 * ?u ^ 2 * (r * ?u) * ?u"
      using duration_near(1) [OF d(1)] assms(2,3) d(2) by (intro mult_right_mono mult_mono) simp_all
    also have "\<dots> = of_int d / 1000000000 * r * ?u ^ 4" by (simp add: power_numeral_reduce)
    also have "\<dots> \<le> of_int d / 1000000000 * r * (1 + 1 / 2 ^ 50)"
      using d(2) r by (intro mult_left_mono mult_nonneg_nonneg) (simp_all add: power_divide)
    finally show ?thesis .
  qed (simp add: duration_seconds_def)
qed

lemma small_error: "x \<le> 2 ^ 31 \<Longrightarrow> x / 2 ^ 53 + 1 / 2 ^ 60 \<le> (1 / 2 ^ 21 :: rat)"
  using divide_right_mono [of x "2 ^ 31" "2 ^ 53"] by simp

lemma refill_near:
  assumes "limiter_ok now l" "m_LimiterEnabled l" "m_Buckets l a = Some b" "last_seen b \<le> now'"
    "1 / 61 \<le> m_RefillPerSecond l" "m_RefillPerSecond l \<le> r * (1 + 1 / 2 ^ 53)"
  shows "refill l now' b \<le> tokens_left b + of_int (now' - last_seen b) / 1000000000 * r * (1 + 1 / 2 ^ 50) + 1 / 2 ^ 21"
proof -
  let ?x = "fl64 (duration_seconds (now' - last_seen b) * m_RefillPerSecond l)"
  let ?y = "tokens_left b + ?x"
  have x: "0 \<le> ?x" "?x \<le> of_int (now' - last_seen b) / 1000000000 * r * (1 + 1 / 2 ^ 50)"
    using gain_near [of "now' - last_seen b", OF _ assms(5,6)] assms(4) by simp_all
  have y: "0 \<le> ?y" using limiter_okD(6) [OF assms(1,3)] x(1) by simp
  have B: "m_Burst l = of_int \<lfloor>m_Burst l\<rfloor>" "m_Burst l \<le> 2 ^ 31" "\<bar>\<lfloor>m_Burst l\<rfloor>\<bar> \<le> 2 ^ 53"
    using limiter_okD(1,3,4) [OF assms(1)] by simp_all
  have "refill l now' b \<le> ?y + 1 / 2 ^ 21"
  proof (cases "m_Burst l \<le> ?y")
    case True
    then show ?thesis by (simp add: refill_def Let_def)
  next
    case False
    then have "?y \<le> 2 ^ 31" using B(2) by simp
    then have "?y / 2 ^ 53 + 1 / 2 ^ 60 \<le> 1 / 2 ^ 21" by (rule small_error)
    then have "fl64 ?y \<le> ?y + 1 / 2 ^ 21" using fl64_near [OF y] by linarith
    then show ?thesis by (simp add: refill_def Let_def)
  qed
  then show ?thesis using x(2) by linarith
qed

lemma spend_near: "limiter_ok now l \<Longrightarrow> 1 \<le> t \<Longrightarrow> t \<le> m_Burst l \<Longrightarrow> fl64 (t - 1) \<le> t - 1 + 1 / 2 ^ 21"
proof -
  assume l: "limiter_ok now l" "1 \<le> t" "t \<le> m_Burst l"
  then have "(t - 1) / 2 ^ 53 + 1 / 2 ^ 60 \<le> 1 / 2 ^ 21" using limiter_okD(3) [OF l(1)] by (intro small_error) simp
  then show ?thesis using fl64_near [of "t - 1"] l(2) by linarith
qed


section \<open>A stretch of calls\<close>

definition allowed :: "u32 \<Rightarrow> (u32 \<times> bool) list \<Rightarrow> nat" where
  "allowed a rs = length (filter (\<lambda>x. x = (a, True)) rs)"

lemma allowed_Nil [simp]: "allowed a [] = 0"
  by (simp add: allowed_def)

lemma allowed_Cons [simp]: "allowed a (x # rs) = (if x = (a, True) then Suc (allowed a rs) else allowed a rs)"
  by (simp add: allowed_def)

text \<open>The limiter in use: its invariant and its rate.\<close>

definition running_at :: "rat \<Rightarrow> int \<Rightarrow> RateLimiter \<Rightarrow> bool" where
  "running_at r now l =
     (limiter_ok now l \<and> m_LimiterEnabled l \<and> 1 / 61 \<le> m_RefillPerSecond l \<and>
      m_RefillPerSecond l \<le> r * (1 + 1 / 2 ^ 53))"

lemma running_Allow:
  assumes "running_at r now l" "now \<le> t"
  shows "running_at r t (snd (Allow t a l))"
proof -
  have c: "(snd (Allow t a l))\<lparr>m_Buckets := Map.empty\<rparr> = l\<lparr>m_Buckets := Map.empty\<rparr>" by (rule rl.cfg_kept)
  show ?thesis
    using assms limiter_ok_Allow [of now l t a] arg_cong [OF c, of m_LimiterEnabled] arg_cong [OF c, of m_RefillPerSecond]
    by (simp add: running_at_def)
qed

text \<open>What a call leaves in the bucket, and what it grants.\<close>

lemma Allow_spends:
  assumes "running_at r now l" "m_Buckets l a = Some b" "now \<le> t"
  shows "\<exists>b'. m_Buckets (snd (Allow t a l)) a = Some b' \<and> last_seen b' = t \<and>
    (if fst (Allow t a l) then 1 else 0) + tokens_left b' \<le> refill l t b + 1 / 2 ^ 21"
proof -
  have l: "limiter_ok now l" "m_LimiterEnabled l" using assms(1) by (simp_all add: running_at_def)
  have b: "refill l t b \<le> m_Burst l" using refill_bounds [OF l assms(2,3)] by simp
  show ?thesis using l(2) assms(2) spend_near [OF l(1) _ b] by (auto simp: Allow_def Let_def)
qed

lemma spend_run:
  assumes "running_at r now l" "m_Buckets l a = Some b" "last_seen b = now" "sorted (now # map fst cs)"
    "list_all (\<lambda>e. snd e = a \<and> fst e \<le> t1) cs" "now \<le> t1" "0 \<le> r"
  shows "of_nat (allowed a (fst (run_calls Allow cs l))) \<le>
    tokens_left b + of_int (t1 - now) / 1000000000 * r * (1 + 1 / 2 ^ 50) + of_nat (length cs) / 2 ^ 20"
  using assms
proof (induction cs arbitrary: now l b)
  case Nil
  have "0 \<le> tokens_left b" using Nil.prems limiter_okD(6) by (auto simp: running_at_def)
  moreover have "0 \<le> of_int (t1 - now) / 1000000000 * r * (1 + 1 / 2 ^ 50)"
    using Nil.prems by (intro mult_nonneg_nonneg) simp_all
  ultimately show ?case by simp
next
  case (Cons e cs)
  obtain t where e: "e = (t, a)" using Cons.prems(5) by (cases e) simp
  have t: "now \<le> t" "t \<le> t1" "sorted (t # map fst cs)" using Cons.prems by (simp_all add: e)
  let ?l = "snd (Allow t a l)"
  let ?w = "\<lambda>d. of_int d / 1000000000 * r * (1 + 1 / 2 ^ 50)"
  from Allow_spends [OF Cons.prems(1,2) t(1)] obtain b' where b': "m_Buckets ?l a = Some b'" "last_seen b' = t"
      "(if fst (Allow t a l) then 1 else 0) + tokens_left b' \<le> refill l t b + 1 / 2 ^ 21" by blast
  have "refill l t b \<le> tokens_left b + ?w (t - now) + 1 / 2 ^ 21"
    using Cons.prems(1-3) t(1) refill_near [of now l a b t r] by (simp add: running_at_def)
  moreover have "of_nat (allowed a (fst (run_calls Allow cs ?l))) \<le> tokens_left b' + ?w (t1 - t) + of_nat (length cs) / 2 ^ 20"
    using Cons.prems t by (intro Cons.IH [OF running_Allow [OF Cons.prems(1) t(1)] b'(1,2)]) simp_all
  moreover have "?w (t - now) + ?w (t1 - t) = ?w (t1 - now)" by (simp add: field_simps)
  moreover have "(of_nat (length (e # cs)) / 2 ^ 20 :: rat) = of_nat (length cs) / 2 ^ 20 + 1 / 2 ^ 21 + 1 / 2 ^ 21" by simp
  moreover have "(of_nat (allowed a (fst (run_calls Allow (e # cs) l))) :: rat) =
      (if fst (Allow t a l) then 1 else 0) + of_nat (allowed a (fst (run_calls Allow cs ?l)))"
    by (simp add: e split_beta Let_def)
  ultimately show ?case using b'(3) by linarith
qed

text \<open>The first call of a stretch starts from at most a full bucket.\<close>

lemma Allow_first:
  assumes "running_at r now l" "now \<le> t"
  shows "\<exists>b'. m_Buckets (snd (Allow t a l)) a = Some b' \<and> last_seen b' = t \<and>
    (if fst (Allow t a l) then 1 else 0) + tokens_left b' \<le> m_Burst l + 1 / 2 ^ 21"
proof (cases "m_Buckets l a")
  case None
  have l: "limiter_ok now l" "m_LimiterEnabled l" "1 \<le> m_Burst l"
    using assms(1) limiter_okD(2) by (auto simp: running_at_def)
  then show ?thesis using None spend_near [OF l(1,3)] by (simp add: Allow_def)
next
  case (Some b)
  have l: "limiter_ok now l" "m_LimiterEnabled l" using assms(1) by (simp_all add: running_at_def)
  from Allow_spends [OF assms(1) Some assms(2)] obtain b' where "m_Buckets (snd (Allow t a l)) a = Some b'" "last_seen b' = t"
      "(if fst (Allow t a l) then 1 else 0) + tokens_left b' \<le> refill l t b + 1 / 2 ^ 21" by blast
  note b' = this
  have "refill l t b + 1 / 2 ^ 21 \<le> m_Burst l + 1 / 2 ^ 21" using refill_bounds(2) [OF l Some assms(2)] by simp
  from order_trans [OF b'(3) this] b'(1,2) show ?thesis by blast
qed

lemma stretch_of_one:
  assumes "running_at r now l" "sorted (now # map fst cs)" "list_all (\<lambda>e. snd e = a \<and> t0 \<le> fst e \<and> fst e \<le> t1) cs"
    "t0 \<le> t1" "0 \<le> r"
  shows "of_nat (allowed a (fst (run_calls Allow cs l))) \<le>
    m_Burst l + of_int (t1 - t0) / 1000000000 * r * (1 + 1 / 2 ^ 50) + of_nat (length cs) / 2 ^ 20"
proof (cases cs)
  case Nil
  have "0 \<le> m_Burst l" using assms(1) limiter_okD(2) [of now l] by (simp add: running_at_def)
  moreover have "0 \<le> of_int (t1 - t0) / 1000000000 * r * (1 + 1 / 2 ^ 50)"
    using assms(4,5) by (intro mult_nonneg_nonneg) simp_all
  ultimately show ?thesis by (simp add: Nil)
next
  case (Cons e es)
  obtain t where e: "e = (t, a)" using assms(3) by (cases e) (simp add: Cons)
  have t: "now \<le> t" "t0 \<le> t" "t \<le> t1" "sorted (t # map fst es)" using assms(2,3) by (simp_all add: Cons e)
  let ?l = "snd (Allow t a l)" and ?w = "\<lambda>d. of_int d / 1000000000 * r * (1 + 1 / 2 ^ 50)"
  from Allow_first [OF assms(1) t(1)] obtain b' where b': "m_Buckets ?l a = Some b'" "last_seen b' = t"
      "(if fst (Allow t a l) then 1 else 0) + tokens_left b' \<le> m_Burst l + 1 / 2 ^ 21" by blast
  have "list_all (\<lambda>e. snd e = a \<and> fst e \<le> t1) es" using assms(3) by (simp add: Cons list_all_iff)
  from spend_run [OF running_Allow [OF assms(1) t(1)] b'(1,2) t(4) this t(3) assms(5)]
  have "of_nat (allowed a (fst (run_calls Allow es ?l))) \<le> tokens_left b' + ?w (t1 - t) + of_nat (length es) / 2 ^ 20" .
  moreover have "?w (t1 - t) \<le> ?w (t1 - t0)"
    using t(2) assms(5) by (intro mult_right_mono divide_right_mono) simp_all
  moreover have "(of_nat (length cs) / 2 ^ 20 :: rat) = of_nat (length es) / 2 ^ 20 + 1 / 2 ^ 21 + 1 / 2 ^ 21" by (simp add: Cons)
  moreover have "(0 :: rat) \<le> 1 / 2 ^ 21" by simp
  moreover have "(of_nat (allowed a (fst (run_calls Allow cs l))) :: rat) =
      (if fst (Allow t a l) then 1 else 0) + of_nat (allowed a (fst (run_calls Allow es ?l)))"
    by (simp add: Cons e split_beta Let_def)
  ultimately show ?thesis using b'(3) by linarith
qed

lemma allowed_of: "allowed a rs = allowed a (filter (\<lambda>x. fst x = a) rs)"
  by (simp add: allowed_def conj_commute cong: conj_cong) (metis (mono_tags, lifting) fst_conv)


section \<open>The promise\<close>

lemma running_Configure:
  assumes "0 < perMinute" "in_int32 perMinute" "in_int32 burst" "sorted (map fst (es @ cs))" "es @ cs \<noteq> []"
  shows "\<exists>now. running_at (of_int perMinute / 60) now (snd (run_calls Allow es (RateLimiter_Configure perMinute burst))) \<and>
    sorted (now # map fst cs)"
proof -
  let ?l = "RateLimiter_Configure perMinute burst"
  let ?r = "snd (run_calls Allow es ?l)"
  obtain e0 rest where "es @ cs = e0 # rest" using assms(5) by (cases "es @ cs") auto
  then have e0: "sorted (fst e0 # map fst (es @ cs))" using assms(4) by (simp del: map_append)
  let ?now = "last (fst e0 # map fst es)"
  have "limiter_ok ?now ?r"
    using assms(2,3) e0 by (intro limiter_ok_run limiter_ok_Configure) (simp_all add: sorted_append)
  moreover have c: "?r\<lparr>m_Buckets := Map.empty\<rparr> = ?l\<lparr>m_Buckets := Map.empty\<rparr>" by (rule rl.run_cfg)
  have "m_LimiterEnabled ?r" "m_RefillPerSecond ?r = fl64 (fl64 (of_int perMinute) / 60)"
    using arg_cong [OF c, of m_LimiterEnabled] arg_cong [OF c, of m_RefillPerSecond] assms(1)
    by (simp_all add: RateLimiter_Configure_def Let_def)
  moreover have "sorted (?now # map fst cs)" using e0 by (auto simp: sorted_append last_map)
  ultimately show ?thesis using rate_near [of perMinute] assms(1,2) by (auto simp: running_at_def)
qed

text \<open>
  C15: The rate limit holds over every stretch of time. Whatever calls of whatever addresses came
  before and come in between, between \<open>t0\<close> and \<open>t1\<close> (in nanoseconds) an address is allowed at most a
  burst and its rate per minute times the elapsed time, up to the rounding of the
  floating-point refill: \<open>2 ^ -50\<close> of it and \<open>2 ^ -20\<close> per call of the address.
\<close>
theorem rate_limit_enforced:
  assumes "0 < perMinute" "in_int32 perMinute" "in_int32 burst" "sorted (map fst (es @ cs))" "t0 \<le> t1"
    "\<forall>e \<in> set cs. snd e = a \<longrightarrow> t0 \<le> fst e \<and> fst e \<le> t1"
  shows "of_nat (allowed a (fst (run_calls Allow cs (snd (run_calls Allow es (RateLimiter_Configure perMinute burst)))))) \<le>
    m_Burst (RateLimiter_Configure perMinute burst) +
    of_int (t1 - t0) / 1000000000 * (of_int perMinute / 60) * (1 + 1 / 2 ^ 50) +
    of_nat (length (filter (\<lambda>e. snd e = a) cs)) / 2 ^ 20"
proof (cases "es @ cs = []")
  case False
  let ?l = "RateLimiter_Configure perMinute burst"
  let ?r = "snd (run_calls Allow es ?l)" and ?cs = "filter (\<lambda>e. snd e = a) cs"
  from running_Configure [OF assms(1-4) False] obtain now where now: "running_at (of_int perMinute / 60) now ?r"
      "sorted (now # map fst cs)" by blast
  have "sorted (now # map fst ?cs)" using now(2) by (simp add: sorted_filter)
  moreover have "list_all (\<lambda>e. snd e = a \<and> t0 \<le> fst e \<and> fst e \<le> t1) ?cs" using assms(6) by (simp add: list_all_iff)
  moreover have "0 \<le> (of_int perMinute / 60 :: rat)" using assms(1) by simp
  ultimately have "of_nat (allowed a (fst (run_calls Allow ?cs ?r))) \<le>
      m_Burst ?r + of_int (t1 - t0) / 1000000000 * (of_int perMinute / 60) * (1 + 1 / 2 ^ 50) + of_nat (length ?cs) / 2 ^ 20"
    using stretch_of_one [OF now(1) _ _ assms(5)] by blast
  moreover have "m_Burst ?r = m_Burst ?l" using arg_cong [OF rl.run_cfg [of es ?l], of m_Burst] by simp
  moreover have "allowed a (fst (run_calls Allow ?cs ?r)) = allowed a (fst (run_calls Allow cs ?r))"
    using rate_noninterference [of a cs ?r] allowed_of by metis
  ultimately show ?thesis by simp
next
  case True
  have "1 \<le> m_Burst (RateLimiter_Configure perMinute burst)" by (simp add: RateLimiter_Configure_def Let_def)
  moreover have "0 \<le> of_int (t1 - t0) / 1000000000 * (of_int perMinute / 60) * (1 + 1 / 2 ^ 50 :: rat)"
    using assms(1,5) by (intro mult_nonneg_nonneg) simp_all
  ultimately show ?thesis using True by simp
qed

text \<open>Sixty calls within a second at a rate of 60 and a burst of 3: at most four are allowed.\<close>

theorem rate_limit_enforced_witness:
  "allowed 7 (fst (run_calls Allow (replicate 30 (seconds 5, 7) @ replicate 30 (seconds 6, 7))
     (snd (run_calls Allow [(0, 7), (1, 8)] (RateLimiter_Configure 60 3))))) \<le> 4"
proof -
  let ?cs = "replicate 30 (seconds 5, 7 :: u32) @ replicate 30 (seconds 6, 7)" and ?es = "[(0, 7 :: u32), (1, 8)]"
  let ?n = "allowed 7 (fst (run_calls Allow ?cs (snd (run_calls Allow ?es (RateLimiter_Configure 60 3)))))"
  have "sorted (map fst (?es @ ?cs))" by (simp add: sorted_append)
  then have "of_nat ?n \<le> m_Burst (RateLimiter_Configure 60 3) +
      of_int (seconds 6 - seconds 5) / 1000000000 * (of_int 60 / 60) * (1 + 1 / 2 ^ 50 :: rat) +
      of_nat (length (filter (\<lambda>e. snd e = 7) ?cs)) / 2 ^ 20"
    by (intro rate_limit_enforced) (auto simp: in_int32_def)
  also have "\<dots> < 5"
    using fl64_int32 [of 3] by (simp add: RateLimiter_Configure_def Let_def in_int32_def)
  finally have "of_nat ?n < (of_nat 5 :: rat)" by simp
  then have "?n < 5" by (simp only: of_nat_less_iff)
  then show ?thesis by simp
qed

end
