(* ===== verification/Rest_Delivery.thy ===== *)
theory Rest_Delivery
  imports Lifecycle
begin

text \<open>
  The REST interface from the bytes of a request to the handler: on the server the program starts,
  a well-formed request with the right token reaches the handler of its method and path with
  exactly the body that was sent, and what the handler answers is what the client is sent. The
  property applies this to \<^verbatim>\<open>POST /api/ban\<close>.
\<close>

section \<open>Requests\<close>

text \<open>The headers of a request with a token and a body.\<close>

definition token_headers :: "string \<Rightarrow> string \<Rightarrow> (string \<times> string) list" where
  "token_headers tok body = [(''Authorization'', ''Bearer '' @ tok), (''Content-Length'', show_nat (length body))]"

lemma show_nat_no_space: "c \<in> {CR, LF, CHR '' ''} \<Longrightarrow> c \<notin> set (show_nat n)"
  using show_nat_digits [of c n] by (auto simp: is_digit_def)

lemma token_headers_wf:
  assumes "CR \<notin> set tok" "LF \<notin> set tok"
  shows "list_all wf_header (token_headers tok body)"
proof -
  have "hd (show_nat n) \<noteq> CHR '' ''" for n
    using show_nat_no_space [of "CHR '' ''" n] by (metis hd_in_set insertI1 insert_commute show_nat_not_Nil)
  then show ?thesis
    using assms show_nat_no_space by (auto simp: token_headers_def wf_header_def)
qed

lemma token_authorized: "tok \<noteq> [] \<Longrightarrow> authorized tok (map_of (rev (token_headers tok body)))"
  by (simp add: authorized_def token_headers_def substr_def)


section \<open>Delivery\<close>

lemma find_distinct: "distinct (map k rs) \<Longrightarrow> r \<in> set rs \<Longrightarrow> find (\<lambda>x. k x = k r) rs = Some r"
  by (induction rs) (auto simp: image_iff)

lemma find_route_api:
  assumes "r \<in> set (routes (ApiRoutes_RegisterAll new_HttpServer))" "route_method r = req_method req" "route_path r = req_path req"
  shows "find_route (routes (ApiRoutes_RegisterAll new_HttpServer)) req = Some r"
proof -
  have "distinct (map (\<lambda>r. (route_method r, route_path r)) (routes (ApiRoutes_RegisterAll new_HttpServer)))"
    by (simp add: api_routes new_HttpServer_def)
  from find_distinct [OF this assms(1)] assms(2,3) show ?thesis by (simp add: find_route_def)
qed

lemma rest_delivers:
  assumes "p = StartListeners n1 n2 (new_Process c w0)" "p_http p = Some s"
    "tok \<noteq> []" "CR \<notin> set tok" "LF \<notin> set tok"
    "mk_route m path h \<in> set (routes (ApiRoutes_RegisterAll new_HttpServer))" "m \<noteq> ''OPTIONS''"
    "is_word m" "is_word path" "CHR ''?'' \<notin> set path"
    "length (request_head m path (token_headers tok body) @ b) \<le> 8191" "b @ stream xs = body @ later"
    "length b \<le> length body" "length body < 8 * 1024 * 1024"
  shows "\<exists>req. req_body req = body \<and>
    HttpServer_HandleClient tok (routes s) ((request_head m path (token_headers tok body) @ b) # xs) ns w =
      (SendResponse ns (fst (h req w)), snd (h req w))"
proof -
  let ?hs = "token_headers tok body"
  let ?req = "\<lparr>req_method = m, req_path = path, req_body = body, req_headers = map_of (rev ?hs), req_query = Map.empty\<rparr>"
  have "map_of (rev ?hs) ''Content-Length'' = Some (show_nat (length body))" by (simp add: token_headers_def)
  moreover have "ParseQuery path Map.empty = (path, Map.empty)" using find_char_None_iff [THEN iffD2, OF assms(10)] by (simp only: ParseQuery_def option.case)
  ultimately have parsed: "fst (ParseRequest ((request_head m path ?hs @ b) # xs)) = Inr ?req"
    using ParseRequest_written [OF assms(8,9) token_headers_wf [OF assms(4,5)] _ assms(14,11,12,13)] by simp
  have "find_route (routes s) ?req = Some (mk_route m path h)"
    using started_routes [OF assms(1,2)] find_route_api [OF assms(6)] by simp
  then have "answer tok (routes s) ?req w = (fst (h ?req w), snd (h ?req w))"
    using token_authorized [OF assms(3), of body] assms(7)
    by (simp add: answer_def dispatch_def no_throw_def split_beta)
  then show ?thesis
    by (intro exI [of _ ?req]) (simp add: HttpServer_HandleClient_def parsed split_beta)
qed


section \<open>A ban over HTTP\<close>

lemma post_ban_body:
  assumes "player \<noteq> []" "filter printable player = player" "\<not> hides_key ''reason'' player" "initialized (game w)"
    "req_body req = json_object [(''player'', player), (''reason'', reason)]"
  shows "post_ban req w =
    (case Ban (clock_text (game w)) player (filter printable reason) w of
       (ok, message, w') \<Rightarrow> (if \<not> ok then Error 500 message else Ok message, w'))"
proof -
  have k: "plain_key ''player''" "plain_key ''reason''" by (simp_all add: plain_key_def)
  have "GetString (json_object ([] @ (''player'', player) # [(''reason'', reason)])) ''player'' = Some (filter printable player)"
    using GetString_object [of "''player''" "[]" "''{''" player "[(''reason'', reason)]" "''}''"] k(1)
    by (simp add: json_object_def)
  moreover have "GetString (json_object ([(''player'', player)] @ (''reason'', reason) # [])) ''reason'' = Some (filter printable reason)"
    using GetString_object [of "''reason''" "[(''player'', player)]" "''{''" reason "[]" "''}''"] k assms(3)
    by (simp add: json_object_def)
  ultimately show ?thesis
    using assms by (simp add: post_ban_def required_def GetString_or_def EngineReady_def)
qed



end
