(* ===== verification/Rcon_Delivery.thy ===== *)
theory Rcon_Delivery
  imports Lifecycle
begin

text \<open>
  The console from the bytes of a connection to the command: on the server the program starts, a
  client that sends the password and a line has the line executed once and reads back, packet
  by packet, the answer to both. The property applies this to the command \<^verbatim>\<open>ban\<close>.
\<close>

section \<open>Replies that go out whole\<close>

lemma reply_accepting:
  assumes "accepting (c_out cl) (length (packet_bytes pid ty body) + k)"
  shows "\<exists>ns. reply pid ty body cl = cl\<lparr>c_wire := c_wire cl @ packet_bytes pid ty body, c_out := ns\<rparr> \<and> accepting ns k"
  using accepting_send [OF assms] by (auto simp: reply_def SendPacket_def)

lemma reply_body_accepting:
  assumes "accepting (c_out cl) (length (concat (map (packet_bytes pid ResponseValue) (response_bodies body))) + k)"
  shows "\<exists>ns. reply_body pid body cl =
    cl\<lparr>c_wire := c_wire cl @ concat (map (packet_bytes pid ResponseValue) (response_bodies body)), c_out := ns\<rparr>"
  using SendResponseBody_accepting [OF assms] by (auto simp: reply_body_def)

text \<open>The packets a client reads after the password and a line that is answered with \<open>message\<close>.\<close>

definition answers :: "int \<Rightarrow> int \<Rightarrow> string \<Rightarrow> (int \<times> int \<times> string) list" where
  "answers i1 i2 message =
     [(i1, ResponseValue, []), (i1, AuthResponse, [])] @ map (\<lambda>b. (i2, ResponseValue, b)) (response_bodies message)"

lemma answers_wf:
  assumes "in_int32 i1" "in_int32 i2" "NUL \<notin> set message"
  shows "list_all wf_packet (answers i1 i2 message)"
  using assms response_bodies_sendable [of _ message]
  by (fastforce simp: list_all_iff answers_def wf_packet_def ResponseValue_def AuthResponse_def in_int32_def)


section \<open>Delivery\<close>

lemma session_delivers:
  assumes "m_Running s" "list_all wf_packet [(i1, Auth, rcon_password (m_Config s)), (i2, ExecCommand, line)]"
    "stream xs = bytes_of (i1, Auth, rcon_password (m_Config s)) @ bytes_of (i2, ExecCommand, line)"
    "fst (Allow t2 peer (m_CommandLimiter s))" "run line w = (message, w')" "NUL \<notin> set message"
    "accepting ns (length (concat (map bytes_of (answers i1 i2 message))))"
  shows "\<exists>c' s'. Server_HandleClient run [t1, t2, t3] (new_Client peer xs ns) s w = (c', s', w') \<and> \<not> c_open c' \<and>
    read_packets (length (answers i1 i2 message)) [c_wire c'] = answers i1 i2 message"
proof -
  let ?pw = "rcon_password (m_Config s)"
  let ?ps = "[(t1, i1, Auth, ?pw), (t2, i2, ExecCommand, line)]"
  let ?tail = "concat (map (packet_bytes i2 ResponseValue) (response_bodies message))"
  have wire: "concat (map bytes_of (answers i1 i2 message)) =
      packet_bytes i1 ResponseValue [] @ packet_bytes i1 AuthResponse [] @ ?tail"
    by (simp add: answers_def comp_def)
  let ?c0 = "(new_Client peer [] ns)\<lparr>c_authenticated := True\<rparr>"
  from assms(7) have "accepting (c_out ?c0) (length (packet_bytes i1 ResponseValue []) + (length (packet_bytes i1 AuthResponse []) + (length ?tail + 0)))"
    by (simp add: wire new_Client_def)
  from reply_accepting [OF this] obtain ns1 where r1: "reply i1 ResponseValue [] ?c0 =
      ?c0\<lparr>c_wire := packet_bytes i1 ResponseValue [], c_out := ns1\<rparr>"
      "accepting ns1 (length (packet_bytes i1 AuthResponse []) + (length ?tail + 0))"
    by (auto simp: new_Client_def)
  let ?c1 = "?c0\<lparr>c_wire := packet_bytes i1 ResponseValue [], c_out := ns1\<rparr>"
  from r1(2) reply_accepting [of ?c1 i1 AuthResponse "[]" "length ?tail + 0"] obtain ns2 where r2: "reply i1 AuthResponse [] ?c1 =
      ?c1\<lparr>c_wire := packet_bytes i1 ResponseValue [] @ packet_bytes i1 AuthResponse [], c_out := ns2\<rparr>"
      "accepting ns2 (length ?tail + 0)"
    by auto
  let ?c2 = "?c1\<lparr>c_wire := packet_bytes i1 ResponseValue [] @ packet_bytes i1 AuthResponse [], c_out := ns2\<rparr>"
  from r2(2) reply_body_accepting [of ?c2 i2 message 0] obtain ns3 where r3: "reply_body i2 message ?c2 =
      ?c2\<lparr>c_wire := packet_bytes i1 ResponseValue [] @ packet_bytes i1 AuthResponse [] @ ?tail, c_out := ns3\<rparr>"
    by auto
  have "handle_packet run t1 (i1, Auth, ?pw) (new_Client peer [] ns) s w =
      (?c2, s\<lparr>m_AuthFailures := RecordSuccess t1 peer (m_AuthFailures s)\<rparr>, w)"
    by (simp add: handle_packet_def SecretsMatch_iff r1(1) r2(1)) (simp add: new_Client_def)
  moreover have "handle_packet run t2 (i2, ExecCommand, line) ?c2 (s\<lparr>m_AuthFailures := RecordSuccess t1 peer (m_AuthFailures s)\<rparr>) w =
      (reply_body i2 message ?c2, s\<lparr>m_AuthFailures := RecordSuccess t1 peer (m_AuthFailures s),
         m_CommandLimiter := snd (Allow t2 peer (m_CommandLimiter s))\<rparr>, w')"
    using assms(4) by (simp add: handle_packet_def Auth_def ExecCommand_def assms(5) split_beta Let_def new_Client_def)
  ultimately have "session run ?ps (new_Client peer [] ns) s w =
      (hang_up (reply_body i2 message ?c2), s\<lparr>m_AuthFailures := RecordSuccess t1 peer (m_AuthFailures s),
         m_CommandLimiter := snd (Allow t2 peer (m_CommandLimiter s))\<rparr>, w')"
    unfolding r3 by (simp add: new_Client_def Let_def)
  moreover obtain c' s' w'' where h: "Server_HandleClient run [t1, t2, t3] (new_Client peer xs ns) s w = (c', s', w'')"
    by (metis prod_cases3)
  moreover have "session run ?ps (no_in (new_Client peer xs ns)) s w = (no_in c', s', w'')"
    using assms(1-3) h by (intro HandleClient_session) (simp_all add: new_Client_def)
  ultimately have e: "no_in c' = hang_up (reply_body i2 message ?c2)" "w'' = w'" by (simp_all add: new_Client_def)
  have c': "\<not> c_open c'" "c_wire c' = concat (map bytes_of (answers i1 i2 message))"
    using arg_cong [OF e(1) [unfolded r3], of c_open] arg_cong [OF e(1) [unfolded r3], of c_wire]
    by (simp_all add: hang_up_def wire)
  have "list_all wf_packet (answers i1 i2 message)"
    using assms(2,6) by (intro answers_wf) (simp_all add: wf_packet_def)
  from read_packets_bytes [OF this, of "[c_wire c']" "[]"] c'(2)
  have "read_packets (length (answers i1 i2 message)) [c_wire c'] = answers i1 i2 message" by simp
  with h e(2) c'(1) show ?thesis by blast
qed

section \<open>A ban from the console\<close>

lemma Dispatch_ban:
  assumes "is_word player" "list_all is_word reason" "reason \<noteq> []" "initialized (game w)"
    "Ban (clock_text (game w)) player (join_words reason) w = (ok, message, w')"
  shows "Dispatch RegisterAll (join_words (''ban'' # player # reason)) w = (message, w')"
proof -
  let ?cmd = "mk_Command ''ban'' ''ban <player> [reason]'' ''Ban a player. Offline players by SteamID64.'' (plain cmd_ban)"
  have "Lower ''ban'' = ''ban''" by code_simp
  moreover have "?cmd \<in> set RegisterAll" by (simp add: RegisterAll_def RegisterPlayerCommands_def)
  moreover have "is_word ''ban''" by (simp add: is_word_def is_space_def)
  ultimately have "Dispatch RegisterAll (join_words (''ban'' # player # reason)) w =
      (case cmd_handler ?cmd (All RegisterAll) (player # reason) w of
         (Text t, w') \<Rightarrow> (t, w') | (Exception e, w') \<Rightarrow> (''Command failed: '' @ e, w') | (OtherException, w') \<Rightarrow> (''Command failed.'', w'))"
    using assms(1,2) by (intro Dispatch_word) simp_all
  then show ?thesis
    using assms(3-5) by (simp add: plain_def cmd_ban_def EngineReady_def reason_of_def)
qed



end
