(* ===== verification/Spec2Isabelle.thy ===== *)
theory Spec2Isabelle
  imports Prelude Json Config Float64 Access_Control Socket Http Rcon_Server Runtime Engine_Types Moderation
    Items Serialize Rcon_Commands Api_Routes Discord Game_Thread Memory Debounce Chat Lifecycle Offsets Uobject Players Engine_Core
    Logger Elf Hooks Chat_Hooks Game_View Boot Startup Program
    Clock Json_Float Rate_Bound Rest_Delivery Rcon_Delivery
begin

text \<open>
  RSDWServerAPI is a shared library that is loaded into a game server for Linux. It reads the
  state of the game out of the process's memory, calls functions of the game on the game's own
  thread, and offers both to administrators: over HTTP with a bearer token, over the Source RCON
  protocol with a password, and through chat commands. It also relays chat and deaths to Discord
  and keeps lists of kicked and banned players. This development models the C++ sources under
  \<^verbatim>\<open>src/src\<close> and proves what makes them correct.

  \<^bold>\<open>The parts and how they meet.\<close> The names of definitions are those of the functions they model.

  \<^item> Groundwork: \<^theory_text>\<open>Prelude\<close> (strings, numbers and their conversions as the C++ library has them,
    word lists), \<^theory_text>\<open>Float64\<close> (\<^verbatim>\<open>double\<close> and \<^verbatim>\<open>float\<close> arithmetic on finite values), \<^theory_text>\<open>Clock\<close>
    (calendar times and the formats the program prints them in), \<^theory_text>\<open>Socket\<close> (what \<^verbatim>\<open>recv\<close>
    and \<^verbatim>\<open>send\<close> do, and the locale \<open>listener\<close> of both servers), \<^theory_text>\<open>Debounce\<close> (the locale of the two
    places that suppress repeated reports).

  \<^item> Settings and text: \<^theory_text>\<open>Config\<close> (\<^verbatim>\<open>config/config.h\<close>), \<^theory_text>\<open>Json\<close> and \<^theory_text>\<open>Json_Float\<close> (\<^verbatim>\<open>utils/json.h\<close>), \<^theory_text>\<open>Serialize\<close>
    (\<^verbatim>\<open>api/serialize.cpp\<close>), \<^theory_text>\<open>Logger\<close> (\<^verbatim>\<open>utils/logger.h\<close>).

  \<^item> The network side: \<^theory_text>\<open>Access_Control\<close> (\<^verbatim>\<open>net/access_control.cpp\<close>) with \<^theory_text>\<open>Rate_Bound\<close>, \<^theory_text>\<open>Http\<close>
    (\<^verbatim>\<open>http/http_server.cpp\<close>), \<^theory_text>\<open>Rcon_Server\<close> (\<^verbatim>\<open>rcon/rcon_server.cpp\<close>), and the handlers behind
    them, \<^theory_text>\<open>Api_Routes\<close> (\<^verbatim>\<open>api/*_routes.cpp\<close>) and \<^theory_text>\<open>Rcon_Commands\<close> (\<^verbatim>\<open>rcon/commands_*.cpp\<close>);
    \<^theory_text>\<open>Discord\<close> (\<^verbatim>\<open>discord/webhook.cpp\<close>).

  \<^item> The game's side, abstract: \<^theory_text>\<open>Engine_Types\<close> (\<^verbatim>\<open>engine/dom_engine.h\<close>) has the record \<^typ>\<open>Game\<close> of
    what the game answers and the state \<^typ>\<open>World\<close> of the program; on it stand \<^theory_text>\<open>Moderation\<close>
    (\<^verbatim>\<open>engine/kick.cpp\<close>, \<^verbatim>\<open>bans.cpp\<close>), \<^theory_text>\<open>Items\<close> (\<^verbatim>\<open>items.cpp\<close>), \<^theory_text>\<open>Chat\<close> (\<^verbatim>\<open>chat.cpp\<close>),
    \<^theory_text>\<open>Runtime\<close> (\<^verbatim>\<open>runtime.cpp\<close>) and \<^theory_text>\<open>Game_Thread\<close> (the job queue of \<^verbatim>\<open>process_event.cpp\<close>).

  \<^item> The game's side, on memory: \<^theory_text>\<open>Memory\<close> (\<^verbatim>\<open>utils/memory.cpp\<close>) guards every read; on it
    \<^theory_text>\<open>Offsets\<close> and \<^theory_text>\<open>Uobject\<close> (\<^verbatim>\<open>uobject.cpp\<close>), \<^theory_text>\<open>Players\<close> (\<^verbatim>\<open>players.cpp\<close>, \<^verbatim>\<open>server.cpp\<close>),
    \<^theory_text>\<open>Engine_Core\<close> (\<^verbatim>\<open>engine_core.cpp\<close>), \<^theory_text>\<open>Elf\<close> and \<^theory_text>\<open>Hooks\<close> (\<^verbatim>\<open>process_event.cpp\<close>,
    \<^verbatim>\<open>native_call.cpp\<close>) and \<^theory_text>\<open>Chat_Hooks\<close> (the hooks of \<^verbatim>\<open>chat.cpp\<close>). \<^theory_text>\<open>Game_View\<close> joins the two
    sides: it computes a \<^typ>\<open>Game\<close> from memory and shows that the abstract actions are refined by
    the code that builds native calls.

  \<^item> The whole: \<^theory_text>\<open>Lifecycle\<close>, \<^theory_text>\<open>Boot\<close> and \<^theory_text>\<open>Startup\<close> (\<^verbatim>\<open>rsdwapi.cpp\<close>) start the listeners, wait for the
    engine, install the hooks, run the watch loop and shut down. \<^theory_text>\<open>Program\<close> runs
    requests, console lines, chat, the watch loop and the game in any order. \<^theory_text>\<open>Rest_Delivery\<close> and
    \<^theory_text>\<open>Rcon_Delivery\<close> follow a request and a console line from their bytes to the handler and
    back. This theory joins the listeners with their handlers.

  \<^bold>\<open>State.\<close> Each component's state is a record with the names of the fields or globals it stands
  for (\<^typ>\<open>World HttpServer\<close>, \<^typ>\<open>RconServer\<close>, \<^typ>\<open>FailureTracker\<close>, \<^typ>\<open>RateLimiter\<close>, \<^typ>\<open>JobQueue\<close>,
  \<^typ>\<open>Hooks\<close>, \<^typ>\<open>ChatHooks\<close>); an operation returns it updated. \<^typ>\<open>World\<close> also lists the calls made
  into the game (\<open>calls\<close>), so that what an operation does there can be stated. Memory is a
  \<^typ>\<open>Heap\<close>: which ranges the guard accepts, which addresses lie in the image, and the bytes. Where
  threads meet, steps of the code under a lock are steps of an inductive relation
  (\<^const>\<open>rcon_step\<close>, \<^const>\<open>job_step\<close>, \<^const>\<open>tracker_step\<close>) and the theorems hold for every interleaving.

  \<^bold>\<open>What is shown.\<close> The claims are the theorems with a number. Delivery: what an authorised client
  asks for is done and answered truthfully (\<open>rest_ban_effective\<close> and \<open>rcon_ban_effective\<close>, for
  any route or line \<open>rest_delivers\<close> and \<open>session_delivers\<close>). Security: whatever changes the state
  over HTTP, RCON or chat was authorised (\<open>rest_end_to_end\<close>, \<open>rcon_end_to_end\<close>,
  \<open>rcon_needs_password\<close>, \<open>chat_admin_only\<close>), guessing is cut off (\<open>lockout_enforced\<close>,
  \<open>rcon_guessing_refused\<close>), the filters and limits are exact (\<open>whitelist_semantics\<close>,
  \<open>rate_limit_enforced\<close> with the rounding errors of its arithmetic, \<open>rcon_connection_bound\<close>), and
  no player's text reaches a shell (\<open>discord_no_injection\<close>). Protocols and files: requests, packets, the settings, the ban file and
  JSON fields are read back as written. Moderation: bans hold (\<open>decisions_kept\<close> over
  every sequence of events), kicks hit whom they name. Memory
  safety: the guard is exact (\<open>readable_exact\<close>), nothing outside it is seen (\<open>game_view_guarded\<close>),
  frames, hooks and symbol tables stay in bounds and are taken back without a trace. Life cycle:
  the reported status is the truth, coming up is all or nothing, the shutdown leaves nothing
  behind. Other lemmas record behaviour that is not what the code means to do:
  \<open>whitelist_junk_prefix_opens\<close>, \<open>window_not_sliding\<close>, \<open>timeout_leaves_job_running\<close>,
  \<open>unban_still_kicked\<close>, \<open>ban_brace_truncates\<close>, \<open>json_value_hides_key\<close>, \<open>Num_nan\<close>,
  \<open>unloaded_bans_lost\<close>, \<open>WriteFString_mangles\<close>, \<open>failed_initialize_blocks_derive\<close>,
  \<open>symbol_mode_refuses\<close>, \<open>hook_gap_drops_event\<close>, \<open>archive_name_repeats\<close> and \<open>elf_names_index_unchecked\<close>.

  \<^bold>\<open>Locales.\<close> \<open>rounding\<close> (interpreted by \<^const>\<open>fl64\<close> and \<^const>\<open>fl32\<close>), \<open>per_address\<close> (rate limiter and failure
  tracker), \<open>listener\<close> (HTTP and RCON server), \<open>debounce\<close> (chat events and deaths) and
  \<open>enforcement\<close> (kick list and bans) state the contracts that two components share.

  \<^bold>\<open>Loops and bounds.\<close> Loops over data are structural recursion or have a measure. Loops that go
  round once per event take the list of events: the clock readings of the iterations of an RCON
  client (one more than the packets is enough, \<open>rcon_session_refines\<close>), the segments of a socket,
  the attempts of the wait for the engine (\<open>engine_wait_ends\<close>). The code's own bounds are kept as
  they are: 32 steps up a class hierarchy, 512 players, 400 objects and 200 slots in the search for
  \<^verbatim>\<open>ProcessEvent\<close>, 0x180 bytes of a frame that is learned and 0x200 of one that is built, 10 old
  logs. Machine words are words where they wrap (addresses, IPv4 addresses, offsets, secrets),
  \<^typ>\<open>int\<close> with the conversion written out for the C \<^verbatim>\<open>int\<close> of settings and packets.

  \<^bold>\<open>Parameters.\<close> What the operating system and the game decide is an argument: the results of
  system calls, clock readings, the bytes in files and memory, \<^verbatim>\<open>inet_pton\<close>, the order \<^verbatim>\<open>std::sort\<close>
  gives equal keys, the success of \<^verbatim>\<open>mprotect\<close>, the answer of a native call.

  \<^bold>\<open>Not modelled.\<close> The library's constructor, the \<^verbatim>\<open>atexit\<close> registration and the
  creation and joining of threads; the code of the game behind a call (the call is recorded); failure of
  \<^verbatim>\<open>malloc\<close> and \<^verbatim>\<open>new\<close>; the text of log messages outside \<^theory_text>\<open>Logger\<close>, which nothing reads;
  infinite and NaN values inside the rate limiter's arithmetic, which it cannot reach; the rules
  of time zones, of which only the offset at a second is used.
\<close>


section \<open>The listeners with their handlers\<close>

text \<open>
  C1: The REST interface from socket to state: on the server the program starts with a bearer
  token configured, a connection that leaves the state of the program different carried a
  request with exactly that token, with method POST and one of the five changing paths,
  whatever bytes arrived and in whatever segments.
\<close>
theorem rest_end_to_end:
  assumes "p = StartListeners n1 n2 (new_Process c w0)" "p_http p = Some s" "rest_bearerToken (rest c) \<noteq> []"
    "snd (HttpServer_HandleClient (rest_bearerToken (rest c)) (routes s) xs ns w) \<noteq> w"
  shows "\<exists>req. fst (ParseRequest xs) = Inr req \<and>
    req_headers req ''Authorization'' = Some (''Bearer '' @ rest_bearerToken (rest c)) \<and>
    req_method req = ''POST'' \<and>
    req_path req \<in> {''/api/kick'', ''/api/broadcast'', ''/api/give'', ''/api/ban'', ''/api/unban''}"
proof -
  have r: "routes s = routes (ApiRoutes_RegisterAll new_HttpServer)"
    using assms(1,2) started_routes by blast
  from HandleClient_effect [OF assms(3,4)] obtain req t where q: "fst (ParseRequest xs) = Inr req"
      "req_headers req ''Authorization'' = Some (''Bearer '' @ rest_bearerToken (rest c))"
    by blast
  have "snd (HttpServer_HandleClient (rest_bearerToken (rest c)) (routes s) xs ns w) = w \<or>
      snd (HttpServer_HandleClient (rest_bearerToken (rest c)) (routes s) xs ns w) = snd (dispatch (routes s) req w)"
    using q(1) by (auto simp: HttpServer_HandleClient_def answer_def split_beta)
  then have "snd (dispatch (routes (ApiRoutes_RegisterAll new_HttpServer)) req w) \<noteq> w" using assms(4) r by auto
  from dispatch_effect [OF this] q show ?thesis by blast
qed

definition demo_config :: APIConfig where
  "demo_config = default_config\<lparr>rest := default_rest\<lparr>rest_bearerToken := ''tok''\<rparr>,
     rcon := default_rcon\<lparr>rcon_enabled := True, rcon_password := ''pw''\<rparr>\<rparr>"

definition banned_world :: World where
  "banned_world = demo_world\<lparr>g_Bans := [ban_entry ''t'' ''1'' ''Ann'' ''r'']\<rparr>"

lemma unban_changes: "g_Bans (snd (snd (Unban ''Ann'' banned_world))) = []"
  by (simp add: Unban_def ban_entry_def banned_world_def)

theorem rest_end_to_end_witness:
  "\<exists>s req. p_http (StartListeners undefined undefined (new_Process demo_config demo_world)) = Some s \<and>
     g_Bans (snd (HttpServer_HandleClient ''tok'' (routes s)
       [request_head ''POST'' ''/api/unban'' [(''Authorization'', ''Bearer tok'')] @ json_object [(''player'', ''Ann'')]] [] banned_world)) = [] \<and>
     fst (ParseRequest [request_head ''POST'' ''/api/unban'' [(''Authorization'', ''Bearer tok'')] @ json_object [(''player'', ''Ann'')]]) = Inr req \<and>
     req_headers req ''Authorization'' = Some (''Bearer tok'') \<and> req_method req = ''POST''"
proof -
  define p where "p = StartListeners undefined undefined (new_Process demo_config demo_world)"
  obtain s where s: "p_http p = Some s"
    by (auto simp: p_def StartListeners_def start_rest_def start_rcon_def new_Process_def demo_config_def
        default_config_def default_rest_def Let_def split_beta split: if_splits)
  have t: "rest_bearerToken (rest demo_config) = ''tok''" by (simp add: demo_config_def)
  let ?hs = "[(''Authorization'', ''Bearer tok'')]" and ?body = "json_object [(''player'', ''Ann'')]"
  let ?xs = "[request_head ''POST'' ''/api/unban'' ?hs @ ?body]"
  let ?req = "\<lparr>req_method = ''POST'', req_path = ''/api/unban'', req_body = ?body, req_headers = map_of ?hs, req_query = Map.empty\<rparr>"
  have "GetString (''{'' @ json_fields ([] @ (''player'', ''Ann'') # []) @ ''}'') ''player'' = Some (filter printable ''Ann'')"
    by (rule GetString_object) (simp_all add: plain_key_def)
  then have field: "required ?body ''player'' = Some ''Ann''" by (simp add: required_def json_object_def printable_def)
  have "length ?body \<le> 100" by code_simp
  then have parsed: "fst (ParseRequest ?xs) = Inr ?req"
    by (subst ParseRequest_head)
      (simp_all add: is_word_def is_space_def wf_header_def ParseQuery_def request_head_def crlf_lines_def
        request_line_def header_text_def)
  have "find_route (routes (ApiRoutes_RegisterAll new_HttpServer)) ?req = Some (mk_route ''POST'' ''/api/unban'' post_unban)"
    by (simp add: find_route_def api_routes new_HttpServer_def)
  then have unbanned: "g_Bans (snd (HttpServer_HandleClient ''tok'' (routes s) ?xs [] banned_world)) = []"
    using field unban_changes started_routes [OF p_def s]
    by (simp add: HttpServer_HandleClient_def parsed answer_def authorized_def substr_def dispatch_def no_throw_def
        post_unban_def split_beta)
  moreover have "g_Bans banned_world \<noteq> []" by (simp add: banned_world_def)
  ultimately have "snd (HttpServer_HandleClient (rest_bearerToken (rest demo_config)) (routes s) ?xs [] banned_world) \<noteq> banned_world"
    unfolding t by metis
  from rest_end_to_end [OF p_def s _ this] obtain req where "fst (ParseRequest ?xs) = Inr req"
      "req_headers req ''Authorization'' = Some (''Bearer '' @ ''tok'')" "req_method req = ''POST''"
    by (auto simp: t)
  then show ?thesis using s unbanned unfolding p_def by auto
qed





end
